(* ===== verification/Prelude.thy ===== *)
theory Prelude
  imports Main "HOL-Library.AList" "HOL-Library.Word"
begin

text \<open>
  Shared vocabulary of the development. A Go function that returns \<open>(T, error)\<close> is a
  function into \<open>'e + 'a\<close>: \<open>Inl\<close> is the error return, \<open>Inr\<close> the value. A Go
  function that returns only an \<open>error\<close> returns \<open>'e option\<close> (\<open>None\<close> is nil). Machine integers keep
  their Go width where the source declares one (\<open>uint16\<close>, \<open>uint32\<close>, \<open>uint64\<close>; an \<open>int64\<close> is \<open>i64\<close>, read with \<open>sint\<close>); a Go \<open>int\<close> is \<open>int\<close>. A Go map is an
  association list whose order stands for the unspecified iteration order of the
  language: a theorem about every list is a theorem about every order.
\<close>

section \<open>Names of the machine types\<close>

type_synonym u8 = "8 word"
type_synonym u16 = "16 word"
type_synonym u32 = "32 word"
type_synonym u64 = "64 word"
type_synonym i64 = "64 word"

named_theorems codec "round trips of the renderers and parsers"
named_theorems frame "fields an operation leaves unchanged"
named_theorems unfold_defs "definitions a component proof unfolds by default"

section \<open>Results\<close>

fun rbind :: "'e + 'a \<Rightarrow> ('a \<Rightarrow> 'e + 'b) \<Rightarrow> 'e + 'b" where
  "rbind (Inl e) f = Inl e"
| "rbind (Inr x) f = f x"

fun rmap :: "('a \<Rightarrow> 'b) \<Rightarrow> 'e + 'a \<Rightarrow> 'e + 'b" where
  "rmap f (Inl e) = Inl e"
| "rmap f (Inr x) = Inr (f x)"

fun wrap_err :: "('e \<Rightarrow> 'f) \<Rightarrow> 'e + 'a \<Rightarrow> 'f + 'a" where
  "wrap_err w (Inl e) = Inl (w e)"
| "wrap_err w (Inr x) = Inr x"

text \<open>\<open>traverse f xs\<close> is a loop that appends \<open>f x\<close> for every item and returns at the first error.\<close>

fun traverse :: "('a \<Rightarrow> 'e + 'b) \<Rightarrow> 'a list \<Rightarrow> 'e + 'b list" where
  "traverse f [] = Inr []"
| "traverse f (x # xs) =
     (case f x of Inl e \<Rightarrow> Inl e
      | Inr y \<Rightarrow> (case traverse f xs of Inl e \<Rightarrow> Inl e | Inr ys \<Rightarrow> Inr (y # ys)))"

lemma rbind_Inr_iff [simp]: "rbind r f = Inr y \<longleftrightarrow> (\<exists>x. r = Inr x \<and> f x = Inr y)"
  by (cases r) auto

lemma rbind_assoc: "rbind (rbind r f) g = rbind r (\<lambda>x. rbind (f x) g)"
  by (cases r) simp_all

lemma rmap_Inr_iff [simp]: "rmap f r = Inr y \<longleftrightarrow> (\<exists>x. r = Inr x \<and> y = f x)"
  by (cases r) auto

lemma wrap_err_Inr_iff [simp]: "wrap_err w r = Inr y \<longleftrightarrow> r = Inr y"
  by (cases r) auto

lemma traverse_Inr_iff:
  "traverse f xs = Inr ys \<longleftrightarrow> list_all2 (\<lambda>x y. f x = Inr y) xs ys"
proof (induction xs arbitrary: ys)
  case Nil
  then show ?case by auto
next
  case (Cons x xs)
  show ?case
  proof (cases "traverse f xs")
    case (Inl e)
    with Cons.IH have "\<not> list_all2 (\<lambda>x y. f x = Inr y) xs zs" for zs by fastforce
    with Inl show ?thesis by (auto simp: list_all2_Cons1 split: sum.splits)
  next
    case (Inr zs)
    with Cons.IH have "list_all2 (\<lambda>x y. f x = Inr y) xs us \<longleftrightarrow> us = zs" for us by fastforce
    with Inr show ?thesis by (auto simp: list_all2_Cons1 split: sum.splits)
  qed
qed

lemma traverse_map_Inr [codec]:
  "(\<And>x. x \<in> set xs \<Longrightarrow> f (g x) = Inr x) \<Longrightarrow> traverse f (map g xs) = Inr xs"
  by (induction xs) auto

lemma traverse_Inr_length: "traverse f xs = Inr ys \<Longrightarrow> length ys = length xs"
  by (auto simp: traverse_Inr_iff dest: list_all2_lengthD)

section \<open>Association lists standing for Go maps\<close>

text \<open>
  \<open>map_of m k\<close> is \<open>v, ok := m[k]\<close>; \<open>AList.update\<close> is \<open>m[k] = v\<close>; \<open>AList.delete\<close> is
  \<open>delete(m, k)\<close>. \<open>mget m k d\<close> is \<open>m[k]\<close> where the zero value of the
  element type is \<open>d\<close>.
\<close>

definition mget :: "('k \<times> 'v) list \<Rightarrow> 'k \<Rightarrow> 'v \<Rightarrow> 'v" where
  "mget m k d = (case map_of m k of None \<Rightarrow> d | Some v \<Rightarrow> v)"

abbreviation mput :: "'k \<Rightarrow> 'v \<Rightarrow> ('k \<times> 'v) list \<Rightarrow> ('k \<times> 'v) list" where
  "mput \<equiv> AList.update"

abbreviation mdel :: "'k \<Rightarrow> ('k \<times> 'v) list \<Rightarrow> ('k \<times> 'v) list" where
  "mdel \<equiv> AList.delete"

abbreviation keys :: "('k \<times> 'v) list \<Rightarrow> 'k set" where
  "keys m \<equiv> fst ` set m"

lemma map_of_mput [simp]: "map_of (mput k v m) = (map_of m)(k \<mapsto> v)"
  by (rule update_conv')

lemma map_of_mdel [simp]: "map_of (mdel k m) = (map_of m)(k := None)"
  by (rule delete_conv')

lemma mget_mput [simp]: "mget (mput k v m) k' d = (if k' = k then v else mget m k' d)"
  by (simp add: mget_def)

lemma mget_mdel [simp]: "mget (mdel k m) k' d = (if k' = k then d else mget m k' d)"
  by (simp add: mget_def)

lemma keys_mput [simp]: "keys (mput k v m) = insert k (keys m)"
  by (metis dom_map_of_conv_image_fst dom_fun_upd map_of_mput option.distinct(1))

lemma keys_mdel [simp]: "keys (mdel k m) = keys m - {k}"
  by (metis dom_map_of_conv_image_fst dom_fun_upd map_of_mdel)

lemma distinct_mput [simp]: "distinct (map fst m) \<Longrightarrow> distinct (map fst (mput k v m))"
  by (rule distinct_update)

lemma distinct_mdel [simp]: "distinct (map fst m) \<Longrightarrow> distinct (map fst (mdel k m))"
  by (rule distinct_delete)

section \<open>Words\<close>

lemma unat_u8: "unat (x :: u8) < 256"
  using unsigned_less [of x] by simp

lemma unat_u16: "unat (x :: u16) < 65536"
  using unsigned_less [of x] by simp

lemma unat_u32: "unat (x :: u32) < 4294967296"
  using unsigned_less [of x] by simp

section \<open>Lists\<close>

lemma dropWhile_eq_self: "(xs = [] \<or> \<not> P (hd xs)) \<Longrightarrow> dropWhile P xs = xs"
  by (cases xs) auto

lemma takeWhile_dropWhile_all:
  "(\<And>x. x \<in> set xs \<Longrightarrow> P x) \<Longrightarrow> takeWhile P xs = xs \<and> dropWhile P xs = []"
  by (induction xs) auto

end
