(* ===== verification/Mtu.thy ===== *)
theory Mtu
  imports Prelude
begin

text \<open>
  \<open>internal/mtu/mtu.go\<close>: the largest packet a client may send so that it survives both
  encapsulations. \<open>mtu_client\<close> is \<open>Client\<close>; the loop over the upstreams is a left fold
  of its body.
\<close>

definition Overhead :: int where "Overhead = 60"
definition DefaultWireGuard :: int where "DefaultWireGuard = 1420"
definition Ethernet :: int where "Ethernet = 1500"

record mtu_upstream =
  mu_mtu :: int
  mu_s4 :: u16

definition mtu_step :: "int \<Rightarrow> mtu_upstream \<Rightarrow> int" where
  "mtu_step best u =
     (let m = (if mu_mtu u = 0 then DefaultWireGuard else mu_mtu u);
          fits = m - uint (mu_s4 u)
      in if fits < best then fits else best)"

definition mtu_client :: "u16 \<Rightarrow> mtu_upstream list \<Rightarrow> int" where
  "mtu_client s4Down upstreams = foldl mtu_step (Ethernet - Overhead - uint s4Down) upstreams"

text \<open>The packet size an upstream leaves to its payload, and what fitting means.\<close>

definition effective_mtu :: "mtu_upstream \<Rightarrow> int" where
  "effective_mtu u = (if mu_mtu u = 0 then DefaultWireGuard else mu_mtu u)"

definition fits_everywhere :: "u16 \<Rightarrow> mtu_upstream list \<Rightarrow> int \<Rightarrow> bool" where
  "fits_everywhere s4Down ups m \<longleftrightarrow>
     m + uint s4Down + Overhead \<le> Ethernet \<and>
     (\<forall>u \<in> set ups. m + uint (mu_s4 u) \<le> effective_mtu u)"

lemma le_mtu_step: "m \<le> mtu_step best u \<longleftrightarrow> m \<le> best \<and> m + uint (mu_s4 u) \<le> effective_mtu u"
  by (auto simp: mtu_step_def effective_mtu_def Let_def)

lemma le_foldl_mtu_step:
  "m \<le> foldl mtu_step best ups \<longleftrightarrow>
     m \<le> best \<and> (\<forall>u \<in> set ups. m + uint (mu_s4 u) \<le> effective_mtu u)"
  by (induction ups arbitrary: best) (auto simp: le_mtu_step)

section \<open>Properties\<close>

text \<open>C32. The MTU handed to a client is the largest packet size that fits, with Lotsman's own transport padding and
  overhead, into an Ethernet frame and, with its padding, into every upstream tunnel: a size fits everywhere exactly
  when it is at most that MTU.\<close>

theorem mtu_client_largest: "m \<le> mtu_client s4 ups \<longleftrightarrow> fits_everywhere s4 ups m"
  by (auto simp: mtu_client_def fits_everywhere_def le_foldl_mtu_step)

end
