(* ===== verification/Health.thy ===== *)
theory Health
  imports Prelude
begin

text \<open>
  \<open>internal/health/tracker.go\<close>: the hysteresis that turns probe results into a health
  state. The record \<open>tracker\<close> is \<open>Tracker\<close>, \<open>observe\<close> is \<open>Observe\<close> (the new tracker and whether
  the state changed), \<open>set_thresholds\<close> is \<open>SetThresholds\<close>. The lemmas relate the two run counters and the
  state to the whole probe history.
\<close>

datatype health_state = Unknown | Up | Down

definition state_string :: "health_state \<Rightarrow> string" where
  "state_string s = (case s of Up \<Rightarrow> ''up'' | Down \<Rightarrow> ''down'' | _ \<Rightarrow> ''unknown'')"

record tracker =
  downAfter :: int
  upAfter :: int
  t_state :: health_state
  fails :: int
  oks :: int
  t_latency :: int

definition NewTracker :: "int \<Rightarrow> int \<Rightarrow> tracker" where
  "NewTracker d u = \<lparr>downAfter = d, upAfter = u, t_state = Unknown, fails = 0, oks = 0, t_latency = 0\<rparr>"

lemma NewTracker_simps [simp]:
  "downAfter (NewTracker d u) = d" "upAfter (NewTracker d u) = u"
  "t_state (NewTracker d u) = Unknown" "fails (NewTracker d u) = 0"
  "oks (NewTracker d u) = 0" "t_latency (NewTracker d u) = 0"
  by (simp_all add: NewTracker_def)

definition observe :: "tracker \<Rightarrow> bool \<Rightarrow> int \<Rightarrow> tracker \<times> bool" where
  "observe t ok lat =
     (let before = t_state t;
          t' = (if ok then
                  let t1 = t\<lparr>fails := 0, oks := oks t + 1, t_latency := lat\<rparr>
                  in if t_state t1 = Unknown \<or> oks t1 \<ge> upAfter t1 then t1\<lparr>t_state := Up\<rparr> else t1
                else
                  let t1 = t\<lparr>oks := 0, fails := fails t + 1\<rparr>
                  in if fails t1 \<ge> downAfter t1 then t1\<lparr>t_state := Down\<rparr> else t1)
      in (t', t_state t' \<noteq> before))"

definition set_thresholds :: "int \<Rightarrow> int \<Rightarrow> tracker \<Rightarrow> tracker" where
  "set_thresholds d u t = t\<lparr>downAfter := d, upAfter := u\<rparr>"

section \<open>Histories\<close>

text \<open>
  A probe history is a list of results, oldest first. \<open>observe_all\<close> feeds it to the
  tracker. \<open>run_of b h\<close> is the length of the final run of results equal to \<open>b\<close>.
\<close>

definition observe_all :: "tracker \<Rightarrow> (bool \<times> int) list \<Rightarrow> tracker" where
  "observe_all = foldl (\<lambda>t (ok, lat). fst (observe t ok lat))"

definition run_of :: "bool \<Rightarrow> (bool \<times> int) list \<Rightarrow> nat" where
  "run_of b h = length (takeWhile (\<lambda>p. fst p = b) (rev h))"

lemma run_of_simps [simp]:
  "run_of b [] = 0"
  "run_of b (h @ [p]) = (if fst p = b then Suc (run_of b h) else 0)"
  by (auto simp: run_of_def)

lemma observe_all_simps [simp]:
  "observe_all t [] = t"
  "observe_all t (h @ [p]) = fst (observe (observe_all t h) (fst p) (snd p))"
  by (simp_all add: observe_all_def case_prod_beta)

lemma observe_thresholds [simp]:
  "downAfter (fst (observe t ok lat)) = downAfter t"
  "upAfter (fst (observe t ok lat)) = upAfter t"
  by (auto simp: observe_def Let_def)

lemma observe_all_thresholds [simp]:
  "downAfter (observe_all t h) = downAfter t"
  "upAfter (observe_all t h) = upAfter t"
  by (induction h rule: rev_induct) auto

lemma observe_all_counters:
  "fails (observe_all (NewTracker d u) h) = int (run_of False h)"
  "oks (observe_all (NewTracker d u) h) = int (run_of True h)"
  by (induction h rule: rev_induct) (auto simp: observe_def Let_def)

section \<open>The declarative reading\<close>

text \<open>
  \<open>went_down d u h\<close>: at some moment \<open>k\<close> of the history the last \<open>d\<close> results were all
  failures, and at no later moment were the last \<open>u\<close> results all successes.
\<close>

definition went_down :: "nat \<Rightarrow> nat \<Rightarrow> (bool \<times> int) list \<Rightarrow> bool" where
  "went_down d u h \<longleftrightarrow>
     (\<exists>k \<in> {0..length h}. d \<le> run_of False (take k h) \<and>
        (\<forall>j \<in> {Suc k..length h}. run_of True (take j h) < u))"

lemma went_down_Nil [simp]: "0 < d \<Longrightarrow> \<not> went_down d u []"
  by (simp add: went_down_def)

lemma went_down_snoc:
  "went_down d u (h @ [p]) \<longleftrightarrow>
     d \<le> run_of False (h @ [p]) \<or> (went_down d u h \<and> run_of True (h @ [p]) < u)"
  (is "?l \<longleftrightarrow> ?r")
proof
  assume ?l
  then obtain k where k: "k \<le> Suc (length h)" "d \<le> run_of False (take k (h @ [p]))"
    and j: "\<And>j. Suc k \<le> j \<Longrightarrow> j \<le> Suc (length h) \<Longrightarrow> run_of True (take j (h @ [p])) < u"
    by (auto simp: went_down_def)
  show ?r
  proof (cases "k = Suc (length h)")
    case True
    with k show ?thesis by simp
  next
    case False
    with k have kh: "k \<le> length h" by simp
    with k have "d \<le> run_of False (take k h)" by simp
    moreover have "run_of True (take j h) < u" if "Suc k \<le> j" "j \<le> length h" for j
      using j [of j] that by simp
    moreover have "run_of True (h @ [p]) < u"
      using j [of "Suc (length h)"] kh by simp
    ultimately show ?thesis using kh by (auto simp: went_down_def)
  qed
next
  assume r: ?r
  show ?l
  proof (cases "d \<le> run_of False (h @ [p])")
    case True
    then show ?thesis
      unfolding went_down_def by (intro bexI [of _ "Suc (length h)"]) auto
  next
    case False
    with r have now: "run_of True (h @ [p]) < u" and "went_down d u h" by auto
    then obtain k where k: "k \<le> length h" "d \<le> run_of False (take k h)"
      and j: "\<And>j. Suc k \<le> j \<Longrightarrow> j \<le> length h \<Longrightarrow> run_of True (take j h) < u"
      by (auto simp: went_down_def)
    have "run_of True (take j (h @ [p])) < u" if "Suc k \<le> j" "j \<le> Suc (length h)" for j
      using j [of j] that now by (cases "j = Suc (length h)") auto
    with k show ?thesis
      unfolding went_down_def by (intro bexI [of _ k]) auto
  qed
qed

lemma run_of_le_filter: "run_of b h = 0 \<or> (\<exists>p \<in> set h. fst p = b)"
  by (induction h rule: rev_induct) auto

text \<open>The state of the tracker is a function of the history alone.\<close>

definition state_after :: "nat \<Rightarrow> nat \<Rightarrow> (bool \<times> int) list \<Rightarrow> health_state" where
  "state_after d u h =
     (if went_down d u h then Down
      else if \<exists>p \<in> set h. fst p then Up
      else Unknown)"

lemma observe_state:
  "t_state (fst (observe t ok lat)) =
     (if ok then (if t_state t = Unknown \<or> upAfter t \<le> oks t + 1 then Up else t_state t)
      else (if downAfter t \<le> fails t + 1 then Down else t_state t))"
  by (simp add: observe_def Let_def)

lemma observe_all_state:
  assumes "0 < d" and "0 < u"
  shows "t_state (observe_all (NewTracker (int d) (int u)) h) = state_after d u h"
proof (induction h rule: rev_induct)
  case Nil
  with assms show ?case by (simp add: state_after_def)
next
  case (snoc p h)
  let ?t = "observe_all (NewTracker (int d) (int u)) h"
  have c: "fails ?t = int (run_of False h)" "oks ?t = int (run_of True h)"
    "downAfter ?t = int d" "upAfter ?t = int u"
    by (simp_all add: observe_all_counters)
  show ?case
  proof (cases "fst p")
    case True
    with assms show ?thesis
      by (auto simp: snoc.IH c observe_state state_after_def went_down_snoc)
  next
    case False
    with assms show ?thesis
      by (auto simp: snoc.IH c observe_state state_after_def went_down_snoc)
  qed
qed

lemma observe_changed: "snd (observe t ok lat) \<longleftrightarrow> t_state (fst (observe t ok lat)) \<noteq> t_state t"
  by (simp add: observe_def Let_def)

text \<open>A success after the last probe moves the latency; a failure keeps it.\<close>

lemma observe_latency [frame]:
  "t_latency (fst (observe t ok lat)) = (if ok then lat else t_latency t)"
  by (simp add: observe_def Let_def)

lemma set_thresholds_frame [frame]:
  "t_state (set_thresholds d u t) = t_state t"
  "t_latency (set_thresholds d u t) = t_latency t"
  by (simp_all add: set_thresholds_def)

section \<open>Properties\<close>

text \<open>C16. The hysteresis of the tracker: after any history of probe results its state is \<open>Down\<close> exactly when
  \<open>down_after\<close> failures in a row were seen and \<open>up_after\<close> successes in a row were not seen since,
  otherwise \<open>Up\<close> when any probe ever succeeded and \<open>Unknown\<close> when none did.\<close>

theorem tracker_hysteresis:
  assumes "0 < d" and "0 < u"
  shows "t_state (observe_all (NewTracker (int d) (int u)) h) = state_after d u h"
  using assms by (rule observe_all_state)

theorem tracker_hysteresis_witness:
  "t_state (observe_all (NewTracker 2 2) [(True, 7), (False, 0), (False, 0), (True, 5)]) = Down"
proof -
  let ?h = "[(True, 7), (False, 0), (False, 0), (True, 5 :: int)]"
  have "went_down 2 2 ?h"
    unfolding went_down_def by (rule bexI [of _ 3]) (auto simp: run_of_def numeral_eq_Suc le_Suc_eq)
  then have "state_after 2 2 ?h = Down" by (simp add: state_after_def)
  with tracker_hysteresis [of 2 2 ?h] show ?thesis by simp
qed

end
