(* ===== verification/Go_Strings.thy ===== *)
theory Go_Strings
  imports Prelude "HOL-Library.Char_ord" "HOL-Library.List_Lexorder" "HOL-Library.Sublist"
begin

text \<open>
  The parts of Go's \<open>strings\<close>, \<open>strconv\<close> and \<open>bufio\<close> the program calls, on byte strings
  (\<open>string\<close> is a list of bytes). \<open>TrimSpace\<close>, \<open>Fields\<close> and \<open>ToLower\<close> are their ASCII cases: the
  configuration formats the program reads are ASCII. The order \<open><\<close> on strings is
  \<open>strings.Compare\<close>, the lexicographic order of the bytes.
\<close>

section \<open>Package strings\<close>

fun index_byte :: "char \<Rightarrow> string \<Rightarrow> nat option" where
  "index_byte c [] = None"
| "index_byte c (x # xs) = (if x = c then Some 0 else map_option Suc (index_byte c xs))"

definition is_space :: "char \<Rightarrow> bool" where
  "is_space c \<longleftrightarrow> c = CHR '' '' \<or> (9 \<le> (of_char c :: nat) \<and> (of_char c :: nat) \<le> 13)"

definition trim_left :: "string \<Rightarrow> string" where
  "trim_left s = dropWhile is_space s"

definition trim_space :: "string \<Rightarrow> string" where
  "trim_space s = rev (trim_left (rev (trim_left s)))"

text \<open>\<open>cut c s\<close> is \<open>strings.Cut\<close> with a one-byte separator; \<open>None\<close> is \<open>found = false\<close>.\<close>

fun cut :: "char \<Rightarrow> string \<Rightarrow> (string \<times> string) option" where
  "cut c [] = None"
| "cut c (x # xs) =
     (if x = c then Some ([], xs) else map_option (\<lambda>(a, b). (x # a, b)) (cut c xs))"

text \<open>\<open>cut_last\<close> splits at the last occurrence (\<open>LastIndexByte\<close>).\<close>

definition cut_last :: "char \<Rightarrow> string \<Rightarrow> (string \<times> string) option" where
  "cut_last c s = map_option (\<lambda>(a, b). (rev b, rev a)) (cut c (rev s))"

fun split_on :: "char \<Rightarrow> string \<Rightarrow> string list" where
  "split_on c [] = [[]]"
| "split_on c (x # xs) =
     (if x = c then [] # split_on c xs
      else (case split_on c xs of [] \<Rightarrow> [[x]] | p # ps \<Rightarrow> (x # p) # ps))"

fun join :: "string \<Rightarrow> string list \<Rightarrow> string" where
  "join sep [] = []"
| "join sep [p] = p"
| "join sep (p # q # ps) = p @ sep @ join sep (q # ps)"

definition lower_char :: "char \<Rightarrow> char" where
  "lower_char c =
     (if 65 \<le> (of_char c :: nat) \<and> (of_char c :: nat) \<le> 90
      then char_of ((of_char c :: nat) + 32) else c)"

definition to_lower :: "string \<Rightarrow> string" where
  "to_lower s = map lower_char s"

definition has_prefix :: "string \<Rightarrow> string \<Rightarrow> bool" where
  "has_prefix s p \<longleftrightarrow> take (length p) s = p"

definition has_suffix :: "string \<Rightarrow> string \<Rightarrow> bool" where
  "has_suffix s p \<longleftrightarrow> has_prefix (rev s) (rev p)"

definition trim_prefix :: "string \<Rightarrow> string \<Rightarrow> string" where
  "trim_prefix s p = (if has_prefix s p then drop (length p) s else s)"

definition contains_byte :: "string \<Rightarrow> char \<Rightarrow> bool" where
  "contains_byte s c \<longleftrightarrow> c \<in> set s"

function str_fields :: "string \<Rightarrow> string list" where
  "str_fields s =
     (let t = trim_left s in
      if t = [] then []
      else takeWhile (\<lambda>c. \<not> is_space c) t # str_fields (dropWhile (\<lambda>c. \<not> is_space c) t))"
  by pat_completeness auto
termination
proof (relation "measure length")
  show "wf (measure length)" by simp
next
  fix s t :: string
  assume t: "t = trim_left s" and ne: "\<not> t = []"
  from ne obtain x xs where x: "t = x # xs" by (cases t) auto
  have "\<not> is_space x"
    using hd_dropWhile [of is_space s] t ne x unfolding trim_left_def by (metis list.sel(1))
  then have "length (dropWhile (\<lambda>c. \<not> is_space c) t) \<le> length xs"
    using x by (simp add: length_dropWhile_le)
  moreover have "length t \<le> length s" by (simp add: t trim_left_def length_dropWhile_le)
  ultimately show "(dropWhile (\<lambda>c. \<not> is_space c) t, s) \<in> measure length" using x by simp
qed

declare str_fields.simps [simp del]

section \<open>Package bufio: Scanner with ScanLines\<close>

text \<open>
  A \<open>Scanner\<close> over a reader that never fails yields the lines without their end marker
  (a final \<open>\n\<close> yields no empty line, one trailing \<open>\r\<close> is dropped) and stops, with
  \<open>ErrTooLong\<close>, at the first line that does not fit its 65536-byte buffer together with its
  newline. \<open>scan_lines\<close> gives the lines and whether the scan ended in that error.
\<close>

definition max_token :: nat where "max_token = 65536"

definition drop_cr :: "string \<Rightarrow> string" where
  "drop_cr s = (if s \<noteq> [] \<and> last s = CHR 0x0D then butlast s else s)"

definition raw_lines :: "string \<Rightarrow> string list" where
  "raw_lines s =
     (let ls = split_on (CHR 0x0A) s in if last ls = [] then butlast ls else ls)"

definition scan_lines :: "string \<Rightarrow> string list \<times> bool" where
  "scan_lines s =
     (map drop_cr (takeWhile (\<lambda>l. length l < max_token) (raw_lines s)),
      \<exists>l \<in> set (raw_lines s). \<not> length l < max_token)"

section \<open>Package strconv\<close>

datatype num_error = ErrSyntax | ErrRange

definition is_digit :: "char \<Rightarrow> bool" where
  "is_digit c \<longleftrightarrow> 48 \<le> (of_char c :: nat) \<and> (of_char c :: nat) \<le> 57"

definition digit_val :: "char \<Rightarrow> nat" where
  "digit_val c = of_char c - 48"

definition digit_char :: "nat \<Rightarrow> char" where
  "digit_char d = char_of (48 + d)"

fun uint_loop :: "nat \<Rightarrow> nat \<Rightarrow> string \<Rightarrow> num_error + nat" where
  "uint_loop mx n [] = Inr n"
| "uint_loop mx n (c # cs) =
     (if \<not> is_digit c then Inl ErrSyntax
      else let n' = 10 * n + digit_val c
           in if n' > mx then Inl ErrRange else uint_loop mx n' cs)"

text \<open>\<open>ParseUint(s, 10, bits)\<close> and \<open>Atoi\<close> (a 64-bit \<open>int\<close>).\<close>

definition parse_uint :: "nat \<Rightarrow> string \<Rightarrow> num_error + nat" where
  "parse_uint bits s = (if s = [] then Inl ErrSyntax else uint_loop (2 ^ bits - 1) 0 s)"

definition atoi :: "string \<Rightarrow> num_error + int" where
  "atoi s =
     (case s of
        [] \<Rightarrow> Inl ErrSyntax
      | c # cs \<Rightarrow>
          let neg = (c = CHR ''-'');
              t = (if c = CHR ''+'' \<or> c = CHR ''-'' then cs else s)
          in case parse_uint 64 t of
               Inl e \<Rightarrow> Inl e
             | Inr un \<Rightarrow>
                 if \<not> neg \<and> un \<ge> 2 ^ 63 then Inl ErrRange
                 else if neg \<and> un > 2 ^ 63 then Inl ErrRange
                 else Inr (if neg then - int un else int un))"

fun show_nat :: "nat \<Rightarrow> string" where
  "show_nat n = (if n < 10 then [digit_char n] else show_nat (n div 10) @ [digit_char (n mod 10)])"

declare show_nat.simps [simp del]

definition show_int :: "int \<Rightarrow> string" where
  "show_int i = (if i < 0 then CHR ''-'' # show_nat (nat (- i)) else show_nat (nat i))"

section \<open>Numbers round-trip\<close>

lemma of_char_digit: "d < 10 \<Longrightarrow> (of_char (digit_char d) :: nat) = 48 + d"
  by (simp add: digit_char_def)

lemma is_digit_digit_char [simp]: "d < 10 \<Longrightarrow> is_digit (digit_char d)"
  by (simp add: is_digit_def of_char_digit)

lemma digit_val_digit_char [simp]: "d < 10 \<Longrightarrow> digit_val (digit_char d) = d"
  by (simp add: digit_val_def of_char_digit)

lemma uint_loop_append:
  "uint_loop mx n (s @ t) = (case uint_loop mx n s of Inl e \<Rightarrow> Inl e | Inr m \<Rightarrow> uint_loop mx m t)"
  by (induction mx n s rule: uint_loop.induct) (auto simp: Let_def)

lemma show_nat_digits: "c \<in> set (show_nat n) \<Longrightarrow> is_digit c"
proof (induction n rule: show_nat.induct)
  case (1 n)
  then show ?case by (auto simp: show_nat.simps [of n] split: if_splits)
qed

lemma show_nat_nonempty [simp]: "show_nat n \<noteq> []"
  by (subst show_nat.simps) simp

lemma uint_loop_show_nat: "n \<le> mx \<Longrightarrow> uint_loop mx 0 (show_nat n) = Inr n"
proof (induction n rule: show_nat.induct)
  case (1 n)
  show ?case
  proof (cases "n < 10")
    case True
    with "1.prems" show ?thesis by (simp add: show_nat.simps [of n])
  next
    case False
    with 1 have "uint_loop mx 0 (show_nat (n div 10)) = Inr (n div 10)" by simp
    with False "1.prems" show ?thesis
      by (simp add: show_nat.simps [of n] uint_loop_append)
  qed
qed

lemma parse_uint_show_nat [codec]: "n < 2 ^ bits \<Longrightarrow> parse_uint bits (show_nat n) = Inr n"
proof -
  assume "n < 2 ^ bits"
  then have "n \<le> 2 ^ bits - 1" by (simp add: Suc_le_eq [symmetric])
  then show ?thesis by (simp add: parse_uint_def uint_loop_show_nat)
qed

lemma uint_loop_bound: "uint_loop mx n s = Inr m \<Longrightarrow> n \<le> mx \<Longrightarrow> m \<le> mx"
  by (induction mx n s rule: uint_loop.induct) (auto simp: Let_def split: if_splits)

lemma parse_uint_bound: "parse_uint bits s = Inr n \<Longrightarrow> n < 2 ^ bits"
proof -
  assume "parse_uint bits s = Inr n"
  then have "n \<le> 2 ^ bits - 1" by (auto simp: parse_uint_def split: if_splits dest: uint_loop_bound)
  then show ?thesis by (simp add: Suc_le_eq [symmetric] le_diff_conv2)
qed

lemma not_sign_digit: "is_digit c \<Longrightarrow> c \<noteq> CHR ''+'' \<and> c \<noteq> CHR ''-''"
  by (auto simp: is_digit_def)

lemma atoi_show_int [codec]:
  assumes "- (2 ^ 63) \<le> i" and "i < 2 ^ 63"
  shows "atoi (show_int i) = Inr i"
proof (cases "i < 0")
  case True
  with assms have "nat (- i) < 2 ^ 64" by simp
  then have "parse_uint 64 (show_nat (nat (- i))) = Inr (nat (- i))" by (rule parse_uint_show_nat)
  with True assms show ?thesis by (simp add: show_int_def atoi_def Let_def)
next
  case False
  obtain c cs where c: "show_nat (nat i) = c # cs" by (cases "show_nat (nat i)") auto
  have "is_digit c" using show_nat_digits [of c "nat i"] c by simp
  moreover from assms False have "nat i < 2 ^ 64" by simp
  then have "parse_uint 64 (show_nat (nat i)) = Inr (nat i)" by (rule parse_uint_show_nat)
  moreover have "nat i < 2 ^ 63" using assms False by simp
  ultimately show ?thesis using False c not_sign_digit [of c]
    by (simp add: show_int_def atoi_def Let_def)
qed

section \<open>Splitting\<close>

lemma cut_append:
  "c \<notin> set a \<Longrightarrow> cut c (a @ c # b) = Some (a, b)"
  by (induction a) auto

lemma cut_None_iff: "cut c s = None \<longleftrightarrow> c \<notin> set s"
  by (induction s) (auto split: option.splits)

lemma cut_last_append: "c \<notin> set b \<Longrightarrow> cut_last c (a @ c # b) = Some (a, b)"
  using cut_append [of c "rev b" "rev a"] by (simp add: cut_last_def)

end
