(* ===== verification/Netip.thy ===== *)
theory Netip
  imports Go_Strings
begin

unbundle bit_operations_syntax

text \<open>
  The values and functions of Go's \<open>net/netip\<close> (and \<open>net.SplitHostPort\<close>) the program uses.
  An address is the zero \<open>Addr\<close>, an IPv4 address or an IPv6 address with its zone; a prefix
  keeps the address as given (host bits included) and its length, \<open>-1\<close> for an invalid one. A failed
  parse is \<open>None\<close>: no caller looks at the error's text.
\<close>

datatype addr = NoAddr | V4 u32 | V6 "128 word" string

datatype prefix = Prefix (paddr: addr) (pbits: int)

datatype addr_port = AddrPort (ap_addr: addr) (ap_port: u16)

section \<open>Addresses\<close>

fun is4 :: "addr \<Rightarrow> bool" where
  "is4 (V4 _) = True" | "is4 _ = False"

fun is6 :: "addr \<Rightarrow> bool" where
  "is6 (V6 _ _) = True" | "is6 _ = False"

fun is4in6 :: "addr \<Rightarrow> bool" where
  "is4in6 (V6 w _) = (drop_bit 32 w = 0xffff)" | "is4in6 _ = False"

fun unmap :: "addr \<Rightarrow> addr" where
  "unmap (V6 w z) = (if is4in6 (V6 w z) then V4 (ucast w) else V6 w z)"
| "unmap a = a"

fun bit_len :: "addr \<Rightarrow> int" where
  "bit_len NoAddr = 0" | "bit_len (V4 _) = 32" | "bit_len (V6 _ _) = 128"

fun zone_of :: "addr \<Rightarrow> string" where
  "zone_of (V6 _ z) = z" | "zone_of _ = []"

fun without_zone :: "addr \<Rightarrow> addr" where
  "without_zone (V6 w _) = V6 w []" | "without_zone a = a"

fun is_unspecified :: "addr \<Rightarrow> bool" where
  "is_unspecified (V4 w) = (w = 0)"
| "is_unspecified (V6 w z) = (w = 0 \<and> z = [])"
| "is_unspecified NoAddr = False"

text \<open>\<open>Next\<close>: the zero address after the last one of the family.\<close>

fun next_addr :: "addr \<Rightarrow> addr" where
  "next_addr NoAddr = NoAddr"
| "next_addr (V4 w) = (if w + 1 = 0 then NoAddr else V4 (w + 1))"
| "next_addr (V6 w z) = (if w + 1 = 0 then NoAddr else V6 (w + 1) z)"

section \<open>Prefixes\<close>

definition prefix_from :: "addr \<Rightarrow> int \<Rightarrow> prefix" where
  "prefix_from a b =
     Prefix (without_zone a) (if a \<noteq> NoAddr \<and> 0 \<le> b \<and> b \<le> bit_len a then b else - 1)"

definition valid_prefix :: "prefix \<Rightarrow> bool" where
  "valid_prefix p \<longleftrightarrow> pbits p \<ge> 0"

fun addr_mask :: "addr \<Rightarrow> nat \<Rightarrow> addr" where
  "addr_mask (V4 w) b = V4 (w AND NOT (mask (32 - b)))"
| "addr_mask (V6 w z) b = V6 (w AND NOT (mask (128 - b))) z"
| "addr_mask NoAddr b = NoAddr"

definition masked :: "prefix \<Rightarrow> prefix" where
  "masked p =
     (if pbits p < 0 \<or> paddr p = NoAddr \<or> pbits p > bit_len (paddr p) then Prefix NoAddr (- 1)
      else prefix_from (addr_mask (paddr p) (nat (pbits p))) (pbits p))"

fun contains_addr :: "addr \<Rightarrow> nat \<Rightarrow> addr \<Rightarrow> bool" where
  "contains_addr (V4 n) b (V4 a) = (drop_bit (32 - b) (a XOR n) = 0)"
| "contains_addr (V6 n _) b (V6 a _) = (drop_bit (128 - b) (a XOR n) = 0)"
| "contains_addr _ _ _ = False"

definition contains :: "prefix \<Rightarrow> addr \<Rightarrow> bool" where
  "contains p a \<longleftrightarrow>
     valid_prefix p \<and> zone_of a = [] \<and> contains_addr (paddr p) (nat (pbits p)) a"

section \<open>Parsing\<close>

text \<open>\<open>parseIPv4Fields\<close>: the previous byte, the value and digit count of the octet being read and the
  octets read so far are the loop's variables.\<close>

fun v4_fields :: "char option \<Rightarrow> nat \<Rightarrow> nat \<Rightarrow> nat list \<Rightarrow> string \<Rightarrow> nat list option" where
  "v4_fields prev val digLen fs [] = (if length fs < 3 then None else Some (fs @ [val]))"
| "v4_fields prev val digLen fs (c # cs) =
     (if is_digit c then
        (if digLen = 1 \<and> val = 0 then None
         else let v = val * 10 + digit_val c
              in if v > 255 then None else v4_fields (Some c) v (Suc digLen) fs cs)
      else if c = CHR ''.'' then
        (if prev = None \<or> cs = [] \<or> prev = Some (CHR ''.'') then None
         else if length fs = 3 then None
         else v4_fields (Some c) 0 0 (fs @ [val]) cs)
      else None)"

definition octets_value :: "nat list \<Rightarrow> nat" where
  "octets_value = foldl (\<lambda>n o'. n * 256 + o') 0"

definition parse_ipv4 :: "string \<Rightarrow> addr option" where
  "parse_ipv4 s = map_option (\<lambda>fs. V4 (of_nat (octets_value fs))) (v4_fields None 0 0 [] s)"

definition hex_digit :: "char \<Rightarrow> nat option" where
  "hex_digit c = index_byte (lower_char c) ''0123456789abcdef''"

definition is_hex :: "char \<Rightarrow> bool" where
  "is_hex c \<longleftrightarrow> hex_digit c \<noteq> None"

definition hex_value :: "string \<Rightarrow> nat" where
  "hex_value = foldl (\<lambda>n c. n * 16 + (case hex_digit c of None \<Rightarrow> 0 | Some d \<Rightarrow> d)) 0"

text \<open>
  The group loop of \<open>parseIPv6\<close>: the 16-bit groups read so far, the group index of the \<open>::\<close> and the
  rest of the string. Each turn consumes at least one byte; at most eight groups are read.
\<close>

fun v6_loop :: "nat \<Rightarrow> nat list \<Rightarrow> nat option \<Rightarrow> string \<Rightarrow> (nat list \<times> nat option \<times> string) option" where
  "v6_loop 0 gs ell s = Some (gs, ell, s)"
| "v6_loop (Suc n) gs ell s =
     (let ds = takeWhile is_hex s; rest = dropWhile is_hex s; gs' = gs @ [hex_value ds]
      in if ds = [] \<or> length ds > 4 then None
         else case rest of
           [] \<Rightarrow> Some (gs', ell, [])
         | c # s1 \<Rightarrow>
             if c = CHR ''.'' then
               (if ell = None \<and> length gs \<noteq> 6 then None
                else if length gs + 2 > 8 then None
                else case v4_fields None 0 0 [] s of
                       Some [a, b, c', d] \<Rightarrow> Some (gs @ [a * 256 + b, c' * 256 + d], ell, [])
                     | _ \<Rightarrow> None)
             else if c \<noteq> CHR '':'' then None
             else case s1 of
                    [] \<Rightarrow> None
                  | c2 # s2 \<Rightarrow>
                      if c2 = CHR '':'' then
                        (if ell \<noteq> None then None
                         else if s2 = [] then Some (gs', Some (length gs'), [])
                         else v6_loop n gs' (Some (length gs')) s2)
                      else v6_loop n gs' ell s1)"

definition v6_expand :: "nat list \<Rightarrow> nat option \<Rightarrow> nat list option" where
  "v6_expand gs ell =
     (if length gs < 8 then
        (case ell of None \<Rightarrow> None
         | Some e \<Rightarrow> Some (take e gs @ replicate (8 - length gs) 0 @ drop e gs))
      else if ell \<noteq> None then None else Some gs)"

definition groups_value :: "nat list \<Rightarrow> nat" where
  "groups_value = foldl (\<lambda>n g. n * 65536 + g) 0"

definition parse_ipv6 :: "string \<Rightarrow> addr option" where
  "parse_ipv6 inp =
     (let (s, zone, bad) = (case cut (CHR 0x25) inp of
             None \<Rightarrow> (inp, [], False)
           | Some (a, z) \<Rightarrow> (a, z, z = []))
      in if bad then None
         else let lead = has_prefix s ''::''; s1 = (if lead then drop 2 s else s)
              in if lead \<and> s1 = [] then Some (V6 0 zone)
                 else case v6_loop 8 [] (if lead then Some 0 else None) s1 of
                        None \<Rightarrow> None
                      | Some (gs, ell, rest) \<Rightarrow>
                          if rest \<noteq> [] then None
                          else map_option (\<lambda>g. V6 (of_nat (groups_value g)) zone) (v6_expand gs ell))"

fun parse_addr_scan :: "string \<Rightarrow> string \<Rightarrow> addr option" where
  "parse_addr_scan s [] = None"
| "parse_addr_scan s (c # cs) =
     (if c = CHR ''.'' then parse_ipv4 s
      else if c = CHR '':'' then parse_ipv6 s
      else if c = CHR 0x25 then None
      else parse_addr_scan s cs)"

definition parse_addr :: "string \<Rightarrow> addr option" where
  "parse_addr s = parse_addr_scan s s"

definition parse_prefix :: "string \<Rightarrow> prefix option" where
  "parse_prefix s =
     (case cut_last (CHR ''/'') s of
        None \<Rightarrow> None
      | Some (a, bitsStr) \<Rightarrow>
          (case parse_addr a of
             None \<Rightarrow> None
           | Some ip \<Rightarrow>
               if is6 ip \<and> zone_of ip \<noteq> [] then None
               else if length bitsStr > 1 \<and> \<not> (is_digit (hd bitsStr) \<and> hd bitsStr \<noteq> CHR ''0'') then None
               else (case atoi bitsStr of
                       Inl e \<Rightarrow> None
                     | Inr bits \<Rightarrow>
                         if bits < 0 \<or> bits > (if is6 ip then 128 else 32) then None
                         else Some (prefix_from ip bits))))"

definition parse_addr_port :: "string \<Rightarrow> addr_port option" where
  "parse_addr_port s =
     (case cut_last (CHR '':'') s of
        None \<Rightarrow> None
      | Some (ip, port) \<Rightarrow>
          if ip = [] \<or> port = [] then None
          else let v6 = (hd ip = CHR ''['')
               in if v6 \<and> (length ip < 2 \<or> last ip \<noteq> CHR '']'') then None
                  else let ip' = (if v6 then butlast (tl ip) else ip)
                       in case parse_uint 16 port of
                            Inl e \<Rightarrow> None
                          | Inr n \<Rightarrow>
                              (case parse_addr ip' of
                                 None \<Rightarrow> None
                               | Some a \<Rightarrow>
                                   if v6 \<and> is4 a then None
                                   else if \<not> v6 \<and> is6 a then None
                                   else Some (AddrPort a (of_nat n))))"

text \<open>\<open>net.SplitHostPort\<close>.\<close>

definition split_host_port :: "string \<Rightarrow> (string \<times> string) option" where
  "split_host_port hp =
     (case cut_last (CHR '':'') hp of
        None \<Rightarrow> None
      | Some (front, port) \<Rightarrow>
          if hd hp = CHR ''['' then
            (case index_byte (CHR '']'') hp of
               None \<Rightarrow> None
             | Some e \<Rightarrow>
                 if Suc e = length front \<and> \<not> contains_byte (drop 1 hp) (CHR ''['')
                    \<and> \<not> contains_byte (drop (Suc e) hp) (CHR '']'')
                 then Some (take (e - 1) (drop 1 hp), port) else None)
          else if contains_byte front (CHR '':'') \<or> contains_byte hp (CHR ''['') \<or>
                  contains_byte hp (CHR '']'') then None
          else Some (front, port))"

section \<open>Rendering\<close>

definition octets :: "u32 \<Rightarrow> nat list" where
  "octets w = [unat w div 16777216, unat w div 65536 mod 256, unat w div 256 mod 256, unat w mod 256]"

definition show_v4 :: "u32 \<Rightarrow> string" where
  "show_v4 w = join ''.'' (map show_nat (octets w))"

definition groups :: "128 word \<Rightarrow> nat list" where
  "groups w = map (\<lambda>i. unat w div 65536 ^ (7 - i) mod 65536) [0..<8]"

fun show_hex :: "nat \<Rightarrow> string" where
  "show_hex n =
     (let c = ''0123456789abcdef'' ! (n mod 16) in if n < 16 then [c] else show_hex (n div 16) @ [c])"

declare show_hex.simps [simp del]

definition zero_run :: "nat list \<Rightarrow> nat \<times> nat" where
  "zero_run gs =
     foldl (\<lambda>(zs, ze) i.
        let l = length (takeWhile (\<lambda>g. g = 0) (drop i gs))
        in if l \<ge> 2 \<and> l > ze - zs then (i, i + l) else (zs, ze)) (255, 255) [0..<8]"

fun colon_hex :: "nat list \<Rightarrow> string" where
  "colon_hex gs = join '':'' (map show_hex gs)"

definition show_v6 :: "128 word \<Rightarrow> string" where
  "show_v6 w =
     (let gs = groups w; (zs, ze) = zero_run gs
      in if zs \<ge> 8 then colon_hex gs else colon_hex (take zs gs) @ ''::'' @ colon_hex (drop ze gs))"

definition zone_suffix :: "string \<Rightarrow> string" where
  "zone_suffix z = (if z = [] then [] else CHR 0x25 # z)"

fun show_addr :: "addr \<Rightarrow> string" where
  "show_addr NoAddr = ''invalid IP''"
| "show_addr (V4 w) = show_v4 w"
| "show_addr (V6 w z) =
     (if is4in6 (V6 w z) then ''::ffff:'' @ show_v4 (ucast w) else show_v6 w) @ zone_suffix z"

definition show_prefix :: "prefix \<Rightarrow> string" where
  "show_prefix p =
     (if valid_prefix p then show_addr (paddr p) @ ''/'' @ show_int (pbits p) else ''invalid Prefix'')"

fun show_addr_port :: "addr_port \<Rightarrow> string" where
  "show_addr_port (AddrPort NoAddr p) = ''invalid AddrPort''"
| "show_addr_port (AddrPort (V4 w) p) = show_v4 w @ '':'' @ show_nat (unat p)"
| "show_addr_port (AddrPort (V6 w z) p) =
     ''['' @ show_addr (V6 w z) @ '']:'' @ show_nat (unat p)"

section \<open>IPv4 text round-trips\<close>

lemma v4_fields_show_nat:
  "n < 256 \<Longrightarrow> \<exists>c k. is_digit c \<and> 0 < k \<and> (n \<noteq> 0 \<or> k = 1) \<and>
     (\<forall>rest. v4_fields prev 0 0 fs (show_nat n @ rest) = v4_fields (Some c) n k fs rest)"
proof (induction n rule: show_nat.induct)
  case (1 n)
  show ?case
  proof (cases "n < 10")
    case True
    then show ?thesis
      by (intro exI [of _ "digit_char n"] exI [of _ 1]) (simp add: show_nat.simps [of n])
  next
    case False
    have "n div 10 < 256" using "1.prems" by simp
    with False "1.IH" obtain c k where
      ih: "\<And>rest. v4_fields prev 0 0 fs (show_nat (n div 10) @ rest) =
                 v4_fields (Some c) (n div 10) k fs rest"
      by blast
    have nz: "n div 10 \<noteq> 0" using False by simp
    have "v4_fields prev 0 0 fs (show_nat n @ rest) =
        v4_fields (Some (digit_char (n mod 10))) n (Suc k) fs rest" for rest
      using False "1.prems" nz by (simp add: show_nat.simps [of n] ih)
    then show ?thesis
      using False by (intro exI [of _ "digit_char (n mod 10)"] exI [of _ "Suc k"]) simp
  qed
qed

lemma v4_fields_octet_dot:
  assumes "n < 256" and "length fs < 3" and "rest \<noteq> []"
  shows "v4_fields prev 0 0 fs (show_nat n @ CHR ''.'' # rest) =
           v4_fields (Some (CHR ''.'')) 0 0 (fs @ [n]) rest"
proof -
  obtain c k where c: "is_digit c"
    and v: "\<And>r. v4_fields prev 0 0 fs (show_nat n @ r) = v4_fields (Some c) n k fs r"
    using v4_fields_show_nat [OF assms(1)] by blast
  have "\<not> is_digit (CHR ''.'')" by (simp add: is_digit_def)
  moreover have "c \<noteq> CHR ''.''" using c by (auto simp: is_digit_def)
  ultimately show ?thesis using assms by (simp add: v)
qed

lemma v4_fields_octet_end:
  assumes "n < 256" and "length fs = 3"
  shows "v4_fields prev 0 0 fs (show_nat n) = Some (fs @ [n])"
proof -
  obtain c k where "\<And>r. v4_fields prev 0 0 fs (show_nat n @ r) = v4_fields (Some c) n k fs r"
    using v4_fields_show_nat [OF assms(1)] by blast
  from this [of "[]"] assms(2) show ?thesis by simp
qed

lemma octets_lt: "d \<in> set (octets w) \<Longrightarrow> d < 256"
proof -
  have "unat w div 16777216 < 256" using unat_u32 [of w] by (simp add: less_mult_imp_div_less)
  then show "d \<in> set (octets w) \<Longrightarrow> d < 256" unfolding octets_def by auto
qed

lemma octets_value_octets: "octets_value (octets w) = unat w"
proof -
  have "n div 256 * 256 + n mod 256 = n"
    "n div 65536 * 256 + n div 256 mod 256 = n div 256"
    "n div 16777216 * 256 + n div 65536 mod 256 = n div 65536" for n :: nat
    using div_mult_mod_eq [of "n div 256" 256] div_mult_mod_eq [of "n div 65536" 256]
    by (simp_all add: div_mult2_eq [symmetric])
  then show ?thesis by (simp add: octets_value_def octets_def)
qed

lemma show_v4_unfold:
  "octets w = [a, b, c, d] \<Longrightarrow>
   show_v4 w = show_nat a @ CHR ''.'' # show_nat b @ CHR ''.'' # show_nat c @ CHR ''.'' # show_nat d"
  by (simp add: show_v4_def)

lemma parse_ipv4_show [codec]: "parse_ipv4 (show_v4 w) = Some (V4 w)"
proof -
  obtain a b c d where o: "octets w = [a, b, c, d]" by (simp add: octets_def)
  have "a < 256" "b < 256" "c < 256" "d < 256"
    using octets_lt [of _ w] o by auto
  then have "v4_fields None 0 0 [] (show_v4 w) = Some [a, b, c, d]"
    by (simp add: show_v4_unfold [OF o] v4_fields_octet_dot v4_fields_octet_end)
  then show ?thesis
    using octets_value_octets [of w] o by (simp add: parse_ipv4_def)
qed

definition v4_text :: "char \<Rightarrow> bool" where
  "v4_text c \<longleftrightarrow> is_digit c \<or> c = CHR ''.''"

lemma show_v4_text: "c \<in> set (show_v4 w) \<Longrightarrow> v4_text c"
proof -
  obtain a b e d where o: "octets w = [a, b, e, d]" by (simp add: octets_def)
  show "c \<in> set (show_v4 w) \<Longrightarrow> v4_text c"
    by (auto simp: show_v4_unfold [OF o] v4_text_def dest: show_nat_digits)
qed

lemma parse_addr_scan_digits:
  "\<forall>c \<in> set ds. is_digit c \<Longrightarrow> parse_addr_scan s (ds @ CHR ''.'' # rest) = parse_ipv4 s"
proof (induction ds)
  case (Cons c ds)
  then have "c \<noteq> CHR ''.''" "c \<noteq> CHR '':''" "c \<noteq> CHR 0x25" by (auto simp: is_digit_def)
  with Cons show ?case by simp
qed simp

lemma parse_addr_show_v4 [codec]: "parse_addr (show_v4 w) = Some (V4 w)"
proof -
  obtain a b c d where o: "octets w = [a, b, c, d]" by (simp add: octets_def)
  have "parse_addr_scan (show_v4 w) (show_v4 w) = parse_ipv4 (show_v4 w)"
    by (subst (2) show_v4_unfold [OF o]) (rule parse_addr_scan_digits, blast intro: show_nat_digits)
  then show ?thesis by (simp add: parse_addr_def parse_ipv4_show)
qed

lemma show_nat_no_leading_zero: "0 < n \<Longrightarrow> hd (show_nat n) \<noteq> CHR ''0''"
proof (induction n rule: show_nat.induct)
  case (1 n)
  show ?case
  proof (cases "n < 10")
    case True
    have "(of_char (digit_char n) :: nat) = 48 + n" using True by (rule of_char_digit)
    with "1.prems" show ?thesis using True by (auto simp: show_nat.simps [of n])
  next
    case False
    with 1 show ?thesis by (simp add: show_nat.simps [of n] hd_append)
  qed
qed

lemma show_nat_length_1: "length (show_nat n) > 1 \<Longrightarrow> 0 < n"
  by (subst (asm) show_nat.simps) (auto split: if_splits)

lemma show_nat_bits_ok:
  "\<not> (length (show_nat n) > 1 \<and> \<not> (is_digit (hd (show_nat n)) \<and> hd (show_nat n) \<noteq> CHR ''0''))"
  using show_nat_length_1 [of n] show_nat_no_leading_zero [of n] show_nat_digits [of "hd (show_nat n)" n]
  by auto

definition v4_prefix :: "prefix \<Rightarrow> bool" where
  "v4_prefix p \<longleftrightarrow> is4 (paddr p) \<and> 0 \<le> pbits p \<and> pbits p \<le> 32"

lemma parse_prefix_show [codec]:
  assumes "v4_prefix p"
  shows "parse_prefix (show_prefix p) = Some p"
proof -
  from assms obtain w b where p: "p = Prefix (V4 w) b" and b: "0 \<le> b" "b \<le> 32"
    by (cases p; cases "paddr p") (auto simp: v4_prefix_def)
  have sh: "show_int b = show_nat (nat b)" using b by (simp add: show_int_def)
  have "CHR ''/'' \<notin> set (show_nat (nat b))"
    by (auto dest!: show_nat_digits simp: is_digit_def)
  then have "cut_last (CHR ''/'') (show_prefix p) = Some (show_v4 w, show_nat (nat b))"
    using b by (simp add: p show_prefix_def valid_prefix_def sh cut_last_append)
  moreover have "atoi (show_nat (nat b)) = Inr b"
    using atoi_show_int [of b] b sh by simp
  ultimately show ?thesis
    using b show_nat_bits_ok [of "nat b"]
    by (simp add: parse_prefix_def parse_addr_show_v4 p prefix_from_def del: One_nat_def)
qed

definition prefix_text :: "char \<Rightarrow> bool" where
  "prefix_text c \<longleftrightarrow> v4_text c \<or> c = CHR ''/''"

lemma show_prefix_text: "v4_prefix p \<Longrightarrow> c \<in> set (show_prefix p) \<Longrightarrow> prefix_text c"
  by (cases p; cases "paddr p")
    (auto simp: v4_prefix_def show_prefix_def valid_prefix_def prefix_text_def show_int_def v4_text_def
       dest!: show_v4_text show_nat_digits)

section \<open>IPv4 prefixes as arithmetic\<close>

lemma contains_v4:
  "contains_addr (V4 n) b (V4 a) \<longleftrightarrow> unat a div 2 ^ (32 - b) = unat n div 2 ^ (32 - b)"
proof -
  have "drop_bit (32 - b) (a XOR n) = 0 \<longleftrightarrow> drop_bit (32 - b) a = drop_bit (32 - b) n"
    by (auto simp: drop_bit_xor bit_eq_iff bit_simps)
  also have "\<dots> \<longleftrightarrow> unat (drop_bit (32 - b) a) = unat (drop_bit (32 - b) n)"
    by (rule word_unat_eq_iff)
  also have "\<dots> \<longleftrightarrow> unat a div 2 ^ (32 - b) = unat n div 2 ^ (32 - b)"
    by (simp only: unat_drop_bit_eq, simp only: drop_bit_eq_div)
  finally show ?thesis by simp
qed

text \<open>Host and port.\<close>

lemma show_nat_no_colon: "CHR '':'' \<notin> set (show_nat n)"
  by (auto dest!: show_nat_digits simp: is_digit_def)

lemma parse_addr_port_show_v4 [codec]:
  "n < 65536 \<Longrightarrow> parse_addr_port (show_v4 w @ CHR '':'' # show_nat n) = Some (AddrPort (V4 w) (of_nat n))"
proof -
  assume n: "n < 65536"
  have ne: "show_v4 w \<noteq> []" by (simp add: show_v4_def octets_def)
  then have h: "hd (show_v4 w) \<noteq> CHR ''[''"
    using show_v4_text [of "hd (show_v4 w)" w] by (auto simp: v4_text_def is_digit_def)
  have "parse_uint 16 (show_nat n) = Inr n" using n by (intro parse_uint_show_nat) simp
  then show ?thesis
    using ne h by (simp add: parse_addr_port_def cut_last_append show_nat_no_colon Let_def parse_addr_show_v4)
qed

lemma split_host_port_append [codec]:
  assumes "\<forall>c \<in> set host. c \<noteq> CHR '':'' \<and> c \<noteq> CHR ''['' \<and> c \<noteq> CHR '']''"
    and "\<forall>c \<in> set port. c \<noteq> CHR '':'' \<and> c \<noteq> CHR ''['' \<and> c \<noteq> CHR '']''"
  shows "split_host_port (host @ CHR '':'' # port) = Some (host, port)"
proof -
  have c: "cut_last (CHR '':'') (host @ CHR '':'' # port) = Some (host, port)"
    using assms(2) by (intro cut_last_append) blast
  have h: "hd (host @ CHR '':'' # port) \<noteq> CHR ''[''"
    using assms(1) by (cases host) auto
  show ?thesis
    unfolding split_host_port_def c using h assms by (auto simp: contains_byte_def)
qed

end
