(* ===== verification/Go_Time.thy ===== *)
theory Go_Time
  imports Go_Strings "HOL-Library.Signed_Division"
begin

text \<open>
  The parts of Go's \<open>time\<close> the program calls. A \<open>Time\<close> is its wall clock: the seconds since year 1 as an
  \<open>int64\<close> that wraps, and the nanoseconds within the second; locations and monotonic readings do not enter
  what the program computes. A \<open>Duration\<close> is an \<open>int64\<close> of nanoseconds.
\<close>

record gotime =
  t_sec :: i64
  t_nsec :: int

definition second :: int where "second = 1000000000"

definition unix_to_internal :: i64 where "unix_to_internal = 62135596800"

definition zero_time :: gotime where "zero_time = \<lparr>t_sec = 0, t_nsec = 0\<rparr>"

definition time_is_zero :: "gotime \<Rightarrow> bool" where
  "time_is_zero t \<longleftrightarrow> t_sec t = 0 \<and> t_nsec t = 0"

text \<open>\<open>Unix\<close> moves whole seconds of \<open>nsec\<close>, rounded down, into \<open>sec\<close>.\<close>

definition time_unix :: "i64 \<Rightarrow> i64 \<Rightarrow> gotime" where
  "time_unix sec nsec =
     \<lparr>t_sec = sec + of_int (sint nsec div second) + unix_to_internal, t_nsec = sint nsec mod second\<rparr>"

definition unix_seconds :: "gotime \<Rightarrow> i64" where
  "unix_seconds t = t_sec t - unix_to_internal"

definition time_before :: "gotime \<Rightarrow> gotime \<Rightarrow> bool" where
  "time_before t u \<longleftrightarrow> t_sec t <s t_sec u \<or> t_sec t = t_sec u \<and> t_nsec t < t_nsec u"

definition time_add :: "gotime \<Rightarrow> i64 \<Rightarrow> gotime" where
  "time_add t d =
     (let q = of_int (sint d sdiv second) :: i64; n = t_nsec t + sint d smod second
      in if second \<le> n then \<lparr>t_sec = t_sec t + q + 1, t_nsec = n - second\<rparr>
         else if n < 0 then \<lparr>t_sec = t_sec t + q - 1, t_nsec = n + second\<rparr>
         else \<lparr>t_sec = t_sec t + q, t_nsec = n\<rparr>)"

definition min_duration :: i64 where "min_duration = of_int (- (2 ^ 63))"
definition max_duration :: i64 where "max_duration = of_int (2 ^ 63 - 1)"

text \<open>\<open>Sub\<close>: the difference if it is representable, else the nearest duration.\<close>

definition time_sub :: "gotime \<Rightarrow> gotime \<Rightarrow> i64" where
  "time_sub t u =
     (let d = (t_sec t - t_sec u) * of_int second + of_int (t_nsec t - t_nsec u)
      in if time_add u d = t then d else if time_before t u then min_duration else max_duration)"

text \<open>A reading of a clock has its nanoseconds within the second.\<close>

definition time_ok :: "gotime \<Rightarrow> bool" where
  "time_ok t \<longleftrightarrow> 0 \<le> t_nsec t \<and> t_nsec t < second"

lemma time_ok_zero [simp]: "time_ok zero_time"
  by (simp add: time_ok_def zero_time_def second_def)

lemma time_ok_unix [simp]: "time_ok (time_unix s n)"
  by (simp add: time_ok_def time_unix_def second_def)

lemma time_is_zero_zero [simp]: "time_is_zero zero_time"
  by (simp add: time_is_zero_def zero_time_def)

section \<open>Package strconv: signed and unsigned integers whose error is ignored\<close>

text \<open>
  The value that \<open>ParseUint\<close> returns beside its error: zero for a syntax error, the largest
  value when the number is out of range. \<open>ParseInt\<close> returns the nearest \<open>int64\<close> then.
\<close>

definition uint_value :: "string \<Rightarrow> u64" where
  "uint_value s =
     (case parse_uint 64 s of Inr n \<Rightarrow> of_nat n | Inl ErrSyntax \<Rightarrow> 0 | Inl ErrRange \<Rightarrow> of_nat (2 ^ 64 - 1))"

definition int_value :: "string \<Rightarrow> i64" where
  "int_value s =
     (case atoi s of Inr i \<Rightarrow> of_int i | Inl ErrSyntax \<Rightarrow> 0
      | Inl ErrRange \<Rightarrow> if has_prefix s ''-'' then of_int (- (2 ^ 63)) else of_int (2 ^ 63 - 1))"

lemma uint_value_show [simp]: "uint_value (show_nat (unat x)) = x" for x :: u64
proof -
  have "unat x < 2 ^ 64" by (rule order_less_le_trans [OF unsigned_less]) simp
  then have "parse_uint 64 (show_nat (unat x)) = Inr (unat x)" by (rule parse_uint_show_nat)
  then show ?thesis by (simp add: uint_value_def)
qed

lemma int_value_show [simp]: "int_value (show_int (sint x)) = x" for x :: i64
proof -
  have "- (2 ^ 63) \<le> sint x" "sint x < 2 ^ 63"
    using sint_ge [of x] sint_lt [of x] by simp_all
  then have "atoi (show_int (sint x)) = Inr (sint x)" by (simp add: atoi_show_int)
  then show ?thesis by (simp add: int_value_def)
qed

end
