(* ===== verification/Config.thy ===== *)
theory Config
  imports Netip Go_Time
begin

text \<open>
  \<open>internal/config/config.go\<close>: the operator's configuration and its validation. \<open>validate\<close> is
  \<open>Config.Validate\<close> with one error constructor per message; \<open>config_valid\<close> is the declarative reading
  the daemon relies on. The YAML decoder is third-party code: \<open>parse_config\<close> and \<open>load_config\<close> take it, and the file
  read, as arguments.
\<close>

record cfg_upstream =
  u_name :: string
  u_conf :: string
  u_geo :: string
  u_provider :: string

record cfg_match =
  m_geo :: string
  m_provider :: string

record profile =
  pr_name :: string
  pr_prefer :: "cfg_match list"

record health_cfg =
  h_interval :: int
  h_probe :: string
  h_downAfter :: int
  h_upAfter :: int

record config =
  cf_listen :: string
  cf_endpoint :: string
  cf_subnet :: prefix
  cf_dns :: "addr list"
  cf_state_dir :: string
  cf_upstreams :: "cfg_upstream list"
  cf_profiles :: "profile list"
  cf_health :: health_cfg
  cf_metrics :: string

datatype config_error =
    ReadFailed
  | YamlError
  | BadListen
  | BadEndpoint
  | EndpointHost
  | EndpointPort
  | SubnetSize
  | SubnetHostBits
  | NoDNS
  | NoStateDir
  | NoUpstreams
  | UpstreamName nat string
  | DuplicateUpstream nat string
  | NoConfPath string
  | NoProfiles
  | ProfileName nat string
  | DuplicateProfile nat string
  | MatchesNothing string nat
  | HealthInterval
  | HealthProbe
  | HealthThresholds
  | MetricsListen
  | MetricsUnspecified

definition default_config :: config where
  "default_config =
     \<lparr>cf_listen = ''0.0.0.0:51820'', cf_endpoint = [],
      cf_subnet = Prefix (V4 0x0A4D0000) 16, cf_dns = [V4 0x01010101],
      cf_state_dir = ''/var/lib/lotsman'', cf_upstreams = [], cf_profiles = [],
      cf_health = \<lparr>h_interval = 15 * second, h_probe = ''1.1.1.1:443'', h_downAfter = 3, h_upAfter = 2\<rparr>,
      cf_metrics = []\<rparr>"

definition matches :: "cfg_match \<Rightarrow> cfg_upstream \<Rightarrow> bool" where
  "matches m u \<longleftrightarrow>
     (m_geo m = [] \<or> m_geo m = u_geo u) \<and> (m_provider m = [] \<or> m_provider m = u_provider u)"

definition interface_name :: "cfg_upstream \<Rightarrow> string" where
  "interface_name u = ''lm-up-'' @ u_name u"

text \<open>The two name patterns \<open>^[a-z0-9][a-z0-9-]{0,n}$\<close>.\<close>

definition lower_alnum :: "char \<Rightarrow> bool" where
  "lower_alnum c \<longleftrightarrow> is_digit c \<or> (97 \<le> (of_char c :: nat) \<and> (of_char c :: nat) \<le> 122)"

definition name_matches :: "nat \<Rightarrow> string \<Rightarrow> bool" where
  "name_matches n s \<longleftrightarrow>
     s \<noteq> [] \<and> lower_alnum (hd s) \<and> length (tl s) \<le> n \<and>
     list_all (\<lambda>c. lower_alnum c \<or> c = CHR ''-'') (tl s)"

definition profileNameRe :: "string \<Rightarrow> bool" where "profileNameRe = name_matches 31"
definition upstreamNameRe :: "string \<Rightarrow> bool" where "upstreamNameRe = name_matches 8"

fun any_upstream_matches :: "cfg_upstream list \<Rightarrow> cfg_match \<Rightarrow> bool" where
  "any_upstream_matches [] m = False"
| "any_upstream_matches (u # us) m = (if matches m u then True else any_upstream_matches us m)"

fun find_profile :: "profile list \<Rightarrow> string \<Rightarrow> profile option" where
  "find_profile [] name = None"
| "find_profile (p # ps) name = (if pr_name p = name then Some p else find_profile ps name)"

definition config_profile :: "config \<Rightarrow> string \<Rightarrow> profile option" where
  "config_profile c name = find_profile (cf_profiles c) name"

section \<open>Validation\<close>

fun check_upstreams :: "nat \<Rightarrow> string list \<Rightarrow> cfg_upstream list \<Rightarrow> config_error option" where
  "check_upstreams i seen [] = None"
| "check_upstreams i seen (u # us) =
     (if \<not> upstreamNameRe (u_name u) then Some (UpstreamName i (u_name u))
      else if u_name u \<in> set seen then Some (DuplicateUpstream i (u_name u))
      else if u_conf u = [] then Some (NoConfPath (u_name u))
      else check_upstreams (Suc i) (u_name u # seen) us)"

fun check_prefer :: "cfg_upstream list \<Rightarrow> string \<Rightarrow> nat \<Rightarrow> cfg_match list \<Rightarrow> config_error option" where
  "check_prefer us name j [] = None"
| "check_prefer us name j (m # ms) =
     (if \<not> any_upstream_matches us m then Some (MatchesNothing name j) else check_prefer us name (Suc j) ms)"

fun check_profiles :: "cfg_upstream list \<Rightarrow> nat \<Rightarrow> string list \<Rightarrow> profile list \<Rightarrow> config_error option" where
  "check_profiles us i seen [] = None"
| "check_profiles us i seen (p # ps) =
     (if \<not> profileNameRe (pr_name p) then Some (ProfileName i (pr_name p))
      else if pr_name p \<in> set seen then Some (DuplicateProfile i (pr_name p))
      else (case check_prefer us (pr_name p) 0 (pr_prefer p) of
              Some e \<Rightarrow> Some e
            | None \<Rightarrow> check_profiles us (Suc i) (pr_name p # seen) ps))"

definition check_endpoint :: "string \<Rightarrow> config_error option" where
  "check_endpoint e =
     (case split_host_port e of
        None \<Rightarrow> Some BadEndpoint
      | Some (host, port) \<Rightarrow>
          if host = [] then Some EndpointHost
          else (case parse_uint 16 port of
                  Inl _ \<Rightarrow> Some EndpointPort
                | Inr n \<Rightarrow> if n = 0 then Some EndpointPort else None))"

definition check_tail :: "config \<Rightarrow> config_error option" where
  "check_tail c =
     (let h = cf_health c
      in if h_interval h \<le> 0 then Some HealthInterval
         else if parse_addr_port (h_probe h) = None then Some HealthProbe
         else if h_downAfter h < 1 \<or> h_upAfter h < 1 then Some HealthThresholds
         else if cf_metrics c \<noteq> [] then
           (case parse_addr_port (cf_metrics c) of
              None \<Rightarrow> Some MetricsListen
            | Some ap \<Rightarrow> if is_unspecified (ap_addr ap) then Some MetricsUnspecified else None)
         else None)"

definition validate :: "config \<Rightarrow> config_error option" where
  "validate c =
     (if parse_addr_port (cf_listen c) = None then Some BadListen
      else case check_endpoint (cf_endpoint c) of
        Some e \<Rightarrow> Some e
      | None \<Rightarrow>
          if \<not> is4 (paddr (cf_subnet c)) \<or> pbits (cf_subnet c) > 24 then Some SubnetSize
          else if cf_subnet c \<noteq> masked (cf_subnet c) then Some SubnetHostBits
          else if cf_dns c = [] then Some NoDNS
          else if cf_state_dir c = [] then Some NoStateDir
          else if cf_upstreams c = [] then Some NoUpstreams
          else case check_upstreams 0 [] (cf_upstreams c) of
            Some e \<Rightarrow> Some e
          | None \<Rightarrow>
              if cf_profiles c = [] then Some NoProfiles
              else case check_profiles (cf_upstreams c) 0 [] (cf_profiles c) of
                Some e \<Rightarrow> Some e
              | None \<Rightarrow> check_tail c)"

definition parse_config :: "(string \<Rightarrow> config \<Rightarrow> config option) \<Rightarrow> string \<Rightarrow> config_error + config" where
  "parse_config decode data =
     (case decode data default_config of
        None \<Rightarrow> Inl YamlError
      | Some cfg \<Rightarrow> (case validate cfg of Some e \<Rightarrow> Inl e | None \<Rightarrow> Inr cfg))"

definition load_config ::
  "(string \<Rightarrow> string option) \<Rightarrow> (string \<Rightarrow> config \<Rightarrow> config option) \<Rightarrow> string \<Rightarrow> config_error + config" where
  "load_config read_file decode path =
     (case read_file path of None \<Rightarrow> Inl ReadFailed | Some data \<Rightarrow> parse_config decode data)"

section \<open>The declarative reading\<close>

definition endpoint_valid :: "string \<Rightarrow> bool" where
  "endpoint_valid e \<longleftrightarrow>
     (\<exists>host port n. split_host_port e = Some (host, port) \<and> host \<noteq> [] \<and>
        parse_uint 16 port = Inr n \<and> n \<noteq> 0)"

definition upstreams_valid :: "cfg_upstream list \<Rightarrow> bool" where
  "upstreams_valid us \<longleftrightarrow>
     us \<noteq> [] \<and> distinct (map u_name us) \<and> (\<forall>u \<in> set us. upstreamNameRe (u_name u) \<and> u_conf u \<noteq> [])"

definition profiles_valid :: "cfg_upstream list \<Rightarrow> profile list \<Rightarrow> bool" where
  "profiles_valid us ps \<longleftrightarrow>
     ps \<noteq> [] \<and> distinct (map pr_name ps) \<and>
     (\<forall>p \<in> set ps. profileNameRe (pr_name p) \<and> (\<forall>m \<in> set (pr_prefer p). \<exists>u \<in> set us. matches m u))"

definition config_valid :: "config \<Rightarrow> bool" where
  "config_valid c \<longleftrightarrow>
     parse_addr_port (cf_listen c) \<noteq> None \<and> endpoint_valid (cf_endpoint c) \<and>
     (\<exists>w. paddr (cf_subnet c) = V4 w) \<and> 0 \<le> pbits (cf_subnet c) \<and> pbits (cf_subnet c) \<le> 24 \<and>
     masked (cf_subnet c) = cf_subnet c \<and> cf_dns c \<noteq> [] \<and> cf_state_dir c \<noteq> [] \<and>
     upstreams_valid (cf_upstreams c) \<and> profiles_valid (cf_upstreams c) (cf_profiles c) \<and>
     0 < h_interval (cf_health c) \<and> parse_addr_port (h_probe (cf_health c)) \<noteq> None \<and>
     1 \<le> h_downAfter (cf_health c) \<and> 1 \<le> h_upAfter (cf_health c) \<and>
     (cf_metrics c = [] \<or>
      (\<exists>ap. parse_addr_port (cf_metrics c) = Some ap \<and> \<not> is_unspecified (ap_addr ap)))"

lemma any_upstream_matches_iff: "any_upstream_matches us m \<longleftrightarrow> (\<exists>u \<in> set us. matches m u)"
  by (induction us) auto

lemma find_profile_Some: "find_profile ps n = Some p \<Longrightarrow> p \<in> set ps \<and> pr_name p = n"
  by (induction ps) (auto split: if_splits)

lemma find_profile_None: "find_profile ps n = None \<longleftrightarrow> n \<notin> pr_name ` set ps"
  by (induction ps) auto

lemma find_profile_distinct:
  "distinct (map pr_name ps) \<Longrightarrow> p \<in> set ps \<Longrightarrow> find_profile ps (pr_name p) = Some p"
  by (induction ps) (auto simp: rev_image_eqI)

lemma check_upstreams_None:
  "check_upstreams i seen us = None \<longleftrightarrow>
     distinct (map u_name us) \<and> set seen \<inter> u_name ` set us = {} \<and>
     (\<forall>u \<in> set us. upstreamNameRe (u_name u) \<and> u_conf u \<noteq> [])"
  by (induction us arbitrary: i seen) auto

lemma check_prefer_None:
  "check_prefer us name j ms = None \<longleftrightarrow> (\<forall>m \<in> set ms. \<exists>u \<in> set us. matches m u)"
  by (induction ms arbitrary: j) (auto simp: any_upstream_matches_iff)

lemma check_profiles_None:
  "check_profiles us i seen ps = None \<longleftrightarrow>
     distinct (map pr_name ps) \<and> set seen \<inter> pr_name ` set ps = {} \<and>
     (\<forall>p \<in> set ps. profileNameRe (pr_name p) \<and> (\<forall>m \<in> set (pr_prefer p). \<exists>u \<in> set us. matches m u))"
proof (induction ps arbitrary: i seen)
  case (Cons p ps)
  have "check_prefer us (pr_name p) 0 (pr_prefer p) = None \<longleftrightarrow>
      (\<forall>m \<in> set (pr_prefer p). \<exists>u \<in> set us. matches m u)"
    by (rule check_prefer_None)
  then show ?case
    by (cases "check_prefer us (pr_name p) 0 (pr_prefer p)") (use Cons.IH in auto)
qed simp

lemma check_endpoint_None: "check_endpoint e = None \<longleftrightarrow> endpoint_valid e"
  by (auto simp: check_endpoint_def endpoint_valid_def split: option.splits sum.splits)

lemma masked_self_bits: "masked p = p \<Longrightarrow> is4 (paddr p) \<Longrightarrow> 0 \<le> pbits p"
  by (cases p) (auto simp: masked_def split: if_splits)

lemma upstreams_valid_iff: "us \<noteq> [] \<and> check_upstreams 0 [] us = None \<longleftrightarrow> upstreams_valid us"
  by (simp add: check_upstreams_None upstreams_valid_def)

lemma profiles_valid_iff: "ps \<noteq> [] \<and> check_profiles us 0 [] ps = None \<longleftrightarrow> profiles_valid us ps"
  by (simp add: check_profiles_None profiles_valid_def)

lemma check_tail_None: "check_tail c = None \<longleftrightarrow>
   0 < h_interval (cf_health c) \<and> parse_addr_port (h_probe (cf_health c)) \<noteq> None \<and>
   1 \<le> h_downAfter (cf_health c) \<and> 1 \<le> h_upAfter (cf_health c) \<and>
   (cf_metrics c = [] \<or> (\<exists>ap. parse_addr_port (cf_metrics c) = Some ap \<and> \<not> is_unspecified (ap_addr ap)))"
  by (auto simp: check_tail_def Let_def split: option.splits)

lemma validate_None: "validate c = None \<longleftrightarrow>
   parse_addr_port (cf_listen c) \<noteq> None \<and> check_endpoint (cf_endpoint c) = None \<and>
   is4 (paddr (cf_subnet c)) \<and> pbits (cf_subnet c) \<le> 24 \<and> masked (cf_subnet c) = cf_subnet c \<and>
   cf_dns c \<noteq> [] \<and> cf_state_dir c \<noteq> [] \<and>
   (cf_upstreams c \<noteq> [] \<and> check_upstreams 0 [] (cf_upstreams c) = None) \<and>
   (cf_profiles c \<noteq> [] \<and> check_profiles (cf_upstreams c) 0 [] (cf_profiles c) = None) \<and>
   check_tail c = None"
proof -
  have eq: "cf_subnet c \<noteq> masked (cf_subnet c) \<longleftrightarrow> \<not> masked (cf_subnet c) = cf_subnet c" by auto
  show ?thesis
    unfolding validate_def eq
    by (cases "check_tail c") (auto split: option.split)
qed

lemma is4_V4: "is4 a \<longleftrightarrow> (\<exists>w. a = V4 w)"
  by (cases a) auto

lemma validate_iff: "validate c = None \<longleftrightarrow> config_valid c"
proof -
  have bits: "masked (cf_subnet c) = cf_subnet c \<Longrightarrow> is4 (paddr (cf_subnet c)) \<Longrightarrow> 0 \<le> pbits (cf_subnet c)"
    by (rule masked_self_bits)
  show ?thesis
    unfolding validate_None upstreams_valid_iff profiles_valid_iff check_tail_None check_endpoint_None
      config_valid_def is4_V4 [symmetric]
    using bits by blast
qed

section \<open>Interface names\<close>

lemma upstreamNameRe_length: "upstreamNameRe s \<Longrightarrow> length s \<le> 9"
  by (cases s) (auto simp: upstreamNameRe_def name_matches_def)

lemma upstreamNameRe_nonempty: "upstreamNameRe s \<Longrightarrow> s \<noteq> []"
  by (auto simp: upstreamNameRe_def name_matches_def)

lemma interface_name_inj: "interface_name u = interface_name v \<longleftrightarrow> u_name u = u_name v"
  by (simp add: interface_name_def)

lemma interface_name_fits: "upstreamNameRe (u_name u) \<Longrightarrow> length (interface_name u) \<le> 15"
  using upstreamNameRe_length [of "u_name u"] by (simp add: interface_name_def)

section \<open>Properties\<close>

text \<open>C8. \<open>Validate\<close> accepts a configuration exactly when it is valid in the declarative sense: a listen
  address, an endpoint with host and port, an aligned IPv4 subnet of at least 256 addresses, a resolver, a state
  directory, well-named distinct upstreams and profiles whose every preference matches some upstream, positive health
  settings, and a metrics address that is not a wildcard.\<close>

theorem validate_exact: "validate c = None \<longleftrightarrow> config_valid c"
  by (rule validate_iff)

text \<open>In a configuration \<open>Validate\<close> accepts the tunnel interfaces of the upstreams have distinct names that fit
  the 15 characters the kernel allows.\<close>

theorem interface_names:
  assumes "validate c = None"
  shows "distinct (map interface_name (cf_upstreams c)) \<and>
         (\<forall>u \<in> set (cf_upstreams c). length (interface_name u) \<le> 15)"
proof -
  have d: "distinct (map u_name (cf_upstreams c))" and n: "\<forall>u \<in> set (cf_upstreams c). upstreamNameRe (u_name u)"
    using assms unfolding validate_iff by (auto simp: config_valid_def upstreams_valid_def)
  have "distinct (map interface_name (cf_upstreams c))"
    using d by (simp add: distinct_map inj_on_def interface_name_inj)
  moreover have "length (interface_name u) \<le> 15" if "u \<in> set (cf_upstreams c)" for u
    using n that by (intro interface_name_fits) blast
  ultimately show ?thesis by blast
qed

text \<open>A configuration for the witnesses.\<close>

definition sample_settings :: config where
  "sample_settings = default_config
     \<lparr>cf_endpoint := ''vpn:51820'',
      cf_upstreams := [\<lparr>u_name = ''de1'', u_conf = ''de1.conf'', u_geo = ''de'', u_provider = []\<rparr>,
                       \<lparr>u_name = ''nl1'', u_conf = ''nl1.conf'', u_geo = ''nl'', u_provider = []\<rparr>],
      cf_profiles := [\<lparr>pr_name = ''main'', pr_prefer = [\<lparr>m_geo = ''nl'', m_provider = []\<rparr>]\<rparr>]\<rparr>"

lemma sample_texts:
  "show_v4 0 = ''0.0.0.0''" "show_v4 0x01010101 = ''1.1.1.1''" "show_nat 51820 = ''51820''" "show_nat 443 = ''443''"
proof -
  have d: "map digit_char [0, 1, 2, 3, 4, 5, 8] = ''0123458''" by code_simp
  show "show_v4 0 = ''0.0.0.0''" "show_v4 0x01010101 = ''1.1.1.1''" "show_nat 51820 = ''51820''" "show_nat 443 = ''443''"
    using d by (simp_all add: show_v4_def octets_def show_nat.simps)
qed

lemma sample_parts:
  "parse_addr_port ''0.0.0.0:51820'' = Some (AddrPort (V4 0) 51820)"
  "parse_addr_port ''1.1.1.1:443'' = Some (AddrPort (V4 0x01010101) 443)"
  "endpoint_valid ''vpn:51820''"
  using parse_addr_port_show_v4 [where n = 51820 and w = 0] parse_addr_port_show_v4 [where n = 443 and w = 16843009]
    split_host_port_append [of "''vpn''" "''51820''"] parse_uint_show_nat [of 51820 16]
  by (simp_all add: sample_texts endpoint_valid_def)

lemma sample_upstreams: "upstreams_valid (cf_upstreams sample_settings)"
  by (simp add: sample_settings_def upstreams_valid_def upstreamNameRe_def name_matches_def lower_alnum_def is_digit_def)

lemma sample_profiles: "profiles_valid (cf_upstreams sample_settings) (cf_profiles sample_settings)"
  by (simp add: sample_settings_def profiles_valid_def profileNameRe_def name_matches_def lower_alnum_def is_digit_def
      matches_def)

lemma sample_settings_valid: "validate sample_settings = None"
  unfolding validate_iff config_valid_def
  using sample_upstreams sample_profiles sample_parts
  by (simp add: sample_settings_def default_config_def second_def masked_def prefix_from_def mask_numeral)

theorem interface_names_witness:
  "distinct (map interface_name (cf_upstreams sample_settings))"
  using interface_names [OF sample_settings_valid] by blast

end
