(* ===== verification/Policy.thy ===== *)
theory Policy
  imports Config
begin

text \<open>
  \<open>internal/policy/policy.go\<close>: the choice of an upstream. \<open>select_upstream\<close> is \<open>Select\<close> (\<open>None\<close> is
  \<open>ok = false\<close>), \<open>tier_of\<close> its helper with \<open>None\<close> for \<open>-1\<close>, \<open>collect\<close> the loop over the upstreams with
  the best tier so far and its candidates, \<open>min_upstream\<close> the \<open>slices.MinFunc\<close> with its comparison.
\<close>

record pol_upstream =
  pu_cfg :: cfg_upstream
  pu_healthy :: bool
  pu_latency :: int

abbreviation pu_name :: "pol_upstream \<Rightarrow> string" where
  "pu_name u \<equiv> u_name (pu_cfg u)"

fun first_match :: "nat \<Rightarrow> cfg_match list \<Rightarrow> cfg_upstream \<Rightarrow> nat option" where
  "first_match i [] u = None"
| "first_match i (m # ms) u = (if matches m u then Some i else first_match (Suc i) ms u)"

definition tier_of :: "profile \<Rightarrow> cfg_upstream \<Rightarrow> nat option" where
  "tier_of p u = (if pr_prefer p = [] then Some 0 else first_match 0 (pr_prefer p) u)"

definition collect_step ::
  "profile \<Rightarrow> nat option \<times> pol_upstream list \<Rightarrow> pol_upstream \<Rightarrow> nat option \<times> pol_upstream list" where
  "collect_step p st u =
     (let (bestTier, candidates) = st
      in case tier_of p (pu_cfg u) of
           None \<Rightarrow> st
         | Some tier \<Rightarrow>
             if \<not> pu_healthy u then st
             else (case bestTier of
                     None \<Rightarrow> (Some tier, [u])
                   | Some b \<Rightarrow>
                       if tier < b then (Some tier, [u])
                       else if tier = b then (bestTier, candidates @ [u])
                       else st))"

definition collect :: "profile \<Rightarrow> pol_upstream list \<Rightarrow> nat option \<times> pol_upstream list" where
  "collect p ups = foldl (collect_step p) (None, []) ups"

text \<open>\<open>a\<close> sorts before \<open>b\<close>: lower latency, then the name.\<close>

definition better :: "pol_upstream \<Rightarrow> pol_upstream \<Rightarrow> bool" where
  "better a b \<longleftrightarrow>
     pu_latency a < pu_latency b \<or> (pu_latency a = pu_latency b \<and> pu_name a < pu_name b)"

fun min_upstream :: "pol_upstream \<Rightarrow> pol_upstream list \<Rightarrow> pol_upstream" where
  "min_upstream m [] = m"
| "min_upstream m (u # us) = min_upstream (if better u m then u else m) us"

definition select_upstream :: "profile \<Rightarrow> pol_upstream list \<Rightarrow> string \<Rightarrow> string option" where
  "select_upstream p ups current =
     (case snd (collect p ups) of
        [] \<Rightarrow> None
      | c # cs \<Rightarrow>
          if \<exists>u \<in> set (c # cs). pu_name u = current then Some current
          else Some (pu_name (min_upstream c cs)))"

section \<open>The candidates\<close>

text \<open>An upstream is usable when it is healthy and matches a preference; the candidates are the usable
  upstreams of the lowest tier.\<close>

definition usable :: "profile \<Rightarrow> pol_upstream \<Rightarrow> bool" where
  "usable p u \<longleftrightarrow> pu_healthy u \<and> tier_of p (pu_cfg u) \<noteq> None"

definition candidate :: "profile \<Rightarrow> pol_upstream list \<Rightarrow> pol_upstream \<Rightarrow> bool" where
  "candidate p ups u \<longleftrightarrow>
     u \<in> set ups \<and> usable p u \<and>
     (\<forall>v \<in> set ups. usable p v \<longrightarrow> the (tier_of p (pu_cfg u)) \<le> the (tier_of p (pu_cfg v)))"

definition collect_inv :: "profile \<Rightarrow> pol_upstream list \<Rightarrow> nat option \<times> pol_upstream list \<Rightarrow> bool" where
  "collect_inv p ups st \<longleftrightarrow>
     set (snd st) = {u. candidate p ups u} \<and>
     (case fst st of
        None \<Rightarrow> (\<forall>u \<in> set ups. \<not> usable p u)
      | Some b \<Rightarrow> (\<exists>u \<in> set ups. usable p u \<and> tier_of p (pu_cfg u) = Some b) \<and>
                 (\<forall>u \<in> set ups. usable p u \<longrightarrow> b \<le> the (tier_of p (pu_cfg u))))"

lemma collect_inv_step:
  assumes "collect_inv p ups st"
  shows "collect_inv p (ups @ [u]) (collect_step p st u)"
proof -
  obtain b cs where st: "st = (b, cs)" by (cases st)
  show ?thesis
  proof (cases "usable p u")
    case False
    then have "collect_step p st u = st"
      by (auto simp: collect_step_def st usable_def split: option.splits)
    moreover have "candidate p (ups @ [u]) v \<longleftrightarrow> candidate p ups v" for v
      using False by (auto simp: candidate_def)
    ultimately show ?thesis
      using assms False by (auto simp: collect_inv_def split: option.splits)
  next
    case True
    then obtain t where t: "tier_of p (pu_cfg u) = Some t" "pu_healthy u"
      by (auto simp: usable_def)
    show ?thesis
    proof (cases b)
      case None
      with assms st have no: "\<forall>v \<in> set ups. \<not> usable p v" by (simp add: collect_inv_def)
      then have "{v. candidate p (ups @ [u]) v} = {u}"
        using True by (auto simp: candidate_def)
      then show ?thesis
        using None st t True no by (auto simp: collect_step_def collect_inv_def)
    next
      case (Some b')
      with assms st obtain w where w: "w \<in> set ups" "usable p w" "tier_of p (pu_cfg w) = Some b'"
        and le: "\<And>v. v \<in> set ups \<Longrightarrow> usable p v \<Longrightarrow> b' \<le> the (tier_of p (pu_cfg v))"
        and cs: "set cs = {v. candidate p ups v}"
        by (auto simp: collect_inv_def)
      consider (lt) "t < b'" | (eq) "t = b'" | (gt) "b' < t" by linarith
      then show ?thesis
      proof cases
        case lt
        have better: "\<forall>v \<in> set (ups @ [u]). usable p v \<longrightarrow> t \<le> the (tier_of p (pu_cfg v))"
          using le t lt by fastforce
        have "candidate p (ups @ [u]) v \<longleftrightarrow> v = u" for v
          using better True t w lt le [of v] by (auto simp: candidate_def) 
        moreover have "collect_step p st u = (Some t, [u])"
          using lt by (simp add: collect_step_def st Some t)
        ultimately show ?thesis
          using better True t by (simp add: collect_inv_def)
      next
        case eq
        have low: "\<forall>v \<in> set (ups @ [u]). usable p v \<longrightarrow> b' \<le> the (tier_of p (pu_cfg v))"
          using le t eq by auto
        have "candidate p (ups @ [u]) v \<longleftrightarrow> candidate p ups v \<or> v = u" for v
          using True t eq le w by (fastforce simp: candidate_def)
        then have "{v. candidate p (ups @ [u]) v} = insert u (set cs)"
          using cs by auto
        moreover have "collect_step p st u = (Some b', cs @ [u])"
          using eq by (simp add: collect_step_def st Some t)
        ultimately show ?thesis
          using low w by (auto simp: collect_inv_def)
      next
        case gt
        have low: "\<forall>v \<in> set (ups @ [u]). usable p v \<longrightarrow> b' \<le> the (tier_of p (pu_cfg v))"
          using le t gt by auto
        have "candidate p (ups @ [u]) v \<longleftrightarrow> candidate p ups v" for v
          using True t gt w by (fastforce simp: candidate_def)
        moreover have "collect_step p st u = (Some b', cs)"
          using gt by (simp add: collect_step_def st Some t)
        ultimately show ?thesis
          using low w cs by (auto simp: collect_inv_def)
      qed
    qed
  qed
qed

lemma collect_inv_collect: "collect_inv p ups (collect p ups)"
proof (induction ups rule: rev_induct)
  case Nil
  then show ?case by (auto simp: collect_def collect_inv_def candidate_def)
next
  case (snoc u ups)
  then show ?case using collect_inv_step [of p ups "collect p ups" u] by (simp add: collect_def)
qed

lemma set_candidates: "set (snd (collect p ups)) = {u. candidate p ups u}"
  using collect_inv_collect [of p ups] by (simp add: collect_inv_def)

lemma candidate_exists: "(\<exists>u. candidate p ups u) \<longleftrightarrow> (\<exists>u \<in> set ups. usable p u)"
  using collect_inv_collect [of p ups]
  by (auto simp: collect_inv_def candidate_def split: option.splits)

section \<open>The minimum\<close>

lemma better_total: "\<not> better a b \<Longrightarrow> \<not> better b a \<Longrightarrow> pu_latency a = pu_latency b \<and> pu_name a = pu_name b"
  by (auto simp: better_def)

lemma not_better_trans: "\<not> better b a \<Longrightarrow> \<not> better c b \<Longrightarrow> \<not> better c a"
  by (auto simp: better_def)

lemma better_trans: "better a b \<Longrightarrow> better b c \<Longrightarrow> better a c"
  by (auto simp: better_def)

lemma min_upstream_min:
  "min_upstream m us \<in> set (m # us) \<and> (\<forall>v \<in> set (m # us). \<not> better v (min_upstream m us))"
proof (induction us arbitrary: m)
  case Nil
  then show ?case by (simp add: better_def)
next
  case (Cons u us)
  let ?m = "if better u m then u else m"
  have IH: "min_upstream ?m us \<in> set (?m # us)" "\<forall>v \<in> set (?m # us). \<not> better v (min_upstream ?m us)"
    using Cons.IH [of ?m] by auto
  have "\<not> better (if better u m then m else u) ?m" by (auto simp: better_def)
  then have "\<not> better (if better u m then m else u) (min_upstream ?m us)"
    using IH(2) not_better_trans by (metis list.set_intros(1))
  with IH show ?case by (auto split: if_splits)
qed

text \<open>The specification of the choice.\<close>

definition chosen :: "profile \<Rightarrow> pol_upstream list \<Rightarrow> string \<Rightarrow> string \<Rightarrow> bool" where
  "chosen p ups current name \<longleftrightarrow>
     (if \<exists>u. candidate p ups u \<and> pu_name u = current then name = current
      else \<exists>u. candidate p ups u \<and> pu_name u = name \<and> (\<forall>v. candidate p ups v \<longrightarrow> \<not> better v u))"

lemma select_chosen:
  "select_upstream p ups current = Some name \<Longrightarrow> chosen p ups current name"
proof -
  assume s: "select_upstream p ups current = Some name"
  then obtain c cs where cs: "snd (collect p ups) = c # cs"
    by (auto simp: select_upstream_def split: list.splits)
  have set: "set (c # cs) = {u. candidate p ups u}" using set_candidates [of p ups] cs by simp
  show ?thesis
  proof (cases "\<exists>u \<in> set (c # cs). pu_name u = current")
    case True
    with s cs have "name = current" by (simp add: select_upstream_def)
    with True set show ?thesis by (auto simp: chosen_def)
  next
    case False
    with s cs have "name = pu_name (min_upstream c cs)" by (simp add: select_upstream_def)
    with min_upstream_min [of c cs] False set show ?thesis
      unfolding chosen_def by (metis (mono_tags, lifting) mem_Collect_eq)
  qed
qed

lemma select_None: "select_upstream p ups current = None \<longleftrightarrow> (\<forall>u \<in> set ups. \<not> usable p u)"
proof -
  have "select_upstream p ups current = None \<longleftrightarrow> set (snd (collect p ups)) = {}"
    by (auto simp: select_upstream_def split: list.splits)
  also have "\<dots> \<longleftrightarrow> \<not> (\<exists>u. candidate p ups u)" by (auto simp: set_candidates)
  finally show ?thesis by (simp add: candidate_exists)
qed

lemma chosen_unique: "chosen p ups cur a \<Longrightarrow> chosen p ups cur b \<Longrightarrow> a = b"
  unfolding chosen_def by (metis better_total)

lemma select_candidate:
  "select_upstream p ups current = Some name \<Longrightarrow> \<exists>u. candidate p ups u \<and> pu_name u = name"
  by (drule select_chosen) (auto simp: chosen_def split: if_splits)

lemma select_iff: "select_upstream p ups current = Some name \<longleftrightarrow>
    (\<exists>u \<in> set ups. usable p u) \<and> chosen p ups current name"
proof
  assume "select_upstream p ups current = Some name"
  then show "(\<exists>u \<in> set ups. usable p u) \<and> chosen p ups current name"
    using select_None [of p ups current] select_chosen by auto
next
  assume a: "(\<exists>u \<in> set ups. usable p u) \<and> chosen p ups current name"
  then obtain n where "select_upstream p ups current = Some n"
    using select_None [of p ups current] by auto
  with a show "select_upstream p ups current = Some name"
    using select_chosen chosen_unique by blast
qed

section \<open>Properties\<close>

text \<open>C15. The choice of an upstream: \<open>Select\<close> returns a name exactly when some healthy upstream matches the profile,
  and the name is the current one when that is among the candidates of the best tier, otherwise the candidate of least
  latency and, on equal latency, of least name.\<close>

theorem select_exact:
  "select_upstream p ups current = Some name \<longleftrightarrow>
     (\<exists>u \<in> set ups. usable p u) \<and> chosen p ups current name"
  by (rule select_iff)

text \<open>The policy fails closed: a name that \<open>Select\<close> returns belongs to a listed upstream that is healthy and
  matches the profile.\<close>

theorem select_healthy:
  assumes "select_upstream p ups current = Some name"
  shows "\<exists>u \<in> set ups. pu_name u = name \<and> pu_healthy u \<and> tier_of p (pu_cfg u) \<noteq> None"
  using select_candidate [OF assms] by (auto simp: candidate_def usable_def)

definition sample_upstream :: "string \<Rightarrow> string \<Rightarrow> bool \<Rightarrow> int \<Rightarrow> pol_upstream" where
  "sample_upstream name geo healthy lat =
     \<lparr>pu_cfg = \<lparr>u_name = name, u_conf = ''c'', u_geo = geo, u_provider = []\<rparr>, pu_healthy = healthy, pu_latency = lat\<rparr>"

theorem select_healthy_witness:
  "\<exists>u \<in> set [sample_upstream ''nl1'' ''nl'' False 5, sample_upstream ''de1'' ''de'' True 9].
     pu_name u = ''de1'' \<and> pu_healthy u \<and>
     tier_of \<lparr>pr_name = ''p'', pr_prefer = [\<lparr>m_geo = ''nl'', m_provider = []\<rparr>, \<lparr>m_geo = [], m_provider = []\<rparr>]\<rparr>
       (pu_cfg u) \<noteq> None"
proof (rule select_healthy)
  show "select_upstream
      \<lparr>pr_name = ''p'', pr_prefer = [\<lparr>m_geo = ''nl'', m_provider = []\<rparr>, \<lparr>m_geo = [], m_provider = []\<rparr>]\<rparr>
      [sample_upstream ''nl1'' ''nl'' False 5, sample_upstream ''de1'' ''de'' True 9] ''nl1'' = Some ''de1''"
    by (simp add: select_upstream_def collect_def collect_step_def tier_of_def matches_def sample_upstream_def)
qed

end
