(* ===== verification/Go_Encoding.thy ===== *)
theory Go_Encoding
  imports Go_Strings
begin

text \<open>
  \<open>encoding/base64\<close> (\<open>StdEncoding\<close>) and \<open>encoding/hex\<close> on byte lists. The base64 decoder
  skips carriage returns and newlines, wants padded groups of four and ignores unused trailing
  bits, as the non-strict standard decoder does. The hex decoder takes both cases.
\<close>

section \<open>Base64\<close>

definition b64_alphabet :: string where
  "b64_alphabet = ''ABCDEFGHIJKLMNOPQRSTUVWXYZabcdefghijklmnopqrstuvwxyz0123456789+/''"

definition b64_char :: "nat \<Rightarrow> char" where
  "b64_char i = b64_alphabet ! i"

definition b64_val :: "char \<Rightarrow> nat option" where
  "b64_val c = index_byte c b64_alphabet"

definition b64_pack :: "u8 \<Rightarrow> u8 \<Rightarrow> u8 \<Rightarrow> nat" where
  "b64_pack x y z = unat x * 65536 + unat y * 256 + unat z"

fun b64_encode :: "u8 list \<Rightarrow> string" where
  "b64_encode [] = []"
| "b64_encode [x] =
     (let v = b64_pack x 0 0
      in [b64_char (v div 262144), b64_char (v div 4096 mod 64), CHR ''='', CHR ''=''])"
| "b64_encode [x, y] =
     (let v = b64_pack x y 0
      in [b64_char (v div 262144), b64_char (v div 4096 mod 64),
          b64_char (v div 64 mod 64), CHR ''=''])"
| "b64_encode (x # y # z # rest) =
     (let v = b64_pack x y z
      in [b64_char (v div 262144), b64_char (v div 4096 mod 64),
          b64_char (v div 64 mod 64), b64_char (v mod 64)] @ b64_encode rest)"

definition b64_byte :: "nat \<Rightarrow> u8" where
  "b64_byte v = of_nat (v mod 256)"

fun b64_groups :: "string \<Rightarrow> u8 list option" where
  "b64_groups [] = Some []"
| "b64_groups (a # b # c # d # rest) =
     (case (b64_val a, b64_val b) of
        (Some va, Some vb) \<Rightarrow>
          if d = CHR ''='' then
            (if rest \<noteq> [] then None
             else if c = CHR ''='' then
               (let v = va * 262144 + vb * 4096 in Some [b64_byte (v div 65536)])
             else (case b64_val c of None \<Rightarrow> None
                   | Some vc \<Rightarrow>
                       (let v = va * 262144 + vb * 4096 + vc * 64
                        in Some [b64_byte (v div 65536), b64_byte (v div 256)])))
          else (case (b64_val c, b64_val d) of
                  (Some vc, Some vd) \<Rightarrow>
                    (let v = va * 262144 + vb * 4096 + vc * 64 + vd
                     in map_option (\<lambda>bs. [b64_byte (v div 65536), b64_byte (v div 256), b64_byte v] @ bs)
                          (b64_groups rest))
                | _ \<Rightarrow> None)
      | _ \<Rightarrow> None)"
| "b64_groups _ = None"

definition b64_decode :: "string \<Rightarrow> u8 list option" where
  "b64_decode s = b64_groups (filter (\<lambda>c. c \<noteq> CHR 0x0A \<and> c \<noteq> CHR 0x0D) s)"

lemma b64_val_char: "i < 64 \<Longrightarrow> b64_val (b64_char i) = Some i"
proof -
  have "\<forall>i \<in> set [0..<64]. b64_val (b64_char i) = Some i" by code_simp
  then show "i < 64 \<Longrightarrow> b64_val (b64_char i) = Some i" by simp
qed

lemma b64_char_safe:
  "i < 64 \<Longrightarrow> b64_char i \<noteq> CHR ''='' \<and> b64_char i \<noteq> CHR 0x0A \<and> b64_char i \<noteq> CHR 0x0D"
proof -
  have "\<forall>i \<in> set [0..<64]. b64_char i \<noteq> CHR ''='' \<and> b64_char i \<noteq> CHR 0x0A \<and> b64_char i \<noteq> CHR 0x0D"
    by code_simp
  then show "i < 64 \<Longrightarrow> b64_char i \<noteq> CHR ''='' \<and> b64_char i \<noteq> CHR 0x0A \<and> b64_char i \<noteq> CHR 0x0D"
    by simp
qed

text \<open>The characters a rendered key may hold, with what they exclude.\<close>

definition b64_text :: "char \<Rightarrow> bool" where
  "b64_text c \<longleftrightarrow> c \<in> set b64_alphabet \<or> c = CHR ''=''"

lemma b64_char_text: "i < 64 \<Longrightarrow> b64_text (b64_char i)"
proof -
  assume "i < 64"
  moreover have "length b64_alphabet = 64" by (simp add: b64_alphabet_def)
  ultimately show ?thesis by (simp add: b64_text_def b64_char_def)
qed

lemma b64_text_safe:
  assumes "b64_text c"
  shows "\<not> is_space c \<and> c \<noteq> CHR ''#'' \<and> c \<noteq> CHR 0x0A \<and> c \<noteq> CHR 0x0D"
proof -
  have "\<forall>c \<in> set (CHR ''='' # b64_alphabet).
      \<not> is_space c \<and> c \<noteq> CHR ''#'' \<and> c \<noteq> CHR 0x0A \<and> c \<noteq> CHR 0x0D"
    by code_simp
  with assms show ?thesis by (auto simp: b64_text_def)
qed

lemma b64_pack_bound: "b64_pack x y z < 16777216"
  using unat_u8 [of x] unat_u8 [of y] unat_u8 [of z] by (simp add: b64_pack_def)

lemma sextets_of_nat:
  "v div 262144 * 262144 + v div 4096 mod 64 * 4096 + v div 64 mod 64 * 64 + v mod 64 = (v::nat)"
proof -
  have "v div 64 * 64 + v mod 64 = v" by simp
  moreover have "v div 4096 * 64 + v div 64 mod 64 = v div 64"
    using div_mult_mod_eq [of "v div 64" 64] by (simp add: div_mult2_eq [symmetric])
  moreover have "v div 262144 * 64 + v div 4096 mod 64 = v div 4096"
    using div_mult_mod_eq [of "v div 4096" 64] by (simp add: div_mult2_eq [symmetric])
  ultimately show ?thesis by linarith
qed

lemma b64_pack_digits:
  "b64_pack x y z div 262144 < 64"
  "b64_pack x y z div 262144 * 262144 + b64_pack x y z div 4096 mod 64 * 4096 +
     b64_pack x y z div 64 mod 64 * 64 + b64_pack x y z mod 64 = b64_pack x y z"
  using b64_pack_bound [of x y z] by (simp_all add: less_mult_imp_div_less sextets_of_nat)

lemma b64_pack_padding:
  "b64_pack x 0 0 div 64 mod 64 = 0" "b64_pack x y 0 mod 64 = 0"
proof -
  have "64 * (64 * (16 * unat x)) div 64 mod 64 = 0" by simp
  then show "b64_pack x 0 0 div 64 mod 64 = 0" by (simp add: b64_pack_def)
  have "(64 * (unat x * 1024 + unat y * 4)) mod 64 = 0" by simp
  then show "b64_pack x y 0 mod 64 = 0" by (simp add: b64_pack_def algebra_simps)
qed

lemma b64_byte_pack:
  "b64_byte (b64_pack x y z div 65536) = x"
  "b64_byte (b64_pack x y z div 256) = y"
  "b64_byte (b64_pack x y z) = z"
proof -
  have v: "b64_pack x y z = (unat x * 256 + unat y) * 256 + unat z"
    by (simp add: b64_pack_def)
  have d: "b64_pack x y z div 256 = unat x * 256 + unat y" "b64_pack x y z mod 256 = unat z"
    unfolding v using unat_u8 [of z] by (simp, simp only: mod_mult_self3 mod_less)
  have "b64_pack x y z div 65536 = b64_pack x y z div 256 div 256"
    by (simp add: div_mult2_eq [symmetric])
  also have "\<dots> = unat x" unfolding d using unat_u8 [of y] by simp
  finally have d2: "b64_pack x y z div 65536 = unat x" .
  show "b64_byte (b64_pack x y z div 65536) = x"
    "b64_byte (b64_pack x y z div 256) = y" "b64_byte (b64_pack x y z) = z"
    unfolding b64_byte_def d d2 using unat_u8 [of x] unat_u8 [of y] by simp_all
qed

lemma b64_text_pad [simp]: "b64_text (CHR ''='')"
  by (simp add: b64_text_def)

lemma b64_encode_text: "c \<in> set (b64_encode bs) \<Longrightarrow> b64_text c"
  by (induction bs rule: b64_encode.induct)
    (auto simp: Let_def b64_char_text b64_pack_digits)

lemma b64_groups_encode: "b64_groups (b64_encode bs) = Some bs"
proof (induction bs rule: b64_encode.induct)
  case 1
  then show ?case by simp
next
  case (2 x)
  have "b64_pack x 0 0 div 262144 * 262144 + b64_pack x 0 0 div 4096 mod 64 * 4096 = b64_pack x 0 0"
    using b64_pack_digits(2) [of x 0 0] by (simp add: b64_pack_padding)
  then show ?case by (simp add: Let_def b64_val_char b64_pack_digits(1) b64_byte_pack)
next
  case (3 x y)
  have "b64_pack x y 0 div 262144 * 262144 + b64_pack x y 0 div 4096 mod 64 * 4096 +
      b64_pack x y 0 div 64 mod 64 * 64 = b64_pack x y 0"
    using b64_pack_digits(2) [of x y 0] by (simp add: b64_pack_padding)
  then show ?case
    by (simp add: Let_def b64_val_char b64_pack_digits(1) b64_byte_pack b64_char_safe)
next
  case (4 x y z rest)
  then show ?case
    by (simp add: Let_def b64_val_char b64_char_safe b64_pack_digits b64_byte_pack)
qed

lemma b64_decode_encode [codec]: "b64_decode (b64_encode bs) = Some bs"
proof -
  have "filter (\<lambda>c. c \<noteq> CHR 0x0A \<and> c \<noteq> CHR 0x0D) (b64_encode bs) = b64_encode bs"
    by (rule filter_True) (auto dest!: b64_encode_text b64_text_safe)
  then show ?thesis by (simp add: b64_decode_def b64_groups_encode)
qed

section \<open>Hexadecimal\<close>

definition hex_alphabet :: string where
  "hex_alphabet = ''0123456789abcdef''"

definition hex_val :: "char \<Rightarrow> nat option" where
  "hex_val c = index_byte (lower_char c) hex_alphabet"

fun hex_encode :: "u8 list \<Rightarrow> string" where
  "hex_encode [] = []"
| "hex_encode (b # bs) =
     [hex_alphabet ! (unat b div 16), hex_alphabet ! (unat b mod 16)] @ hex_encode bs"

fun hex_decode :: "string \<Rightarrow> u8 list option" where
  "hex_decode [] = Some []"
| "hex_decode [c] = None"
| "hex_decode (a # b # cs) =
     (case (hex_val a, hex_val b) of
        (Some va, Some vb) \<Rightarrow> map_option (\<lambda>bs. of_nat (va * 16 + vb) # bs) (hex_decode cs)
      | _ \<Rightarrow> None)"

lemma hex_val_nth: "i < 16 \<Longrightarrow> hex_val (hex_alphabet ! i) = Some i"
proof -
  have "\<forall>i \<in> set [0..<16]. hex_val (hex_alphabet ! i) = Some i" by code_simp
  then show "i < 16 \<Longrightarrow> hex_val (hex_alphabet ! i) = Some i" by simp
qed

lemma hex_decode_encode [codec]: "hex_decode (hex_encode bs) = Some bs"
proof (induction bs)
  case (Cons b bs)
  have "unat b div 16 < 16" using unat_u8 [of b] by (simp add: less_mult_imp_div_less)
  moreover have "unat b div 16 * 16 + unat b mod 16 = unat b" by simp
  ultimately show ?case using Cons by (simp add: hex_val_nth)
qed simp

lemma hex_decode_length: "hex_decode s = Some bs \<Longrightarrow> length s = 2 * length bs"
  by (induction s arbitrary: bs rule: hex_decode.induct) (auto split: option.splits)

end
