(* ===== verification/Awg_Key.thy ===== *)
theory Awg_Key
  imports Go_Encoding
begin

unbundle bit_operations_syntax

text \<open>
  \<open>internal/awgconf/key.go\<close>: Curve25519 keys. A \<open>Key\<close> is \<open>[32]byte\<close>, here the list of its bytes with
  \<open>key_ok\<close> for its length. The scalar multiplication of \<open>golang.org/x/crypto\<close> is an argument of
  \<open>key_public\<close>. The bytes of \<open>crypto/rand\<close> are an argument of \<open>GeneratePrivateKey\<close>.
\<close>

type_synonym key = "u8 list"

definition key_ok :: "key \<Rightarrow> bool" where
  "key_ok k \<longleftrightarrow> length k = 32"

definition zero_key :: key where
  "zero_key = replicate 32 0"

datatype key_error = NotBase64 | NotHex | KeyLength nat | RandError

text \<open>\<open>rand\<close> is what \<open>rand.Read\<close> put into the 32-byte buffer, \<open>None\<close> when it failed.\<close>

definition GeneratePrivateKey :: "u8 list option \<Rightarrow> key_error + key" where
  "GeneratePrivateKey rand =
     (case rand of
        None \<Rightarrow> Inl RandError
      | Some k0 \<Rightarrow>
          let k1 = k0[0 := (k0 ! 0) AND 248];
              k2 = k1[31 := (k1 ! 31) AND 127];
              k3 = k2[31 := (k2 ! 31) OR 64]
          in Inr k3)"

text \<open>\<open>Public\<close> lets \<open>curve25519.ScalarBaseMult\<close>, the argument \<open>smult\<close>, write into a 32-byte array.\<close>

definition key_public :: "(key \<Rightarrow> u8 list) \<Rightarrow> key \<Rightarrow> key" where
  "key_public smult k = (let b = smult k in take 32 b @ replicate (32 - length b) 0)"

definition ParseKey :: "string \<Rightarrow> key_error + key" where
  "ParseKey s =
     (case b64_decode s of
        None \<Rightarrow> Inl NotBase64
      | Some b \<Rightarrow> if length b \<noteq> 32 then Inl (KeyLength (length b)) else Inr b)"

definition ParseHexKey :: "string \<Rightarrow> key_error + key" where
  "ParseHexKey s =
     (case hex_decode s of
        None \<Rightarrow> Inl NotHex
      | Some b \<Rightarrow> if length b \<noteq> 32 then Inl (KeyLength (length b)) else Inr b)"

definition key_string :: "key \<Rightarrow> string" where
  "key_string k = b64_encode k"

definition key_hex :: "key \<Rightarrow> string" where
  "key_hex k = hex_encode k"

definition key_is_zero :: "key \<Rightarrow> bool" where
  "key_is_zero k \<longleftrightarrow> k = zero_key"

section \<open>Lemmas\<close>

lemma key_ok_zero [simp]: "key_ok zero_key"
  by (simp add: key_ok_def zero_key_def)

lemma key_is_zero_zero [simp]: "key_is_zero zero_key"
  by (simp add: key_is_zero_def)

lemma key_public_ok [simp]: "key_ok (key_public smult k)"
  by (simp add: key_public_def key_ok_def Let_def)

lemma ParseKey_string [codec]: "key_ok k \<Longrightarrow> ParseKey (key_string k) = Inr k"
  by (simp add: ParseKey_def key_string_def b64_decode_encode key_ok_def)

lemma ParseHexKey_hex [codec]: "key_ok k \<Longrightarrow> ParseHexKey (key_hex k) = Inr k"
  by (simp add: ParseHexKey_def key_hex_def hex_decode_encode key_ok_def)

lemma ParseKey_ok: "ParseKey s = Inr k \<Longrightarrow> key_ok k"
  by (auto simp: ParseKey_def key_ok_def split: option.splits if_splits)

lemma ParseHexKey_ok: "ParseHexKey s = Inr k \<Longrightarrow> key_ok k"
  by (auto simp: ParseHexKey_def key_ok_def split: option.splits if_splits)

lemma ParseHexKey_length: "ParseHexKey s = Inr k \<Longrightarrow> length s = 64"
  by (auto simp: ParseHexKey_def split: option.splits if_splits dest: hex_decode_length)

lemma key_string_inj: "key_ok k \<Longrightarrow> key_ok l \<Longrightarrow> key_string k = key_string l \<longleftrightarrow> k = l"
  by (metis ParseKey_string Inr_inject)

lemma key_string_text: "c \<in> set (key_string k) \<Longrightarrow> b64_text c"
  unfolding key_string_def by (rule b64_encode_text)

lemma key_string_nonempty: "key_ok k \<Longrightarrow> key_string k \<noteq> []"
proof -
  assume "key_ok k"
  then obtain x y z rest where "k = x # y # z # rest"
    by (auto simp: key_ok_def numeral_eq_Suc length_Suc_conv)
  then show ?thesis by (simp add: key_string_def Let_def)
qed

text \<open>The clamping of X25519: what the three assignments establish.\<close>

definition clamped :: "key \<Rightarrow> bool" where
  "clamped k \<longleftrightarrow>
     key_ok k \<and> (k ! 0) AND 7 = 0 \<and> \<not> bit (k ! 31) 7 \<and> bit (k ! 31) 6"

lemma GeneratePrivateKey_value:
  "GeneratePrivateKey (Some k0) =
     Inr (k0[0 := (k0 ! 0) AND 248, 31 := ((k0[0 := (k0 ! 0) AND 248]) ! 31 AND 127) OR 64])"
  if "length k0 = 32"
  using that by (simp add: GeneratePrivateKey_def Let_def)

lemma and_248_7: "((x :: u8) AND 248) AND 7 = 0"
proof -
  have "(248 :: u8) AND 7 = 0" by simp
  then show ?thesis by (simp add: and.assoc)
qed

lemma bit_127: "\<not> bit (127 :: u8) 7" "\<not> bit (64 :: u8) 7" "bit (64 :: u8) 6"
  by simp_all

lemma GeneratePrivateKey_clamped:
  assumes "length k0 = 32" and "GeneratePrivateKey (Some k0) = Inr k"
  shows "clamped k"
  using assms by (auto simp: GeneratePrivateKey_value clamped_def key_ok_def and_248_7 bit_or_iff bit_and_iff)

text \<open>Only the five clamped bits may differ from the random bytes.\<close>

lemma GeneratePrivateKey_middle:
  assumes "length k0 = 32" and "GeneratePrivateKey (Some k0) = Inr k" and "0 < i" and "i < 31"
  shows "k ! i = k0 ! i"
  using assms by (auto simp: GeneratePrivateKey_value)

lemma clamped_not_zero: "clamped k \<Longrightarrow> \<not> key_is_zero k"
  by (auto simp: clamped_def key_is_zero_def zero_key_def)

section \<open>Properties\<close>

text \<open>C37. A generated private key is clamped as X25519 demands, keeps the 30 middle bytes of the random source,
  is never the zero key that means \<open>unset\<close>, and survives its base64 and hexadecimal forms.\<close>

theorem generated_key:
  assumes "length k0 = 32" and "GeneratePrivateKey (Some k0) = Inr k"
  shows "clamped k \<and> (\<forall>i \<in> {1..30}. k ! i = k0 ! i) \<and> \<not> key_is_zero k \<and>
         ParseKey (key_string k) = Inr k \<and> ParseHexKey (key_hex k) = Inr k"
proof -
  have c: "clamped k" by (rule GeneratePrivateKey_clamped [OF assms])
  moreover have "\<forall>i \<in> {1..30}. k ! i = k0 ! i" using GeneratePrivateKey_middle [OF assms] by auto
  ultimately show ?thesis by (simp add: clamped_not_zero ParseKey_string ParseHexKey_hex clamped_def)
qed

theorem generated_key_witness:
  "clamped ((replicate 32 255)[0 := 248, 31 := 127]) \<and>
   \<not> key_is_zero ((replicate 32 255)[0 := 248, 31 := 127])"
proof -
  have "GeneratePrivateKey (Some (replicate 32 255)) = Inr ((replicate 32 255)[0 := 248, 31 := 127])"
    by (simp add: GeneratePrivateKey_value)
  with generated_key [of "replicate 32 255"] show ?thesis by simp
qed

end
