(* ===== verification/Awg_Params.thy ===== *)
theory Awg_Params
  imports Awg_Key
begin

text \<open>
  \<open>internal/awgconf/params.go\<close>: the AmneziaWG header ranges and obfuscation parameters, and their
  rendering as UAPI lines. The record \<open>params\<close> is \<open>Params\<close>; its five signature strings are a list of
  length 5 (\<open>params_ok\<close>).
\<close>

record range =
  r_lo :: u32
  r_hi :: u32

datatype range_error = RangeNumber num_error | RangeOrder

definition show_u16 :: "u16 \<Rightarrow> string" where "show_u16 w = show_nat (unat w)"
definition show_u32 :: "u32 \<Rightarrow> string" where "show_u32 w = show_nat (unat w)"

definition zero_range :: range where
  "zero_range = \<lparr>r_lo = 0, r_hi = 0\<rparr>"

definition ParseRange :: "string \<Rightarrow> range_error + range" where
  "ParseRange s =
     (let (lo, hi) = (case cut (CHR ''-'') s of None \<Rightarrow> (s, s) | Some p \<Rightarrow> p)
      in case parse_uint 32 (trim_space lo) of
           Inl e \<Rightarrow> Inl (RangeNumber e)
         | Inr l \<Rightarrow>
             (case parse_uint 32 (trim_space hi) of
                Inl e \<Rightarrow> Inl (RangeNumber e)
              | Inr h \<Rightarrow>
                  if l > h then Inl RangeOrder
                  else Inr \<lparr>r_lo = of_nat l, r_hi = of_nat h\<rparr>))"

definition range_string :: "range \<Rightarrow> string" where
  "range_string r =
     (if r_lo r = r_hi r then show_u32 (r_lo r)
      else show_u32 (r_lo r) @ ''-'' @ show_u32 (r_hi r))"

definition range_is_zero :: "range \<Rightarrow> bool" where
  "range_is_zero r \<longleftrightarrow> r = zero_range"

definition range_ok :: "range \<Rightarrow> bool" where
  "range_ok r \<longleftrightarrow> r_lo r \<le> r_hi r"

record params =
  Jc :: u32
  Jmin :: u32
  Jmax :: u32
  S1 :: u16
  S2 :: u16
  S3 :: u16
  S4 :: u16
  H1 :: range
  H2 :: range
  H3 :: range
  H4 :: range
  I_specs :: "string list"

definition zero_params :: params where
  "zero_params =
     \<lparr>Jc = 0, Jmin = 0, Jmax = 0, S1 = 0, S2 = 0, S3 = 0, S4 = 0,
      H1 = zero_range, H2 = zero_range, H3 = zero_range, H4 = zero_range,
      I_specs = replicate 5 []\<rparr>"

definition params_ok :: "params \<Rightarrow> bool" where
  "params_ok p \<longleftrightarrow> length (I_specs p) = 5"

text \<open>\<open>Params.UAPI\<close>: one \<open>key=value\<close> line per parameter that is set (\<open>s1\<close> to \<open>s4\<close> always).\<close>

definition uapi_line :: "string \<Rightarrow> string \<Rightarrow> string" where
  "uapi_line k v = k @ ''='' @ v @ [CHR 0x0A]"

definition numbered :: "string \<Rightarrow> nat \<Rightarrow> string" where
  "numbered k i = k @ show_nat (Suc i)"

definition params_uapi :: "params \<Rightarrow> string" where
  "params_uapi p =
     (if Jc p \<noteq> 0 \<or> Jmin p \<noteq> 0 \<or> Jmax p \<noteq> 0
      then uapi_line ''jc'' (show_u32 (Jc p)) @ uapi_line ''jmin'' (show_u32 (Jmin p)) @
           uapi_line ''jmax'' (show_u32 (Jmax p))
      else []) @
     uapi_line ''s1'' (show_u16 (S1 p)) @ uapi_line ''s2'' (show_u16 (S2 p)) @
     uapi_line ''s3'' (show_u16 (S3 p)) @ uapi_line ''s4'' (show_u16 (S4 p)) @
     concat (map (\<lambda>(i, r). if range_is_zero r then [] else uapi_line (numbered ''h'' i) (range_string r))
       (enumerate 0 [H1 p, H2 p, H3 p, H4 p])) @
     concat (map (\<lambda>(i, v). if v = [] then [] else uapi_line (numbered ''i'' i) v)
       (enumerate 0 (I_specs p)))"

section \<open>Text of numbers\<close>

lemma trim_space_id:
  assumes "s = [] \<or> (\<not> is_space (hd s) \<and> \<not> is_space (last s))"
  shows "trim_space s = s"
proof (cases "s = []")
  case False
  with assms have "trim_left s = s" by (cases s) (auto simp: trim_left_def)
  moreover have "trim_left (rev s) = rev s"
    using assms False by (cases s rule: rev_cases) (auto simp: trim_left_def)
  ultimately show ?thesis by (simp add: trim_space_def)
qed (simp add: trim_space_def trim_left_def)

lemma trim_space_no_space: "\<forall>c \<in> set s. \<not> is_space c \<Longrightarrow> trim_space s = s"
  by (rule trim_space_id) (cases "s = []", auto)

lemma digit_not_space: "is_digit c \<Longrightarrow> \<not> is_space c"
  by (auto simp: is_digit_def is_space_def)

lemma trim_show_nat [simp]: "trim_space (show_nat n) = show_nat n"
  by (rule trim_space_no_space) (auto dest: show_nat_digits digit_not_space)

lemma parse_u16 [codec]: "parse_uint 16 (show_u16 w) = Inr (unat w)"
  unfolding show_u16_def by (rule parse_uint_show_nat) (use unat_u16 [of w] in simp)

lemma parse_u32 [codec]: "parse_uint 32 (show_u32 w) = Inr (unat w)"
  unfolding show_u32_def by (rule parse_uint_show_nat) (use unat_u32 [of w] in simp)

lemma show_u32_digits: "c \<in> set (show_u32 w) \<Longrightarrow> is_digit c"
  unfolding show_u32_def by (rule show_nat_digits)

lemma show_u16_digits: "c \<in> set (show_u16 w) \<Longrightarrow> is_digit c"
  unfolding show_u16_def by (rule show_nat_digits)

lemma show_u_nonempty [simp]: "show_u16 v \<noteq> []" "show_u32 w \<noteq> []"
  by (simp_all add: show_u16_def show_u32_def)

lemma trim_show_u32 [simp]: "trim_space (show_u32 w) = show_u32 w"
  by (simp add: show_u32_def)

lemma dash_show_u32: "CHR ''-'' \<notin> set (show_u32 w)"
  by (auto dest!: show_u32_digits simp: is_digit_def)

section \<open>Ranges\<close>

lemma ParseRange_string [codec]:
  assumes "range_ok r"
  shows "ParseRange (range_string r) = Inr r"
proof (cases "r_lo r = r_hi r")
  case True
  moreover have "cut (CHR ''-'') (show_u32 (r_hi r)) = None"
    using dash_show_u32 by (simp add: cut_None_iff)
  ultimately show ?thesis
    by (simp add: ParseRange_def range_string_def parse_u32)
next
  case False
  have "cut (CHR ''-'') (show_u32 (r_lo r) @ CHR ''-'' # show_u32 (r_hi r)) =
      Some (show_u32 (r_lo r), show_u32 (r_hi r))"
    by (rule cut_append) (rule dash_show_u32)
  with False assms show ?thesis
    by (simp add: ParseRange_def range_string_def parse_u32 range_ok_def word_le_nat_alt)
qed

lemma ParseRange_ok: "ParseRange s = Inr r \<Longrightarrow> range_ok r"
proof -
  assume "ParseRange s = Inr r"
  then obtain lo hi l h where "parse_uint 32 lo = Inr l" "parse_uint 32 hi = Inr h" "l \<le> h"
    and r: "r = \<lparr>r_lo = of_nat l, r_hi = of_nat h\<rparr>"
    by (auto simp: ParseRange_def Let_def split: prod.splits sum.splits if_splits)
  then have "l < 2 ^ 32" "h < 2 ^ 32" "l \<le> h" by (auto dest: parse_uint_bound)
  then show ?thesis by (simp add: range_ok_def r word_le_nat_alt unat_of_nat)
qed

lemma zero_range_ok [simp]: "range_ok zero_range"
  by (simp add: range_ok_def zero_range_def)

lemma zero_params_ok [simp]: "params_ok zero_params"
  by (simp add: params_ok_def zero_params_def)

section \<open>Properties\<close>

text \<open>A header range that \<open>ParseRange\<close> accepts is ordered, and rendering it and parsing the text again
  gives the same range, in both the single-number and the \<open>lo-hi\<close> form.\<close>

theorem range_roundtrip:
  assumes "ParseRange s = Inr r"
  shows "range_ok r \<and> ParseRange (range_string r) = Inr r"
  using ParseRange_ok [OF assms] by (simp add: ParseRange_string)

theorem range_roundtrip_witness: "ParseRange (range_string \<lparr>r_lo = 5, r_hi = 9\<rparr>) = Inr \<lparr>r_lo = 5, r_hi = 9\<rparr>"
proof -
  have "ParseRange (range_string \<lparr>r_lo = 5, r_hi = 9\<rparr>) = Inr \<lparr>r_lo = 5, r_hi = 9\<rparr>"
    by (rule ParseRange_string) (simp add: range_ok_def)
  then show ?thesis using range_roundtrip by blast
qed

end
