(* ===== verification/Awg_Wire.thy ===== *)
theory Awg_Wire
  imports Awg_Params
begin

text \<open>
  \<open>internal/awgconf/wire.go\<close>: the size checks that keep the pinned sender from building an oversized
  or negative buffer. \<open>tag_sizes\<close> is the loop of \<open>checkSignature\<close> that reads the tags (\<open>None\<close> is its early
  \<open>return nil\<close>: the runtime ignores or refuses the string), \<open>sum_sizes\<close> the loop that adds them up.
\<close>

definition initiationSize :: int where "initiationSize = 148"
definition responseSize :: int where "responseSize = 92"
definition cookieReplySize :: int where "cookieReplySize = 64"

datatype sig_error = NegativeTag int | PacketTooBig int

datatype wire_error =
    PaddingTooBig string int
  | BadSignature nat sig_error

text \<open>The size of one tag; \<open>None\<close> where the loop returns.\<close>

definition tag_size :: "string \<Rightarrow> string \<Rightarrow> int option" where
  "tag_size name val =
     (if name = ''t'' then Some 4
      else if name = ''d'' \<or> name = ''ds'' then Some 0
      else if name = ''b'' then
        (case hex_decode (trim_prefix val ''0x'') of
           None \<Rightarrow> None
         | Some b \<Rightarrow> if b = [] then None else Some (int (length b)))
      else if name = ''r'' \<or> name = ''rc'' \<or> name = ''rd'' \<or> name = ''dz'' then
        (case atoi val of Inl e \<Rightarrow> None | Inr n \<Rightarrow> Some n)
      else None)"

lemma cut_length: "cut c s = Some (a, b) \<Longrightarrow> length a + length b < length s"
  by (induction s arbitrary: a) (auto split: if_splits)

function tag_sizes :: "int list \<Rightarrow> string \<Rightarrow> int list option" where
  "tag_sizes sizes spec =
     (case cut (CHR ''<'') spec of
        None \<Rightarrow> Some sizes
      | Some (_, rest) \<Rightarrow>
          (case cut (CHR ''>'') rest of
             None \<Rightarrow> None
           | Some (body, spec') \<Rightarrow>
               (case str_fields body of
                  [] \<Rightarrow> None
                | name # args \<Rightarrow>
                    (case tag_size name (case args of [] \<Rightarrow> [] | v # _ \<Rightarrow> v) of
                       None \<Rightarrow> None
                     | Some n \<Rightarrow> tag_sizes (sizes @ [n]) spec'))))"
  by pat_completeness auto
termination
  by (relation "measure (\<lambda>(sizes, spec). length spec)") (auto dest!: cut_length)

declare tag_sizes.simps [simp del]

fun sum_sizes :: "int \<Rightarrow> int \<Rightarrow> int list \<Rightarrow> sig_error option" where
  "sum_sizes payloadMax tot [] = None"
| "sum_sizes payloadMax tot (n # ns) =
     (if n < 0 then Some (NegativeTag n)
      else if n > payloadMax - tot then Some (PacketTooBig payloadMax)
      else sum_sizes payloadMax (tot + n) ns)"

definition check_signature :: "string \<Rightarrow> int \<Rightarrow> sig_error option" where
  "check_signature spec payloadMax =
     (case tag_sizes [] spec of None \<Rightarrow> None | Some sizes \<Rightarrow> sum_sizes payloadMax 0 sizes)"

text \<open>\<open>CheckWireSizes\<close>: the three padded messages, then the five signature strings.\<close>

fun check_paddings :: "int \<Rightarrow> (string \<times> u16 \<times> int) list \<Rightarrow> wire_error option" where
  "check_paddings payloadMax [] = None"
| "check_paddings payloadMax ((name, padding, message) # ps) =
     (if uint padding + message > payloadMax then Some (PaddingTooBig name payloadMax)
      else check_paddings payloadMax ps)"

fun check_signatures :: "int \<Rightarrow> nat \<Rightarrow> string list \<Rightarrow> wire_error option" where
  "check_signatures payloadMax i [] = None"
| "check_signatures payloadMax i (spec # specs) =
     (case check_signature spec payloadMax of
        Some e \<Rightarrow> Some (BadSignature (Suc i) e)
      | None \<Rightarrow> check_signatures payloadMax (Suc i) specs)"

definition check_wire_sizes :: "params \<Rightarrow> int \<Rightarrow> wire_error option" where
  "check_wire_sizes p payloadMax =
     (case check_paddings payloadMax
             [(''S1'', S1 p, initiationSize), (''S2'', S2 p, responseSize), (''S3'', S3 p, cookieReplySize)] of
        Some e \<Rightarrow> Some e
      | None \<Rightarrow> check_signatures payloadMax 0 (I_specs p))"

section \<open>What acceptance means\<close>

lemma sum_sizes_None_iff:
  "tot \<le> payloadMax \<Longrightarrow>
   sum_sizes payloadMax tot ns = None \<longleftrightarrow>
     (\<forall>n \<in> set ns. 0 \<le> n) \<and> tot + sum_list ns \<le> payloadMax"
proof (induction ns arbitrary: tot)
  case (Cons n ns)
  have pos: "(\<forall>n \<in> set ns. 0 \<le> n) \<Longrightarrow> 0 \<le> sum_list ns" by (rule sum_list_nonneg) blast
  show ?case
  proof (cases "0 \<le> n \<and> n \<le> payloadMax - tot")
    case True
    with Cons.IH [of "tot + n"] show ?thesis by (auto simp: add.assoc)
  next
    case False
    with Cons.prems pos show ?thesis by auto
  qed
qed simp

text \<open>
  \<open>packet_sizes\<close>: the buffer the runtime allocates for a signature string is the sum of its tag
  sizes, provided every tag is well formed.
\<close>

definition signature_fits :: "int \<Rightarrow> string \<Rightarrow> bool" where
  "signature_fits payloadMax spec \<longleftrightarrow>
     (case tag_sizes [] spec of
        None \<Rightarrow> True
      | Some sizes \<Rightarrow> (\<forall>n \<in> set sizes. 0 \<le> n) \<and> sum_list sizes \<le> payloadMax)"

lemma check_signature_iff:
  "0 \<le> payloadMax \<Longrightarrow> check_signature spec payloadMax = None \<longleftrightarrow> signature_fits payloadMax spec"
  by (auto simp: check_signature_def signature_fits_def sum_sizes_None_iff split: option.splits)

lemma check_signatures_iff:
  "0 \<le> payloadMax \<Longrightarrow>
   check_signatures payloadMax i specs = None \<longleftrightarrow> (\<forall>spec \<in> set specs. signature_fits payloadMax spec)"
  by (induction specs arbitrary: i) (auto simp: check_signature_iff [symmetric] split: option.splits)

definition wire_fits :: "int \<Rightarrow> params \<Rightarrow> bool" where
  "wire_fits payloadMax p \<longleftrightarrow>
     uint (S1 p) + 148 \<le> payloadMax \<and> uint (S2 p) + 92 \<le> payloadMax \<and> uint (S3 p) + 64 \<le> payloadMax \<and>
     (\<forall>spec \<in> set (I_specs p). signature_fits payloadMax spec)"

lemma check_wire_sizes_iff:
  "0 \<le> payloadMax \<Longrightarrow> check_wire_sizes p payloadMax = None \<longleftrightarrow> wire_fits payloadMax p"
  by (auto simp: check_wire_sizes_def wire_fits_def check_signatures_iff initiationSize_def
      responseSize_def cookieReplySize_def)

lemma signature_fits_mono: "signature_fits m spec \<Longrightarrow> m \<le> n \<Longrightarrow> signature_fits n spec"
  by (auto simp: signature_fits_def split: option.splits)

lemma wire_fits_mono: "wire_fits m p \<Longrightarrow> m \<le> n \<Longrightarrow> wire_fits n p"
  by (auto simp: wire_fits_def intro: signature_fits_mono)

lemma signature_fits_no_tags: "CHR ''<'' \<notin> set spec \<Longrightarrow> 0 \<le> m \<Longrightarrow> signature_fits m spec"
  by (simp add: signature_fits_def tag_sizes.simps cut_None_iff [THEN iffD2])

section \<open>Properties\<close>

text \<open>C17. \<open>CheckWireSizes\<close> accepts exactly the parameters whose padded handshake messages fit the UDP payload
  and whose signature strings build packets with nonnegative tag sizes that together fit it.\<close>

theorem wire_sizes_exact:
  assumes "0 \<le> payloadMax"
  shows "check_wire_sizes p payloadMax = None \<longleftrightarrow> wire_fits payloadMax p"
  using assms by (rule check_wire_sizes_iff)

theorem wire_sizes_exact_witness: "check_wire_sizes (zero_params\<lparr>S1 := 65400\<rparr>) 65507 \<noteq> None"
  using wire_sizes_exact [of 65507 "zero_params\<lparr>S1 := 65400\<rparr>"] by (simp add: wire_fits_def)

end
