(* ===== verification/Awg_Config.thy ===== *)
theory Awg_Config
  imports Awg_Wire Netip
begin

text \<open>
  \<open>internal/awgconf/config.go\<close>: AmneziaWG configuration files. \<open>awg_parse\<close> is \<open>Parse\<close> (its line
  loop is \<open>parse_loop\<close> over the body \<open>parse_line\<close>, its final checks \<open>validate_config\<close>),
  \<open>iface_set\<close> and \<open>peer_set\<close> are the two \<open>set\<close> methods, \<open>config_string\<close> is \<open>String\<close> and \<open>config_uapi\<close>,
  \<open>peer_uapi\<close> are the \<open>UAPI\<close> renderers. The pointer \<open>peer\<close> of \<open>Parse\<close> always points at the last element of
  \<open>cfg.Peers\<close>, so writing through it updates the last peer.
\<close>

record iface =
  i_priv :: key
  i_addresses :: "prefix list"
  i_dns :: "addr list"
  i_port :: u16
  i_mtu :: int
  i_params :: params

record awg_peer =
  p_pub :: key
  p_psk :: key
  p_endpoint :: string
  p_allowed :: "prefix list"
  p_keepalive :: u32

record awg_config =
  c_iface :: iface
  c_peers :: "awg_peer list"

datatype awg_error =
    AtLine nat awg_error
  | UnknownSection string
  | ExpectedKeyValue
  | OutsideSection
  | UnsupportedKey string string
  | InField string awg_error
  | KeyErr key_error
  | NumErr num_error
  | RangeErr range_error
  | AddrErr
  | LineTooLong
  | NoPrivateKey
  | NoPublicKey nat
  | JminAboveJmax
  | TooManyPackets
  | JunkTooBig
  | WireErr wire_error

definition zero_iface :: iface where
  "zero_iface = \<lparr>i_priv = zero_key, i_addresses = [], i_dns = [], i_port = 0, i_mtu = 0, i_params = zero_params\<rparr>"

definition zero_peer :: awg_peer where
  "zero_peer = \<lparr>p_pub = zero_key, p_psk = zero_key, p_endpoint = [], p_allowed = [], p_keepalive = 0\<rparr>"

definition zero_config :: awg_config where
  "zero_config = \<lparr>c_iface = zero_iface, c_peers = []\<rparr>"

section \<open>Field parsers\<close>

definition parseUint16 :: "string \<Rightarrow> awg_error + u16" where
  "parseUint16 s = (case parse_uint 16 s of Inl e \<Rightarrow> Inl (NumErr e) | Inr n \<Rightarrow> Inr (of_nat n))"

definition parseUint32 :: "string \<Rightarrow> awg_error + u32" where
  "parseUint32 s = (case parse_uint 32 s of Inl e \<Rightarrow> Inl (NumErr e) | Inr n \<Rightarrow> Inr (of_nat n))"

definition parsePrefix :: "string \<Rightarrow> awg_error + prefix" where
  "parsePrefix s =
     (case parse_prefix s of
        Some p \<Rightarrow> Inr p
      | None \<Rightarrow> (case parse_addr s of
                  None \<Rightarrow> Inl AddrErr
                | Some a \<Rightarrow> Inr (prefix_from a (bit_len a))))"

definition parseAddr :: "string \<Rightarrow> awg_error + addr" where
  "parseAddr s = (case parse_addr s of None \<Rightarrow> Inl AddrErr | Some a \<Rightarrow> Inr a)"

definition parseList :: "string \<Rightarrow> (string \<Rightarrow> awg_error + 'a) \<Rightarrow> awg_error + 'a list" where
  "parseList s parse = traverse (\<lambda>item. parse (trim_space item)) (split_on (CHR '','') s)"

definition set_field :: "string \<Rightarrow> ('x \<Rightarrow> 'r) \<Rightarrow> awg_error + 'x \<Rightarrow> awg_error + 'r" where
  "set_field key put r = (case r of Inl e \<Rightarrow> Inl (InField key e) | Inr v \<Rightarrow> Inr (put v))"

definition ignoredKeys :: "string list" where
  "ignoredKeys = [''table'', ''preup'', ''postup'', ''predown'', ''postdown'', ''saveconfig'', ''fwmark'']"

definition put_params :: "(params \<Rightarrow> params) \<Rightarrow> iface \<Rightarrow> iface" where
  "put_params f i = i\<lparr>i_params := f (i_params i)\<rparr>"

definition iface_set :: "string \<Rightarrow> string \<Rightarrow> iface \<Rightarrow> awg_error + iface" where
  "iface_set key value i =
     (if key = ''privatekey'' then
        set_field key (\<lambda>v. i\<lparr>i_priv := v\<rparr>) (wrap_err KeyErr (ParseKey value))
      else if key = ''address'' then
        set_field key (\<lambda>v. i\<lparr>i_addresses := v\<rparr>) (parseList value parsePrefix)
      else if key = ''dns'' then
        set_field key (\<lambda>v. i\<lparr>i_dns := v\<rparr>) (parseList value parseAddr)
      else if key = ''listenport'' then
        set_field key (\<lambda>v. i\<lparr>i_port := v\<rparr>) (parseUint16 value)
      else if key = ''mtu'' then
        set_field key (\<lambda>v. i\<lparr>i_mtu := v\<rparr>) (wrap_err NumErr (atoi value))
      else if key = ''jc'' then
        set_field key (\<lambda>v. put_params (\<lambda>p. p\<lparr>Jc := v\<rparr>) i) (parseUint32 value)
      else if key = ''jmin'' then
        set_field key (\<lambda>v. put_params (\<lambda>p. p\<lparr>Jmin := v\<rparr>) i) (parseUint32 value)
      else if key = ''jmax'' then
        set_field key (\<lambda>v. put_params (\<lambda>p. p\<lparr>Jmax := v\<rparr>) i) (parseUint32 value)
      else if key = ''s1'' then
        set_field key (\<lambda>v. put_params (\<lambda>p. p\<lparr>S1 := v\<rparr>) i) (parseUint16 value)
      else if key = ''s2'' then
        set_field key (\<lambda>v. put_params (\<lambda>p. p\<lparr>S2 := v\<rparr>) i) (parseUint16 value)
      else if key = ''s3'' then
        set_field key (\<lambda>v. put_params (\<lambda>p. p\<lparr>S3 := v\<rparr>) i) (parseUint16 value)
      else if key = ''s4'' then
        set_field key (\<lambda>v. put_params (\<lambda>p. p\<lparr>S4 := v\<rparr>) i) (parseUint16 value)
      else if key = ''h1'' then
        set_field key (\<lambda>v. put_params (\<lambda>p. p\<lparr>H1 := v\<rparr>) i) (wrap_err RangeErr (ParseRange value))
      else if key = ''h2'' then
        set_field key (\<lambda>v. put_params (\<lambda>p. p\<lparr>H2 := v\<rparr>) i) (wrap_err RangeErr (ParseRange value))
      else if key = ''h3'' then
        set_field key (\<lambda>v. put_params (\<lambda>p. p\<lparr>H3 := v\<rparr>) i) (wrap_err RangeErr (ParseRange value))
      else if key = ''h4'' then
        set_field key (\<lambda>v. put_params (\<lambda>p. p\<lparr>H4 := v\<rparr>) i) (wrap_err RangeErr (ParseRange value))
      else if key \<in> set [''i1'', ''i2'', ''i3'', ''i4'', ''i5''] then
        Inr (put_params (\<lambda>p. p\<lparr>I_specs := (I_specs p)[digit_val (key ! 1) - 1 := value]\<rparr>) i)
      else if key \<in> set ignoredKeys then Inr i
      else Inl (UnsupportedKey ''[Interface]'' key))"

definition peer_set :: "string \<Rightarrow> string \<Rightarrow> awg_peer \<Rightarrow> awg_error + awg_peer" where
  "peer_set key value p =
     (if key = ''publickey'' then
        set_field key (\<lambda>v. p\<lparr>p_pub := v\<rparr>) (wrap_err KeyErr (ParseKey value))
      else if key = ''presharedkey'' then
        set_field key (\<lambda>v. p\<lparr>p_psk := v\<rparr>) (wrap_err KeyErr (ParseKey value))
      else if key = ''endpoint'' then Inr (p\<lparr>p_endpoint := value\<rparr>)
      else if key = ''allowedips'' then
        set_field key (\<lambda>v. p\<lparr>p_allowed := v\<rparr>) (parseList value parsePrefix)
      else if key = ''persistentkeepalive'' then
        set_field key (\<lambda>v. p\<lparr>p_keepalive := v\<rparr>) (parseUint32 value)
      else Inl (UnsupportedKey ''[Peer]'' key))"

section \<open>The line loop\<close>

definition strip_comment :: "string \<Rightarrow> string" where
  "strip_comment raw =
     (let line = trim_space raw
      in case cut (CHR ''#'') line of None \<Rightarrow> line | Some (front, _) \<Rightarrow> trim_space front)"

definition set_last :: "('a \<Rightarrow> 'e + 'a) \<Rightarrow> 'a list \<Rightarrow> 'e + 'a list" where
  "set_last f xs = rmap (\<lambda>x. butlast xs @ [x]) (f (last xs))"

definition set_in_section :: "string \<Rightarrow> string \<Rightarrow> string \<Rightarrow> awg_config \<Rightarrow> awg_error + awg_config" where
  "set_in_section sect key value cfg =
     (if sect = ''interface'' then rmap (\<lambda>i. cfg\<lparr>c_iface := i\<rparr>) (iface_set key value (c_iface cfg))
      else if sect = ''peer'' then
        rmap (\<lambda>ps. cfg\<lparr>c_peers := ps\<rparr>) (set_last (peer_set key value) (c_peers cfg))
      else Inl OutsideSection)"

definition parse_line :: "nat \<Rightarrow> string \<times> awg_config \<Rightarrow> string \<Rightarrow> awg_error + string \<times> awg_config" where
  "parse_line n st raw =
     (let (sect, cfg) = st; line = strip_comment raw
      in if line = [] then Inr (sect, cfg)
         else if has_prefix line ''['' \<and> has_suffix line '']'' then
           (let sect' = to_lower (butlast (tl line))
            in if sect' = ''interface'' then Inr (sect', cfg)
               else if sect' = ''peer'' then Inr (sect', cfg\<lparr>c_peers := c_peers cfg @ [zero_peer]\<rparr>)
               else Inl (AtLine n (UnknownSection line)))
         else case cut (CHR ''='') line of
                None \<Rightarrow> Inl (AtLine n ExpectedKeyValue)
              | Some (k, v) \<Rightarrow>
                  (case set_in_section sect (to_lower (trim_space k)) (trim_space v) cfg of
                     Inl e \<Rightarrow> Inl (AtLine n e)
                   | Inr cfg' \<Rightarrow> Inr (sect, cfg')))"

fun parse_loop :: "nat \<Rightarrow> string \<times> awg_config \<Rightarrow> string list \<Rightarrow> awg_error + string \<times> awg_config" where
  "parse_loop n st [] = Inr st"
| "parse_loop n st (l # ls) =
     (case parse_line n st l of Inl e \<Rightarrow> Inl e | Inr st' \<Rightarrow> parse_loop (Suc n) st' ls)"

section \<open>The final checks\<close>

fun check_public_keys :: "nat \<Rightarrow> awg_peer list \<Rightarrow> awg_error option" where
  "check_public_keys i [] = None"
| "check_public_keys i (p # ps) =
     (if key_is_zero (p_pub p) then Some (NoPublicKey (Suc i)) else check_public_keys (Suc i) ps)"

definition junk_packets :: "params \<Rightarrow> nat" where
  "junk_packets p =
     unat (Jc p) + 1 + length (filter (\<lambda>spec. contains_byte spec (CHR ''<'')) (I_specs p))"

definition largest_junk :: "params \<Rightarrow> u32" where
  "largest_junk p = (if Jmin p < Jmax p then Jmax p - 1 else Jmax p)"

definition check_junk :: "params \<Rightarrow> awg_error option" where
  "check_junk p =
     (if Jc p > 0 then
        (if Jmin p > Jmax p then Some JminAboveJmax
         else if junk_packets p > 128 then Some TooManyPackets
         else if largest_junk p > 65527 then Some JunkTooBig
         else None)
      else None)"

definition validate_config :: "awg_config \<Rightarrow> awg_error option" where
  "validate_config cfg =
     (if key_is_zero (i_priv (c_iface cfg)) then Some NoPrivateKey
      else case check_public_keys 0 (c_peers cfg) of
             Some e \<Rightarrow> Some e
           | None \<Rightarrow>
               (case check_junk (i_params (c_iface cfg)) of
                  Some e \<Rightarrow> Some e
                | None \<Rightarrow> map_option WireErr (check_wire_sizes (i_params (c_iface cfg)) 65527)))"

definition awg_parse :: "string \<Rightarrow> awg_error + awg_config" where
  "awg_parse text =
     (let (ls, too_long) = scan_lines text
      in case parse_loop 1 ([], zero_config) ls of
           Inl e \<Rightarrow> Inl e
         | Inr (_, cfg) \<Rightarrow>
             if too_long then Inl LineTooLong
             else (case validate_config cfg of Some e \<Rightarrow> Inl e | None \<Rightarrow> Inr cfg))"

section \<open>Rendering\<close>

definition conf_line :: "string \<Rightarrow> string \<Rightarrow> string" where
  "conf_line k v = k @ '' = '' @ v"

definition conf_opt :: "bool \<Rightarrow> string \<Rightarrow> string \<Rightarrow> string list" where
  "conf_opt b k v = (if b then [conf_line k v] else [])"

definition joinList :: "('a \<Rightarrow> string) \<Rightarrow> 'a list \<Rightarrow> string" where
  "joinList sh items = join '', '' (map sh items)"

definition iface_lines :: "iface \<Rightarrow> string list" where
  "iface_lines i =
     (let p = i_params i
      in [''[Interface]'', conf_line ''PrivateKey'' (key_string (i_priv i))] @
         conf_opt (length (i_addresses i) > 0) ''Address'' (joinList show_prefix (i_addresses i)) @
         conf_opt (length (i_dns i) > 0) ''DNS'' (joinList show_addr (i_dns i)) @
         conf_opt (i_port i \<noteq> 0) ''ListenPort'' (show_u16 (i_port i)) @
         conf_opt (i_mtu i \<noteq> 0) ''MTU'' (show_int (i_mtu i)) @
         (let junk = (Jc p \<noteq> 0 \<or> Jmin p \<noteq> 0 \<or> Jmax p \<noteq> 0)
          in conf_opt junk ''Jc'' (show_u32 (Jc p)) @ conf_opt junk ''Jmin'' (show_u32 (Jmin p)) @
             conf_opt junk ''Jmax'' (show_u32 (Jmax p))) @
         [conf_line ''S1'' (show_u16 (S1 p)), conf_line ''S2'' (show_u16 (S2 p)),
          conf_line ''S3'' (show_u16 (S3 p)), conf_line ''S4'' (show_u16 (S4 p))] @
         concat (map (\<lambda>(n, r). conf_opt (\<not> range_is_zero r) (numbered ''H'' n) (range_string r))
           (enumerate 0 [H1 p, H2 p, H3 p, H4 p])) @
         concat (map (\<lambda>(n, v). conf_opt (v \<noteq> []) (numbered ''I'' n) v) (enumerate 0 (I_specs p))))"

definition peer_lines :: "awg_peer \<Rightarrow> string list" where
  "peer_lines p =
     [[], ''[Peer]'', conf_line ''PublicKey'' (key_string (p_pub p))] @
     conf_opt (\<not> key_is_zero (p_psk p)) ''PresharedKey'' (key_string (p_psk p)) @
     conf_opt (p_endpoint p \<noteq> []) ''Endpoint'' (p_endpoint p) @
     conf_opt (length (p_allowed p) > 0) ''AllowedIPs'' (joinList show_prefix (p_allowed p)) @
     conf_opt (p_keepalive p \<noteq> 0) ''PersistentKeepalive'' (show_u32 (p_keepalive p))"

definition config_lines :: "awg_config \<Rightarrow> string list" where
  "config_lines c = iface_lines (c_iface c) @ concat (map peer_lines (c_peers c))"

definition with_newlines :: "string list \<Rightarrow> string" where
  "with_newlines ls = concat (map (\<lambda>l. l @ [CHR 0x0A]) ls)"

definition config_string :: "awg_config \<Rightarrow> string" where
  "config_string c = with_newlines (config_lines c)"

definition peer_uapi :: "awg_peer \<Rightarrow> string" where
  "peer_uapi p =
     uapi_line ''public_key'' (key_hex (p_pub p)) @
     (if \<not> key_is_zero (p_psk p) then uapi_line ''preshared_key'' (key_hex (p_psk p)) else []) @
     (if p_endpoint p \<noteq> [] then uapi_line ''endpoint'' (p_endpoint p) else []) @
     uapi_line ''replace_allowed_ips'' ''true'' @
     concat (map (\<lambda>ip. uapi_line ''allowed_ip'' (show_prefix ip)) (p_allowed p)) @
     (if p_keepalive p \<noteq> 0 then uapi_line ''persistent_keepalive_interval'' (show_u32 (p_keepalive p))
      else [])"

definition config_uapi :: "awg_config \<Rightarrow> string" where
  "config_uapi c =
     uapi_line ''private_key'' (key_hex (i_priv (c_iface c))) @
     (if i_port (c_iface c) \<noteq> 0 then uapi_line ''listen_port'' (show_u16 (i_port (c_iface c))) else []) @
     params_uapi (i_params (c_iface c)) @
     concat (map peer_uapi (c_peers c))"

end
