(* ===== verification/Awg_Roundtrip.thy ===== *)
theory Awg_Roundtrip
  imports Awg_Config
begin

text \<open>
  \<open>Parse\<close> inverts \<open>String\<close> on the configurations the program renders. \<open>parse_ok\<close> composes over
  line lists, so the proof follows the renderer: one step per line, each resting on the round trip of
  its field.
\<close>

section \<open>Values and lines\<close>

definition safe_value :: "string \<Rightarrow> bool" where
  "safe_value v \<longleftrightarrow>
     v \<noteq> [] \<and> \<not> is_space (hd v) \<and> \<not> is_space (last v) \<and> CHR ''#'' \<notin> set v \<and> CHR 0x0A \<notin> set v"

definition key_name :: "string \<Rightarrow> bool" where
  "key_name k \<longleftrightarrow>
     k \<noteq> [] \<and> (\<forall>c \<in> set k. \<not> is_space c \<and> c \<noteq> CHR ''#'' \<and> c \<noteq> CHR ''='' \<and> c \<noteq> CHR ''['' \<and> c \<noteq> CHR 0x0A)"

definition line_ok :: "string \<Rightarrow> bool" where
  "line_ok l \<longleftrightarrow> CHR 0x0A \<notin> set l \<and> drop_cr l = l"

definition parse_ok :: "string \<times> awg_config \<Rightarrow> string list \<Rightarrow> string \<times> awg_config \<Rightarrow> bool" where
  "parse_ok st ls st' \<longleftrightarrow> (\<forall>l \<in> set ls. line_ok l) \<and> (\<forall>n. parse_loop n st ls = Inr st')"

lemma parse_loop_append:
  "parse_loop n st (a @ b) =
     (case parse_loop n st a of Inl e \<Rightarrow> Inl e | Inr st' \<Rightarrow> parse_loop (n + length a) st' b)"
  by (induction a arbitrary: n st) (auto split: sum.splits)

lemma parse_ok_Nil [simp]: "parse_ok st [] st' \<longleftrightarrow> st = st'"
  by (auto simp: parse_ok_def)

lemma parse_ok_append: "parse_ok st a st1 \<Longrightarrow> parse_ok st1 b st2 \<Longrightarrow> parse_ok st (a @ b) st2"
  by (auto simp: parse_ok_def parse_loop_append)

lemma parse_ok_Cons: "parse_ok st [l] st1 \<Longrightarrow> parse_ok st1 b st2 \<Longrightarrow> parse_ok st (l # b) st2"
  using parse_ok_append [of st "[l]" st1 b st2] by simp

lemma space_char: "is_space (CHR '' '')" by (simp add: is_space_def)

lemma trim_safe [simp]: "safe_value v \<Longrightarrow> trim_space v = v"
  by (rule trim_space_id) (auto simp: safe_value_def)

lemma trim_space_Cons_space [simp]: "trim_space (CHR '' '' # s) = trim_space s"
  by (simp add: trim_space_def trim_left_def space_char)

lemma trim_key_space: "key_name k \<Longrightarrow> trim_space (k @ '' '') = k"
proof -
  assume k: "key_name k"
  then have "trim_left (k @ '' '') = k @ '' ''"
    by (cases k) (auto simp: key_name_def trim_left_def)
  moreover have "trim_left (rev (k @ '' '')) = rev k"
    using k by (cases k rule: rev_cases) (auto simp: key_name_def trim_left_def space_char)
  ultimately show ?thesis by (simp add: trim_space_def)
qed

lemma conf_line_props:
  assumes k: "key_name k" and v: "safe_value v"
  shows "strip_comment (conf_line k v) = conf_line k v"
    and "\<not> has_prefix (conf_line k v) ''[''"
    and "cut (CHR ''='') (conf_line k v) = Some (k @ '' '', CHR '' '' # v)"
    and "line_ok (conf_line k v)"
proof -
  have t: "trim_space (conf_line k v) = conf_line k v"
    using k v by (intro trim_space_id) (auto simp: conf_line_def key_name_def safe_value_def)
  have h: "CHR ''#'' \<notin> set (conf_line k v)"
    using k v by (auto simp: conf_line_def key_name_def safe_value_def)
  show "strip_comment (conf_line k v) = conf_line k v"
    using h by (simp add: strip_comment_def t cut_None_iff [THEN iffD2])
  show "\<not> has_prefix (conf_line k v) ''[''"
    using k by (cases k) (auto simp: conf_line_def key_name_def has_prefix_def)
  show "cut (CHR ''='') (conf_line k v) = Some (k @ '' '', CHR '' '' # v)"
    using cut_append [of "CHR ''=''" "k @ '' ''" "CHR '' '' # v"] k
    by (auto simp: conf_line_def key_name_def)
  have "is_space (CHR 0x0D)" by (simp add: is_space_def)
  then have "last (conf_line k v) \<noteq> CHR 0x0D"
    using v by (auto simp: conf_line_def safe_value_def)
  moreover have "CHR 0x0A \<notin> set (conf_line k v)"
    using k v by (auto simp: conf_line_def key_name_def safe_value_def)
  ultimately show "line_ok (conf_line k v)"
    by (simp add: line_ok_def drop_cr_def)
qed

lemma parse_ok_kv:
  assumes "key_name k" and "safe_value v"
    and "set_in_section sect (to_lower k) v cfg = Inr cfg'"
  shows "parse_ok (sect, cfg) [conf_line k v] (sect, cfg')"
proof -
  have ne: "conf_line k v \<noteq> []" by (simp add: conf_line_def)
  have "parse_line n (sect, cfg) (conf_line k v) = Inr (sect, cfg')" for n
    using assms ne by (simp add: parse_line_def conf_line_props trim_key_space Let_def)
  then show ?thesis using conf_line_props(4) [OF assms(1,2)] by (simp add: parse_ok_def)
qed

lemma parse_ok_opt:
  assumes "b \<Longrightarrow> parse_ok (s, c) [conf_line k v] (s, c')" and "\<not> b \<Longrightarrow> c' = c"
  shows "parse_ok (s, c) (conf_opt b k v) (s, c')"
  using assms by (cases b) (auto simp: conf_opt_def)

section \<open>Rendered values are safe\<close>

lemma safe_valueI:
  "v \<noteq> [] \<Longrightarrow> \<forall>c \<in> set v. \<not> is_space c \<and> c \<noteq> CHR ''#'' \<and> c \<noteq> CHR 0x0A \<Longrightarrow> safe_value v"
  by (auto simp: safe_value_def)

lemma digit_safe: "is_digit c \<Longrightarrow> \<not> is_space c \<and> c \<noteq> CHR ''#'' \<and> c \<noteq> CHR 0x0A \<and> c \<noteq> CHR '',''"
  by (auto simp: is_digit_def is_space_def)

lemma prefix_text_safe:
  "prefix_text c \<Longrightarrow> \<not> is_space c \<and> c \<noteq> CHR ''#'' \<and> c \<noteq> CHR 0x0A \<and> c \<noteq> CHR '',''"
  by (auto simp: prefix_text_def v4_text_def is_digit_def is_space_def)

lemma safe_key [simp]: "key_ok k \<Longrightarrow> safe_value (key_string k)"
  by (rule safe_valueI) (auto simp: key_string_nonempty dest!: key_string_text b64_text_safe)

lemma safe_u16 [simp]: "safe_value (show_u16 w)"
  by (rule safe_valueI) (auto dest!: show_u16_digits digit_safe)

lemma safe_u32 [simp]: "safe_value (show_u32 w)"
  by (rule safe_valueI) (auto dest!: show_u32_digits digit_safe)

lemma safe_int [simp]: "safe_value (show_int i)"
proof (rule safe_valueI)
  have "\<not> is_space (CHR ''-'')" by (simp add: is_space_def)
  then show "\<forall>c \<in> set (show_int i). \<not> is_space c \<and> c \<noteq> CHR ''#'' \<and> c \<noteq> CHR 0x0A"
    by (auto simp: show_int_def dest!: show_nat_digits digit_safe)
qed (simp add: show_int_def)

lemma safe_range [simp]: "safe_value (range_string r)"
proof (rule safe_valueI)
  have "\<not> is_space (CHR ''-'')" by (simp add: is_space_def)
  then show "\<forall>c \<in> set (range_string r). \<not> is_space c \<and> c \<noteq> CHR ''#'' \<and> c \<noteq> CHR 0x0A"
    by (auto simp: range_string_def dest!: show_u32_digits digit_safe)
qed (simp add: range_string_def)

section \<open>Comma-separated lists\<close>

definition list_item :: "string \<Rightarrow> bool" where
  "list_item s \<longleftrightarrow> safe_value s \<and> CHR '','' \<notin> set s"

lemma split_on_append: "c \<notin> set a \<Longrightarrow> split_on c (a @ c # b) = a # split_on c b"
  by (induction a) auto

lemma split_on_single: "c \<notin> set a \<Longrightarrow> split_on c a = [a]"
  by (induction a) auto

lemma split_on_nonempty: "split_on c s \<noteq> []"
  by (induction s) (auto split: list.splits)

lemma map_trim_split_space:
  "map trim_space (split_on (CHR '','') (CHR '' '' # s)) = map trim_space (split_on (CHR '','') s)"
  using split_on_nonempty [of "CHR '',''" s] by (cases "split_on (CHR '','') s") auto

lemma map_trim_split_join:
  "xs \<noteq> [] \<Longrightarrow> \<forall>x \<in> set xs. list_item x \<Longrightarrow>
   map trim_space (split_on (CHR '','') (join '', '' xs)) = xs"
proof (induction "'', ''" xs rule: join.induct)
  case 1
  then show ?case by simp
next
  case (2 p)
  then show ?case by (simp add: split_on_single list_item_def)
next
  case (3 p q ps)
  then have "CHR '','' \<notin> set p" "safe_value p" by (auto simp: list_item_def)
  then have "map trim_space (split_on (CHR '','') (join '', '' (p # q # ps))) =
      p # map trim_space (split_on (CHR '','') (CHR '' '' # join '', '' (q # ps)))"
    by (simp add: split_on_append del: split_on.simps)
  also have "\<dots> = p # map trim_space (split_on (CHR '','') (join '', '' (q # ps)))"
    by (simp only: map_trim_split_space)
  also have "\<dots> = p # q # ps" using 3 by simp
  finally show ?case .
qed

lemma join_ends:
  "xs \<noteq> [] \<Longrightarrow> \<forall>x \<in> set xs. x \<noteq> [] \<Longrightarrow>
   join sep xs \<noteq> [] \<and> hd (join sep xs) = hd (hd xs) \<and> last (join sep xs) = last (last xs)"
  by (induction sep xs rule: join.induct) auto

lemma join_set: "set (join sep xs) \<subseteq> set sep \<union> \<Union> (set ` set xs)"
  by (induction sep xs rule: join.induct) auto

lemma safe_join [simp]:
  assumes "xs \<noteq> []" and "\<forall>x \<in> set xs. list_item x"
  shows "safe_value (join '', '' xs)"
proof -
  have ne: "\<forall>x \<in> set xs. x \<noteq> []" using assms(2) by (auto simp: list_item_def safe_value_def)
  have "list_item (hd xs)" "list_item (last xs)" using assms by auto
  then show ?thesis
    using join_ends [OF assms(1) ne, of "'', ''"] join_set [of "'', ''" xs] assms(2)
    by (fastforce simp: safe_value_def list_item_def)
qed

lemma traverse_trim: "traverse (\<lambda>s. parse (trim_space s)) xs = traverse parse (map trim_space xs)"
  by (induction xs) (auto split: sum.splits)

lemma parseList_joinList:
  assumes "xs \<noteq> []" and "\<And>x. x \<in> set xs \<Longrightarrow> list_item (sh x) \<and> parse (sh x) = Inr x"
  shows "parseList (joinList sh xs) parse = Inr xs"
proof -
  have "map trim_space (split_on (CHR '','') (joinList sh xs)) = map sh xs"
    unfolding joinList_def using assms by (intro map_trim_split_join) auto
  then show ?thesis
    using assms(2) by (simp add: parseList_def traverse_trim traverse_map_Inr)
qed

lemma list_item_prefix: "v4_prefix p \<Longrightarrow> list_item (show_prefix p)"
proof -
  assume p: "v4_prefix p"
  have "show_prefix p \<noteq> []" by (simp add: show_prefix_def)
  with p show ?thesis
    by (auto simp: list_item_def intro!: safe_valueI dest!: show_prefix_text [OF p] prefix_text_safe)
qed

lemma list_item_v4: "is4 a \<Longrightarrow> list_item (show_addr a)"
proof -
  assume "is4 a"
  then obtain w where a: "a = V4 w" by (cases a) auto
  have "c \<in> set (show_v4 w) \<Longrightarrow> prefix_text c" for c
    by (auto simp: prefix_text_def dest: show_v4_text)
  moreover have "show_v4 w \<noteq> []" by (simp add: show_v4_def octets_def)
  ultimately show ?thesis
    unfolding a by (auto simp: list_item_def intro!: safe_valueI dest!: prefix_text_safe)
qed

lemma parse_prefixes [codec]:
  "xs \<noteq> [] \<Longrightarrow> list_all v4_prefix xs \<Longrightarrow> parseList (joinList show_prefix xs) parsePrefix = Inr xs"
  by (rule parseList_joinList)
    (auto simp: list_all_iff list_item_prefix parsePrefix_def parse_prefix_show)

lemma parse_addrs [codec]:
  "xs \<noteq> [] \<Longrightarrow> list_all is4 xs \<Longrightarrow> parseList (joinList show_addr xs) parseAddr = Inr xs"
proof (rule parseList_joinList)
  fix a assume "list_all is4 xs" "a \<in> set xs"
  then have "is4 a" by (auto simp: list_all_iff)
  then show "list_item (show_addr a) \<and> parseAddr (show_addr a) = Inr a"
    using list_item_v4 [of a] by (cases a) (auto simp: parseAddr_def parse_addr_show_v4)
qed

lemma safe_joinList [simp]:
  "xs \<noteq> [] \<Longrightarrow> list_all v4_prefix xs \<Longrightarrow> safe_value (joinList show_prefix xs)"
  "ys \<noteq> [] \<Longrightarrow> list_all is4 ys \<Longrightarrow> safe_value (joinList show_addr ys)"
  unfolding joinList_def
  by (rule safe_join; auto simp: list_all_iff list_item_prefix list_item_v4)+

lemma parse_words [codec]:
  "parseUint16 (show_u16 v) = Inr v" "parseUint32 (show_u32 w) = Inr w"
  by (simp_all add: parseUint16_def parseUint32_def parse_u16 parse_u32)

section \<open>Sections\<close>

text \<open>The configurations whose text the parser reads back: every field holds a value its renderer can spell.\<close>

definition text_ok :: "string \<Rightarrow> bool" where
  "text_ok s \<longleftrightarrow> s = [] \<or> safe_value s"

definition iface_ok :: "iface \<Rightarrow> bool" where
  "iface_ok i \<longleftrightarrow>
     key_ok (i_priv i) \<and> list_all v4_prefix (i_addresses i) \<and> list_all is4 (i_dns i) \<and>
     - (2 ^ 63) \<le> i_mtu i \<and> i_mtu i < 2 ^ 63 \<and>
     params_ok (i_params i) \<and> list_all text_ok (I_specs (i_params i)) \<and>
     range_ok (H1 (i_params i)) \<and> range_ok (H2 (i_params i)) \<and>
     range_ok (H3 (i_params i)) \<and> range_ok (H4 (i_params i))"

definition peer_ok :: "awg_peer \<Rightarrow> bool" where
  "peer_ok p \<longleftrightarrow>
     key_ok (p_pub p) \<and> key_ok (p_psk p) \<and> text_ok (p_endpoint p) \<and> list_all v4_prefix (p_allowed p)"

definition config_ok :: "awg_config \<Rightarrow> bool" where
  "config_ok c \<longleftrightarrow> iface_ok (c_iface c) \<and> list_all peer_ok (c_peers c)"

lemma parse_ok_iface_kv:
  assumes "key_name k" and "safe_value v" and "iface_set (to_lower k) v i = Inr i'"
  shows "parse_ok (''interface'', zero_config\<lparr>c_iface := i\<rparr>) [conf_line k v]
           (''interface'', zero_config\<lparr>c_iface := i'\<rparr>)"
  using assms by (intro parse_ok_kv) (auto simp: set_in_section_def)

lemma parse_ok_peer_kv:
  assumes "key_name k" and "safe_value v" and "peer_set (to_lower k) v p = Inr p'"
  shows "parse_ok (''peer'', c\<lparr>c_peers := ps @ [p]\<rparr>) [conf_line k v]
           (''peer'', c\<lparr>c_peers := ps @ [p']\<rparr>)"
  using assms by (intro parse_ok_kv) (auto simp: set_in_section_def set_last_def)

text \<open>The key names, and their spelling in lower case.\<close>

lemma key_names [simp]:
  "key_name ''PrivateKey''" "key_name ''Address''" "key_name ''DNS''" "key_name ''ListenPort''"
  "key_name ''MTU''" "key_name ''Jc''" "key_name ''Jmin''" "key_name ''Jmax''"
  "key_name ''S1''" "key_name ''S2''" "key_name ''S3''" "key_name ''S4''"
  "key_name ''H1''" "key_name ''H2''" "key_name ''H3''" "key_name ''H4''"
  "key_name ''I1''" "key_name ''I2''" "key_name ''I3''" "key_name ''I4''" "key_name ''I5''"
  "key_name ''PublicKey''" "key_name ''PresharedKey''" "key_name ''Endpoint''"
  "key_name ''AllowedIPs''" "key_name ''PersistentKeepalive''"
  by code_simp+

lemma lower_names [simp]:
  "to_lower ''PrivateKey'' = ''privatekey''" "to_lower ''Address'' = ''address''"
  "to_lower ''DNS'' = ''dns''" "to_lower ''ListenPort'' = ''listenport''"
  "to_lower ''MTU'' = ''mtu''" "to_lower ''Jc'' = ''jc''" "to_lower ''Jmin'' = ''jmin''"
  "to_lower ''Jmax'' = ''jmax''" "to_lower ''S1'' = ''s1''" "to_lower ''S2'' = ''s2''"
  "to_lower ''S3'' = ''s3''" "to_lower ''S4'' = ''s4''" "to_lower ''H1'' = ''h1''"
  "to_lower ''H2'' = ''h2''" "to_lower ''H3'' = ''h3''" "to_lower ''H4'' = ''h4''"
  "to_lower ''I1'' = ''i1''" "to_lower ''I2'' = ''i2''" "to_lower ''I3'' = ''i3''"
  "to_lower ''I4'' = ''i4''" "to_lower ''I5'' = ''i5''" "to_lower ''PublicKey'' = ''publickey''"
  "to_lower ''PresharedKey'' = ''presharedkey''" "to_lower ''Endpoint'' = ''endpoint''"
  "to_lower ''AllowedIPs'' = ''allowedips''" "to_lower ''PersistentKeepalive'' = ''persistentkeepalive''"
  by code_simp+

lemma numbered_names [simp]:
  "numbered ''H'' 0 = ''H1''"
  "numbered ''H'' (Suc 0) = ''H2''"
  "numbered ''H'' (Suc (Suc 0)) = ''H3''"
  "numbered ''H'' (Suc (Suc (Suc 0))) = ''H4''"
  "numbered ''I'' 0 = ''I1''"
  "numbered ''I'' (Suc 0) = ''I2''"
  "numbered ''I'' (Suc (Suc 0)) = ''I3''"
  "numbered ''I'' (Suc (Suc (Suc 0))) = ''I4''"
  "numbered ''I'' (Suc (Suc (Suc (Suc 0)))) = ''I5''"
  by code_simp+

lemma parse_ok_header:
  "parse_ok ([], zero_config) [''[Interface]''] (''interface'', zero_config)"
  "parse_ok (s, c) [[]] (s, c)"
  "parse_ok (s, c) [''[Peer]''] (''peer'', c\<lparr>c_peers := c_peers c @ [zero_peer]\<rparr>)"
proof -
  have l: "strip_comment ''[Interface]'' = ''[Interface]''" "strip_comment ''[Peer]'' = ''[Peer]''"
    "to_lower ''Interface'' = ''interface''" "to_lower ''Peer'' = ''peer''"
    "has_prefix ''[Interface]'' ''[''" "has_suffix ''[Interface]'' '']''"
    "has_prefix ''[Peer]'' ''[''" "has_suffix ''[Peer]'' '']''"
    "line_ok ''[Interface]''" "line_ok ''[Peer]''" "line_ok []" "strip_comment [] = []"
    by code_simp+
  show "parse_ok ([], zero_config) [''[Interface]''] (''interface'', zero_config)"
    "parse_ok (s, c) [[]] (s, c)"
    "parse_ok (s, c) [''[Peer]''] (''peer'', c\<lparr>c_peers := c_peers c @ [zero_peer]\<rparr>)"
    by (simp_all add: parse_ok_def parse_line_def l)
qed

section \<open>One step per interface line\<close>

definition iface_step :: "iface \<Rightarrow> string list \<Rightarrow> iface \<Rightarrow> bool" where
  "iface_step i ls i' \<longleftrightarrow>
     parse_ok (''interface'', zero_config\<lparr>c_iface := i\<rparr>) ls (''interface'', zero_config\<lparr>c_iface := i'\<rparr>)"

lemma iface_step_append: "iface_step i a j \<Longrightarrow> iface_step j b k \<Longrightarrow> iface_step i (a @ b) k"
  unfolding iface_step_def by (rule parse_ok_append)

lemma iface_step_Cons: "iface_step i [l] j \<Longrightarrow> iface_step j b k \<Longrightarrow> iface_step i (l # b) k"
  using iface_step_append [of i "[l]" j b k] by simp

lemma iface_step_Nil: "i = j \<Longrightarrow> iface_step i [] j"
  by (simp add: iface_step_def)

lemma iface_step_kv:
  "key_name k \<Longrightarrow> safe_value v \<Longrightarrow> iface_set (to_lower k) v i = Inr i' \<Longrightarrow>
   iface_step i [conf_line k v] i'"
  unfolding iface_step_def by (rule parse_ok_iface_kv)

lemma iface_step_opt:
  assumes "b \<Longrightarrow> key_name k \<and> safe_value v \<and> iface_set (to_lower k) v i = Inr i'"
    and "\<not> b \<Longrightarrow> i' = i"
  shows "iface_step i (conf_opt b k v) i'"
  using assms by (cases b) (auto simp: conf_opt_def intro: iface_step_kv iface_step_Nil)

lemma iface_same:
  "i_addresses i = [] \<Longrightarrow> i\<lparr>i_addresses := []\<rparr> = i" "i_dns i = [] \<Longrightarrow> i\<lparr>i_dns := []\<rparr> = i"
  "i_port i = 0 \<Longrightarrow> i\<lparr>i_port := 0\<rparr> = i" "i_mtu i = 0 \<Longrightarrow> i\<lparr>i_mtu := 0\<rparr> = i"
  "f (i_params i) = i_params i \<Longrightarrow> put_params f i = i"
  by (simp_all add: put_params_def)

lemma step_priv: "key_ok k \<Longrightarrow> iface_step i [conf_line ''PrivateKey'' (key_string k)] (i\<lparr>i_priv := k\<rparr>)"
  by (rule iface_step_kv) (simp_all add: iface_set_def set_field_def ParseKey_string)

lemma step_addresses:
  "list_all v4_prefix xs \<Longrightarrow> i_addresses i = [] \<Longrightarrow>
   iface_step i (conf_opt (length xs > 0) ''Address'' (joinList show_prefix xs)) (i\<lparr>i_addresses := xs\<rparr>)"
  by (rule iface_step_opt) (simp_all add: iface_set_def set_field_def parse_prefixes iface_same)

lemma step_dns:
  "list_all is4 xs \<Longrightarrow> i_dns i = [] \<Longrightarrow>
   iface_step i (conf_opt (length xs > 0) ''DNS'' (joinList show_addr xs)) (i\<lparr>i_dns := xs\<rparr>)"
  by (rule iface_step_opt) (simp_all add: iface_set_def set_field_def parse_addrs iface_same)

lemma step_port:
  "i_port i = 0 \<Longrightarrow> iface_step i (conf_opt (v \<noteq> 0) ''ListenPort'' (show_u16 v)) (i\<lparr>i_port := v\<rparr>)"
  by (rule iface_step_opt) (simp_all add: iface_set_def set_field_def parse_words iface_same)

lemma step_mtu:
  "i_mtu i = 0 \<Longrightarrow> - (2 ^ 63) \<le> v \<Longrightarrow> v < 2 ^ 63 \<Longrightarrow>
   iface_step i (conf_opt (v \<noteq> 0) ''MTU'' (show_int v)) (i\<lparr>i_mtu := v\<rparr>)"
  by (rule iface_step_opt) (simp_all add: iface_set_def set_field_def atoi_show_int iface_same)

lemma step_junk:
  "(\<not> b \<Longrightarrow> v = Jc (i_params i)) \<Longrightarrow>
   iface_step i (conf_opt b ''Jc'' (show_u32 v)) (put_params (\<lambda>p. p\<lparr>Jc := v\<rparr>) i)"
  "(\<not> b \<Longrightarrow> v = Jmin (i_params i)) \<Longrightarrow>
   iface_step i (conf_opt b ''Jmin'' (show_u32 v)) (put_params (\<lambda>p. p\<lparr>Jmin := v\<rparr>) i)"
  "(\<not> b \<Longrightarrow> v = Jmax (i_params i)) \<Longrightarrow>
   iface_step i (conf_opt b ''Jmax'' (show_u32 v)) (put_params (\<lambda>p. p\<lparr>Jmax := v\<rparr>) i)"
  by (rule iface_step_opt; simp add: iface_set_def set_field_def parse_words iface_same)+

lemma step_padding:
  "iface_step i [conf_line ''S1'' (show_u16 v)] (put_params (\<lambda>p. p\<lparr>S1 := v\<rparr>) i)"
  "iface_step i [conf_line ''S2'' (show_u16 v)] (put_params (\<lambda>p. p\<lparr>S2 := v\<rparr>) i)"
  "iface_step i [conf_line ''S3'' (show_u16 v)] (put_params (\<lambda>p. p\<lparr>S3 := v\<rparr>) i)"
  "iface_step i [conf_line ''S4'' (show_u16 v)] (put_params (\<lambda>p. p\<lparr>S4 := v\<rparr>) i)"
  by (rule iface_step_kv; simp add: iface_set_def set_field_def parse_words)+

lemma step_header:
  "range_ok r \<Longrightarrow> H1 (i_params i) = zero_range \<Longrightarrow>
   iface_step i (conf_opt (\<not> range_is_zero r) ''H1'' (range_string r)) (put_params (\<lambda>p. p\<lparr>H1 := r\<rparr>) i)"
  "range_ok r \<Longrightarrow> H2 (i_params i) = zero_range \<Longrightarrow>
   iface_step i (conf_opt (\<not> range_is_zero r) ''H2'' (range_string r)) (put_params (\<lambda>p. p\<lparr>H2 := r\<rparr>) i)"
  "range_ok r \<Longrightarrow> H3 (i_params i) = zero_range \<Longrightarrow>
   iface_step i (conf_opt (\<not> range_is_zero r) ''H3'' (range_string r)) (put_params (\<lambda>p. p\<lparr>H3 := r\<rparr>) i)"
  "range_ok r \<Longrightarrow> H4 (i_params i) = zero_range \<Longrightarrow>
   iface_step i (conf_opt (\<not> range_is_zero r) ''H4'' (range_string r)) (put_params (\<lambda>p. p\<lparr>H4 := r\<rparr>) i)"
  by (rule iface_step_opt; simp add: iface_set_def set_field_def ParseRange_string iface_same range_is_zero_def)+

definition put_spec :: "nat \<Rightarrow> string \<Rightarrow> iface \<Rightarrow> iface" where
  "put_spec n v i = put_params (\<lambda>p. p\<lparr>I_specs := (I_specs p)[n := v]\<rparr>) i"

lemma digit_val_literals [simp]:
  "digit_val (CHR ''1'') = 1" "digit_val (CHR ''2'') = 2" "digit_val (CHR ''3'') = 3"
  "digit_val (CHR ''4'') = 4" "digit_val (CHR ''5'') = 5"
  by code_simp+

lemma put_spec_same: "I_specs (i_params i) ! n = v \<Longrightarrow> put_spec n v i = i"
  unfolding put_spec_def by (rule iface_same) (metis list_update_id params.surjective params.update_convs(12))

lemma step_spec:
  "text_ok v \<Longrightarrow> I_specs (i_params i) ! 0 = [] \<Longrightarrow>
   iface_step i (conf_opt (v \<noteq> []) ''I1'' v) (put_spec 0 v i)"
  "text_ok v \<Longrightarrow> I_specs (i_params i) ! 1 = [] \<Longrightarrow>
   iface_step i (conf_opt (v \<noteq> []) ''I2'' v) (put_spec 1 v i)"
  "text_ok v \<Longrightarrow> I_specs (i_params i) ! 2 = [] \<Longrightarrow>
   iface_step i (conf_opt (v \<noteq> []) ''I3'' v) (put_spec 2 v i)"
  "text_ok v \<Longrightarrow> I_specs (i_params i) ! 3 = [] \<Longrightarrow>
   iface_step i (conf_opt (v \<noteq> []) ''I4'' v) (put_spec 3 v i)"
  "text_ok v \<Longrightarrow> I_specs (i_params i) ! 4 = [] \<Longrightarrow>
   iface_step i (conf_opt (v \<noteq> []) ''I5'' v) (put_spec 4 v i)"
  by (rule iface_step_opt; simp add: iface_set_def put_spec_same text_ok_def; simp add: put_spec_def)+

section \<open>Whole files\<close>

lemma iface_step_eq: "iface_step i ls j \<Longrightarrow> j = k \<Longrightarrow> iface_step i ls k"
  by simp

lemma steps_network:
  assumes "key_ok (i_priv i)" and "list_all v4_prefix (i_addresses i)" and "list_all is4 (i_dns i)"
    and "- (2 ^ 63) \<le> i_mtu i" and "i_mtu i < 2 ^ 63"
  shows "iface_step zero_iface
     ([conf_line ''PrivateKey'' (key_string (i_priv i))] @
      conf_opt (length (i_addresses i) > 0) ''Address'' (joinList show_prefix (i_addresses i)) @
      conf_opt (length (i_dns i) > 0) ''DNS'' (joinList show_addr (i_dns i)) @
      conf_opt (i_port i \<noteq> 0) ''ListenPort'' (show_u16 (i_port i)) @
      conf_opt (i_mtu i \<noteq> 0) ''MTU'' (show_int (i_mtu i)))
     (i\<lparr>i_params := zero_params\<rparr>)"
proof -
  note chain = iface_step_append [OF step_priv iface_step_append [OF step_addresses
      iface_step_append [OF step_dns iface_step_append [OF step_port step_mtu]]]]
  show ?thesis
    by (rule iface_step_eq, rule chain) (use assms in \<open>simp_all add: zero_iface_def\<close>)
qed

lemma steps_junk:
  assumes "i_params i = zero_params" and "b \<longleftrightarrow> jc \<noteq> 0 \<or> jmin \<noteq> 0 \<or> jmax \<noteq> 0"
  shows "iface_step i
     (conf_opt b ''Jc'' (show_u32 jc) @ conf_opt b ''Jmin'' (show_u32 jmin) @ conf_opt b ''Jmax'' (show_u32 jmax))
     (put_params (\<lambda>p. p\<lparr>Jc := jc, Jmin := jmin, Jmax := jmax\<rparr>) i)"
proof -
  note chain = iface_step_append [OF step_junk(1) iface_step_append [OF step_junk(2) step_junk(3)]]
  show ?thesis
    by (rule iface_step_eq, rule chain) (use assms in \<open>auto simp: put_params_def zero_params_def\<close>)
qed

lemma steps_padding:
  "iface_step i
     [conf_line ''S1'' (show_u16 s1), conf_line ''S2'' (show_u16 s2),
      conf_line ''S3'' (show_u16 s3), conf_line ''S4'' (show_u16 s4)]
     (put_params (\<lambda>p. p\<lparr>S1 := s1, S2 := s2, S3 := s3, S4 := s4\<rparr>) i)"
proof -
  note chain = iface_step_Cons [OF step_padding(1) iface_step_Cons [OF step_padding(2)
      iface_step_Cons [OF step_padding(3) step_padding(4)]]]
  show ?thesis by (rule iface_step_eq, rule chain) (simp add: put_params_def)
qed

lemma steps_headers:
  assumes "range_ok r1" and "range_ok r2" and "range_ok r3" and "range_ok r4"
    and "H1 (i_params i) = zero_range" and "H2 (i_params i) = zero_range"
    and "H3 (i_params i) = zero_range" and "H4 (i_params i) = zero_range"
  shows "iface_step i
     (concat (map (\<lambda>(n, r). conf_opt (\<not> range_is_zero r) (numbered ''H'' n) (range_string r))
       (enumerate 0 [r1, r2, r3, r4])))
     (put_params (\<lambda>p. p\<lparr>H1 := r1, H2 := r2, H3 := r3, H4 := r4\<rparr>) i)"
proof -
  note chain = iface_step_append [OF step_header(1) iface_step_append [OF step_header(2)
      iface_step_append [OF step_header(3) step_header(4)]]]
  have "iface_step i
     (conf_opt (\<not> range_is_zero r1) ''H1'' (range_string r1) @
      conf_opt (\<not> range_is_zero r2) ''H2'' (range_string r2) @
      conf_opt (\<not> range_is_zero r3) ''H3'' (range_string r3) @
      conf_opt (\<not> range_is_zero r4) ''H4'' (range_string r4))
     (put_params (\<lambda>p. p\<lparr>H1 := r1, H2 := r2, H3 := r3, H4 := r4\<rparr>) i)"
    by (rule iface_step_eq, rule chain) (use assms in \<open>simp_all add: put_params_def\<close>)
  then show ?thesis by simp
qed

lemma steps_specs:
  assumes "list_all text_ok [a, b, c, d, e]" and "I_specs (i_params i) = [[], [], [], [], []]"
  shows "iface_step i
     (concat (map (\<lambda>(n, v). conf_opt (v \<noteq> []) (numbered ''I'' n) v) (enumerate 0 [a, b, c, d, e])))
     (put_params (\<lambda>p. p\<lparr>I_specs := [a, b, c, d, e]\<rparr>) i)"
proof -
  note chain = iface_step_append [OF step_spec(1) iface_step_append [OF step_spec(2)
      iface_step_append [OF step_spec(3) iface_step_append [OF step_spec(4) step_spec(5)]]]]
  have "iface_step i
     (conf_opt (a \<noteq> []) ''I1'' a @ conf_opt (b \<noteq> []) ''I2'' b @ conf_opt (c \<noteq> []) ''I3'' c @
      conf_opt (d \<noteq> []) ''I4'' d @ conf_opt (e \<noteq> []) ''I5'' e)
     (put_params (\<lambda>p. p\<lparr>I_specs := [a, b, c, d, e]\<rparr>) i)"
    by (rule iface_step_eq, rule chain) (use assms in \<open>simp_all add: put_spec_def put_params_def\<close>)
  then show ?thesis by simp
qed

lemma parse_ok_iface:
  assumes "iface_ok i"
  shows "parse_ok ([], zero_config) (iface_lines i) (''interface'', zero_config\<lparr>c_iface := i\<rparr>)"
proof -
  let ?p = "i_params i"
  obtain a b c d e where I: "I_specs ?p = [a, b, c, d, e]"
    using assms by (auto simp: iface_ok_def params_ok_def length_Suc_conv numeral_eq_Suc)
  have z: "I_specs zero_params = [[], [], [], [], []]" "H1 zero_params = zero_range"
    "H2 zero_params = zero_range" "H3 zero_params = zero_range" "H4 zero_params = zero_range"
    by (simp_all add: zero_params_def numeral_eq_Suc)
  note ok = assms [unfolded iface_ok_def]
  note chain = iface_step_append [OF steps_network iface_step_append [OF steps_junk
      iface_step_append [OF steps_padding iface_step_append [OF steps_headers steps_specs]]]]
  let ?net = "[conf_line ''PrivateKey'' (key_string (i_priv i))] @
      conf_opt (length (i_addresses i) > 0) ''Address'' (joinList show_prefix (i_addresses i)) @
      conf_opt (length (i_dns i) > 0) ''DNS'' (joinList show_addr (i_dns i)) @
      conf_opt (i_port i \<noteq> 0) ''ListenPort'' (show_u16 (i_port i)) @
      conf_opt (i_mtu i \<noteq> 0) ''MTU'' (show_int (i_mtu i))"
  let ?b = "Jc ?p \<noteq> 0 \<or> Jmin ?p \<noteq> 0 \<or> Jmax ?p \<noteq> 0"
  let ?junk = "conf_opt ?b ''Jc'' (show_u32 (Jc ?p)) @ conf_opt ?b ''Jmin'' (show_u32 (Jmin ?p)) @
      conf_opt ?b ''Jmax'' (show_u32 (Jmax ?p))"
  let ?pad = "[conf_line ''S1'' (show_u16 (S1 ?p)), conf_line ''S2'' (show_u16 (S2 ?p)),
      conf_line ''S3'' (show_u16 (S3 ?p)), conf_line ''S4'' (show_u16 (S4 ?p))]"
  let ?hdr = "concat (map (\<lambda>(n, r). conf_opt (\<not> range_is_zero r) (numbered ''H'' n) (range_string r))
      (enumerate 0 [H1 ?p, H2 ?p, H3 ?p, H4 ?p]))"
  let ?spec = "concat (map (\<lambda>(n, v). conf_opt (v \<noteq> []) (numbered ''I'' n) v) (enumerate 0 [a, b, c, d, e]))"
  have "iface_step zero_iface (?net @ ?junk @ ?pad @ ?hdr @ ?spec) i"
    by (rule iface_step_eq, rule chain) (use ok I in \<open>auto simp: z put_params_def\<close>)
  moreover have "tl (iface_lines i) = ?net @ ?junk @ ?pad @ ?hdr @ ?spec"
    by (simp only: iface_lines_def Let_def I append_assoc append_Cons append_Nil list.sel)
  ultimately have "iface_step zero_iface (tl (iface_lines i)) i" by (simp only:)
  moreover have "iface_lines i = ''[Interface]'' # tl (iface_lines i)"
    by (simp add: iface_lines_def Let_def)
  moreover have "zero_config = zero_config\<lparr>c_iface := zero_iface\<rparr>" by (simp add: zero_config_def)
  ultimately show ?thesis
    using parse_ok_Cons [OF parse_ok_header(1)] unfolding iface_step_def by metis
qed

section \<open>Peers\<close>

definition peer_step :: "awg_config \<Rightarrow> awg_peer \<Rightarrow> string list \<Rightarrow> awg_peer \<Rightarrow> bool" where
  "peer_step c p ls p' \<longleftrightarrow>
     parse_ok (''peer'', c\<lparr>c_peers := c_peers c @ [p]\<rparr>) ls (''peer'', c\<lparr>c_peers := c_peers c @ [p']\<rparr>)"

lemma peer_step_append: "peer_step c p a q \<Longrightarrow> peer_step c q b r \<Longrightarrow> peer_step c p (a @ b) r"
  unfolding peer_step_def by (rule parse_ok_append)

lemma peer_step_eq: "peer_step c p ls q \<Longrightarrow> q = r \<Longrightarrow> peer_step c p ls r"
  by simp

lemma peer_step_kv:
  "key_name k \<Longrightarrow> safe_value v \<Longrightarrow> peer_set (to_lower k) v p = Inr p' \<Longrightarrow>
   peer_step c p [conf_line k v] p'"
  unfolding peer_step_def by (rule parse_ok_peer_kv)

lemma peer_step_opt:
  assumes "b \<Longrightarrow> key_name k \<and> safe_value v \<and> peer_set (to_lower k) v p = Inr p'"
    and "\<not> b \<Longrightarrow> p' = p"
  shows "peer_step c p (conf_opt b k v) p'"
  using assms by (cases b) (auto simp: conf_opt_def peer_step_def intro: peer_step_kv [unfolded peer_step_def])

lemma peer_steps:
  "key_ok k \<Longrightarrow> peer_step c p [conf_line ''PublicKey'' (key_string k)] (p\<lparr>p_pub := k\<rparr>)"
  "key_ok k \<Longrightarrow> p_psk p = zero_key \<Longrightarrow>
   peer_step c p (conf_opt (\<not> key_is_zero k) ''PresharedKey'' (key_string k)) (p\<lparr>p_psk := k\<rparr>)"
  "text_ok e \<Longrightarrow> p_endpoint p = [] \<Longrightarrow>
   peer_step c p (conf_opt (e \<noteq> []) ''Endpoint'' e) (p\<lparr>p_endpoint := e\<rparr>)"
  "list_all v4_prefix xs \<Longrightarrow> p_allowed p = [] \<Longrightarrow>
   peer_step c p (conf_opt (length xs > 0) ''AllowedIPs'' (joinList show_prefix xs)) (p\<lparr>p_allowed := xs\<rparr>)"
  "p_keepalive p = 0 \<Longrightarrow>
   peer_step c p (conf_opt (w \<noteq> 0) ''PersistentKeepalive'' (show_u32 w)) (p\<lparr>p_keepalive := w\<rparr>)"
  subgoal by (rule peer_step_kv) (simp_all add: peer_set_def set_field_def ParseKey_string)
  subgoal by (rule peer_step_opt) (simp_all add: peer_set_def set_field_def ParseKey_string key_is_zero_def)
  subgoal by (rule peer_step_opt) (simp_all add: peer_set_def text_ok_def)
  subgoal by (rule peer_step_opt) (simp_all add: peer_set_def set_field_def parse_prefixes)
  subgoal by (rule peer_step_opt) (simp_all add: peer_set_def set_field_def parse_words)
  done

lemma parse_ok_peer:
  assumes "peer_ok p"
  shows "parse_ok (s, c) (peer_lines p) (''peer'', c\<lparr>c_peers := c_peers c @ [p]\<rparr>)"
proof -
  note chain = peer_step_append [OF peer_steps(1) peer_step_append [OF peer_steps(2)
      peer_step_append [OF peer_steps(3) peer_step_append [OF peer_steps(4) peer_steps(5)]]]]
  have "peer_step c zero_peer
      ([conf_line ''PublicKey'' (key_string (p_pub p))] @
       conf_opt (\<not> key_is_zero (p_psk p)) ''PresharedKey'' (key_string (p_psk p)) @
       conf_opt (p_endpoint p \<noteq> []) ''Endpoint'' (p_endpoint p) @
       conf_opt (length (p_allowed p) > 0) ''AllowedIPs'' (joinList show_prefix (p_allowed p)) @
       conf_opt (p_keepalive p \<noteq> 0) ''PersistentKeepalive'' (show_u32 (p_keepalive p)))
      p"
    by (rule peer_step_eq, rule chain) (use assms in \<open>simp_all add: peer_ok_def zero_peer_def\<close>)
  then have "peer_step c zero_peer (tl (tl (peer_lines p))) p"
    by (simp add: peer_lines_def)
  moreover have "peer_lines p = [] # ''[Peer]'' # tl (tl (peer_lines p))"
    by (simp add: peer_lines_def)
  ultimately show ?thesis
    using parse_ok_Cons [OF parse_ok_header(2) parse_ok_Cons [OF parse_ok_header(3)]]
    unfolding peer_step_def by metis
qed

lemma parse_ok_peers:
  "list_all peer_ok ps \<Longrightarrow>
   \<exists>s'. parse_ok (s, c) (concat (map peer_lines ps)) (s', c\<lparr>c_peers := c_peers c @ ps\<rparr>)"
proof (induction ps arbitrary: s c)
  case (Cons p ps)
  let ?c = "c\<lparr>c_peers := c_peers c @ [p]\<rparr>"
  from Cons obtain s' where "parse_ok (''peer'', ?c) (concat (map peer_lines ps))
      (s', ?c\<lparr>c_peers := c_peers ?c @ ps\<rparr>)" by fastforce
  with parse_ok_peer [of p s c] Cons.prems show ?case
    by (auto intro!: exI [of _ s'] parse_ok_append)
qed auto

lemma parse_ok_config:
  assumes "config_ok c"
  shows "\<exists>s'. parse_ok ([], zero_config) (config_lines c) (s', c)"
proof -
  let ?c = "zero_config\<lparr>c_iface := c_iface c\<rparr>"
  obtain s' where "parse_ok (''interface'', ?c) (concat (map peer_lines (c_peers c)))
      (s', ?c\<lparr>c_peers := c_peers ?c @ c_peers c\<rparr>)"
    using parse_ok_peers assms by (metis config_ok_def)
  moreover have "?c\<lparr>c_peers := c_peers ?c @ c_peers c\<rparr> = c" by (simp add: zero_config_def)
  ultimately show ?thesis
    using parse_ok_append [OF parse_ok_iface] assms
    unfolding config_lines_def config_ok_def by metis
qed

section \<open>The scanner\<close>

lemma split_with_newlines:
  "\<forall>l \<in> set ls. CHR 0x0A \<notin> set l \<Longrightarrow> split_on (CHR 0x0A) (with_newlines ls) = ls @ [[]]"
  by (induction ls) (auto simp: with_newlines_def split_on_append)

lemma scan_with_newlines:
  assumes "\<forall>l \<in> set ls. line_ok l" and "\<forall>l \<in> set ls. length l < max_token"
  shows "scan_lines (with_newlines ls) = (ls, False)"
proof -
  have r: "raw_lines (with_newlines ls) = ls"
    using assms(1) by (simp add: raw_lines_def split_with_newlines line_ok_def)
  have t: "takeWhile (\<lambda>l. length l < max_token) ls = ls"
    using assms(2) by (simp add: takeWhile_eq_all_conv)
  have d: "map drop_cr ls = ls" using assms(1) by (simp add: line_ok_def map_idI)
  show ?thesis unfolding scan_lines_def r t d using assms(2) by simp
qed

lemma awg_parse_config_string:
  assumes "config_ok c" and "\<forall>l \<in> set (config_lines c). length l < max_token"
  shows "awg_parse (config_string c) =
           (case validate_config c of Some e \<Rightarrow> Inl e | None \<Rightarrow> Inr c)"
proof -
  obtain s' where p: "parse_ok ([], zero_config) (config_lines c) (s', c)"
    using parse_ok_config [OF assms(1)] by blast
  then have "scan_lines (config_string c) = (config_lines c, False)"
    unfolding config_string_def using assms(2) by (intro scan_with_newlines) (auto simp: parse_ok_def)
  with p show ?thesis by (simp add: awg_parse_def parse_ok_def)
qed

end
