(* ===== verification/Awg_Accept.thy ===== *)
theory Awg_Accept
  imports Awg_Config
begin

text \<open>
  What a configuration accepted by \<open>Parse\<close> satisfies. \<open>config_wf\<close> is the invariant every line keeps; the
  final checks add the junk and wire limits.
\<close>

definition params_wf :: "params \<Rightarrow> bool" where
  "params_wf p \<longleftrightarrow>
     params_ok p \<and> range_ok (H1 p) \<and> range_ok (H2 p) \<and> range_ok (H3 p) \<and> range_ok (H4 p)"

definition iface_wf :: "iface \<Rightarrow> bool" where
  "iface_wf i \<longleftrightarrow>
     key_ok (i_priv i) \<and> params_wf (i_params i) \<and> - (2 ^ 63) \<le> i_mtu i \<and> i_mtu i < 2 ^ 63"

definition peer_wf :: "awg_peer \<Rightarrow> bool" where
  "peer_wf p \<longleftrightarrow> key_ok (p_pub p) \<and> key_ok (p_psk p)"

definition config_wf :: "awg_config \<Rightarrow> bool" where
  "config_wf c \<longleftrightarrow> iface_wf (c_iface c) \<and> list_all peer_wf (c_peers c)"

lemma atoi_bound: "atoi s = Inr i \<Longrightarrow> - (2 ^ 63) \<le> i \<and> i < 2 ^ 63"
  by (auto simp: atoi_def Let_def split: list.splits sum.splits if_splits)

lemma set_field_Inr [simp]: "set_field k put r = Inr y \<longleftrightarrow> (\<exists>v. r = Inr v \<and> y = put v)"
  by (auto simp: set_field_def split: sum.splits)

definition keeps_wf :: "(params \<Rightarrow> params) \<Rightarrow> bool" where
  "keeps_wf f \<longleftrightarrow> (\<forall>p. params_wf p \<longrightarrow> params_wf (f p))"

lemma keeps_wf_updates [simp]:
  "keeps_wf (Jc_update g)" "keeps_wf (Jmin_update g)" "keeps_wf (Jmax_update g)"
  "keeps_wf (S1_update h)" "keeps_wf (S2_update h)" "keeps_wf (S3_update h)" "keeps_wf (S4_update h)"
  "range_ok r \<Longrightarrow> keeps_wf (H1_update (\<lambda>_. r))" "range_ok r \<Longrightarrow> keeps_wf (H2_update (\<lambda>_. r))"
  "range_ok r \<Longrightarrow> keeps_wf (H3_update (\<lambda>_. r))" "range_ok r \<Longrightarrow> keeps_wf (H4_update (\<lambda>_. r))"
  "keeps_wf (\<lambda>p. p\<lparr>I_specs := (I_specs p)[n := v]\<rparr>)"
  by (simp_all add: keeps_wf_def params_wf_def params_ok_def)

lemma iface_updates_wf:
  assumes "iface_wf i"
  shows "iface_wf (i\<lparr>i_addresses := a\<rparr>)" "iface_wf (i\<lparr>i_dns := d\<rparr>)" "iface_wf (i\<lparr>i_port := w\<rparr>)"
    "key_ok k \<Longrightarrow> iface_wf (i\<lparr>i_priv := k\<rparr>)"
    "atoi s = Inr m \<Longrightarrow> iface_wf (i\<lparr>i_mtu := m\<rparr>)"
    "keeps_wf f \<Longrightarrow> iface_wf (put_params f i)"
  using assms atoi_bound [of s m] by (simp_all add: iface_wf_def keeps_wf_def put_params_def)

lemma iface_params_wf:
  assumes "iface_wf i"
  shows "iface_wf (put_params (Jc_update g) i)" "iface_wf (put_params (Jmin_update g) i)"
    "iface_wf (put_params (Jmax_update g) i)" "iface_wf (put_params (S1_update h) i)"
    "iface_wf (put_params (S2_update h) i)" "iface_wf (put_params (S3_update h) i)"
    "iface_wf (put_params (S4_update h) i)"
    "ParseRange s = Inr r \<Longrightarrow> iface_wf (put_params (H1_update (\<lambda>_. r)) i)"
    "ParseRange s = Inr r \<Longrightarrow> iface_wf (put_params (H2_update (\<lambda>_. r)) i)"
    "ParseRange s = Inr r \<Longrightarrow> iface_wf (put_params (H3_update (\<lambda>_. r)) i)"
    "ParseRange s = Inr r \<Longrightarrow> iface_wf (put_params (H4_update (\<lambda>_. r)) i)"
    "iface_wf (put_params (\<lambda>p. p\<lparr>I_specs := (I_specs p)[n := v]\<rparr>) i)"
    "ParseKey s = Inr k \<Longrightarrow> iface_wf (i\<lparr>i_priv := k\<rparr>)"
  by (rule iface_updates_wf [OF assms], (rule keeps_wf_updates | erule ParseKey_ok),
      (erule ParseRange_ok)?)+

lemma iface_set_wf:
  assumes "iface_wf i" and "iface_set key v i = Inr i'"
  shows "iface_wf i'"
  using assms(2) unfolding iface_set_def
  apply (simp only: split: if_split_asm)
  apply (simp_all only: set_field_Inr wrap_err_Inr_iff sum.inject sum.distinct simp_thms)
  apply (((elim conjE exE)?); hypsubst;
      (rule assms(1) | rule iface_updates_wf(1-3) [OF assms(1)] | erule iface_updates_wf(5) [OF assms(1)] |
       rule iface_params_wf(1-7,12) [OF assms(1)] | erule iface_params_wf(8-11,13) [OF assms(1)]))+
  subgoal using assms(1) by (simp only:)
  done

lemma peer_set_wf: "peer_wf p \<Longrightarrow> peer_set key v p = Inr p' \<Longrightarrow> peer_wf p'"
  unfolding peer_set_def peer_wf_def
  by (auto split: if_splits dest: ParseKey_ok)

lemma set_last_all:
  "set_last f xs = Inr ys \<Longrightarrow> list_all P xs \<Longrightarrow> xs \<noteq> [] \<Longrightarrow>
   (\<And>x y. P x \<Longrightarrow> f x = Inr y \<Longrightarrow> P y) \<Longrightarrow> list_all P ys"
  by (cases xs rule: rev_cases) (auto simp: set_last_def list_all_iff)

text \<open>Inside a \<open>[Peer]\<close> section there is a peer to write to: the pointer is never nil.\<close>

definition loop_inv :: "string \<times> awg_config \<Rightarrow> bool" where
  "loop_inv st \<longleftrightarrow> config_wf (snd st) \<and> (fst st = ''peer'' \<longrightarrow> c_peers (snd st) \<noteq> [])"

lemma set_in_section_inv:
  assumes "loop_inv (s, c)" and "set_in_section s k v c = Inr c'"
  shows "loop_inv (s, c')"
proof -
  consider "s = ''interface''" | "s = ''peer''"
    using assms(2) by (auto simp: set_in_section_def split: if_splits)
  then show ?thesis
  proof cases
    case 1
    with assms show ?thesis
      by (auto simp: set_in_section_def loop_inv_def config_wf_def dest: iface_set_wf)
  next
    case 2
    with assms obtain ps where ps: "set_last (peer_set k v) (c_peers c) = Inr ps"
      and c': "c' = c\<lparr>c_peers := ps\<rparr>"
      by (auto simp: set_in_section_def)
    have "c_peers c \<noteq> []" "list_all peer_wf (c_peers c)"
      using assms(1) 2 by (auto simp: loop_inv_def config_wf_def)
    then have "list_all peer_wf ps" using ps by (blast intro: set_last_all peer_set_wf)
    moreover have "ps \<noteq> []" using ps by (auto simp: set_last_def)
    ultimately show ?thesis using assms(1) c' by (auto simp: loop_inv_def config_wf_def)
  qed
qed

lemma zero_peer_wf [simp]: "peer_wf zero_peer"
  by (simp add: peer_wf_def zero_peer_def)

lemma zero_config_inv [simp]: "loop_inv ([], zero_config)"
  by (simp add: loop_inv_def config_wf_def zero_config_def iface_wf_def zero_iface_def params_wf_def)
     (simp add: zero_params_def)

lemma parse_line_inv: "loop_inv st \<Longrightarrow> parse_line n st raw = Inr st' \<Longrightarrow> loop_inv st'"
  by (cases st)
    (auto simp: parse_line_def Let_def split: if_splits option.splits sum.splits
      dest: set_in_section_inv; auto simp: loop_inv_def config_wf_def)

lemma parse_loop_inv: "loop_inv st \<Longrightarrow> parse_loop n st ls = Inr st' \<Longrightarrow> loop_inv st'"
  by (induction ls arbitrary: n st) (auto split: sum.splits dest: parse_line_inv)

lemma check_public_keys_None: "check_public_keys i ps = None \<longleftrightarrow> (\<forall>p \<in> set ps. \<not> key_is_zero (p_pub p))"
  by (induction ps arbitrary: i) auto

text \<open>The junk limits, read as the runtime's constraints.\<close>

text \<open>\<open>junk_size p n\<close>: the sender may draw a junk packet of \<open>n\<close> bytes (the upper bound is exclusive
  unless the range is a single size).\<close>

definition junk_size :: "params \<Rightarrow> u32 \<Rightarrow> bool" where
  "junk_size p n \<longleftrightarrow> Jmin p \<le> n \<and> (n < Jmax p \<or> n = Jmin p \<and> Jmin p = Jmax p)"

definition junk_fits :: "int \<Rightarrow> params \<Rightarrow> bool" where
  "junk_fits payloadMax p \<longleftrightarrow>
     Jc p = 0 \<or>
     (Jmin p \<le> Jmax p \<and> junk_packets p \<le> 128 \<and> (\<forall>n. junk_size p n \<longrightarrow> uint n \<le> payloadMax))"

lemma largest_junk_max: "junk_size p n \<Longrightarrow> n \<le> largest_junk p"
proof (cases "Jmin p < Jmax p")
  case True
  assume "junk_size p n"
  with True have "n < Jmax p" by (auto simp: junk_size_def)
  then have "n \<le> Jmax p - 1" by uint_arith
  with True show ?thesis by (simp add: largest_junk_def)
qed (auto simp: largest_junk_def junk_size_def)

lemma largest_junk_reached: "Jmin p \<le> Jmax p \<Longrightarrow> junk_size p (largest_junk p)"
proof (cases "Jmin p < Jmax p")
  case True
  then have "Jmin p \<le> Jmax p - 1" "Jmax p - 1 < Jmax p" by uint_arith+
  with True show ?thesis by (simp add: largest_junk_def junk_size_def)
qed (auto simp: largest_junk_def junk_size_def)

lemma largest_junk_le:
  assumes "Jmin p \<le> Jmax p"
  shows "uint (largest_junk p) \<le> m \<longleftrightarrow> (\<forall>n. junk_size p n \<longrightarrow> uint n \<le> m)"
proof
  assume "uint (largest_junk p) \<le> m"
  then show "\<forall>n. junk_size p n \<longrightarrow> uint n \<le> m"
    using largest_junk_max by (force simp: word_le_def)
next
  assume "\<forall>n. junk_size p n \<longrightarrow> uint n \<le> m"
  then show "uint (largest_junk p) \<le> m" using largest_junk_reached [OF assms] by blast
qed

lemma check_junk_iff: "check_junk p = None \<longleftrightarrow> junk_fits 65527 p"
proof -
  have "largest_junk p > 65527 \<longleftrightarrow> \<not> uint (largest_junk p) \<le> 65527" by (simp add: word_less_def not_le)
  then show ?thesis
    by (simp add: check_junk_def junk_fits_def largest_junk_le [symmetric] word_gt_0 not_le not_less)
qed

text \<open>Acceptance, in full.\<close>

definition accepted :: "awg_config \<Rightarrow> bool" where
  "accepted c \<longleftrightarrow>
     config_wf c \<and>
     \<not> key_is_zero (i_priv (c_iface c)) \<and> (\<forall>p \<in> set (c_peers c). \<not> key_is_zero (p_pub p)) \<and>
     junk_fits 65527 (i_params (c_iface c)) \<and> wire_fits 65527 (i_params (c_iface c))"

lemma validate_config_iff:
  "config_wf c \<Longrightarrow> validate_config c = None \<longleftrightarrow> accepted c"
  by (simp add: validate_config_def accepted_def check_public_keys_None [of 0, symmetric]
      check_junk_iff [symmetric] check_wire_sizes_iff [symmetric] split: option.splits)

lemma awg_parse_Inr:
  assumes "awg_parse text = Inr c"
  shows "accepted c"
proof -
  from assms obtain s ls where p: "parse_loop 1 ([], zero_config) ls = Inr (s, c)"
    and v: "validate_config c = None"
    by (auto simp: awg_parse_def split: prod.splits sum.splits if_splits option.splits)
  have "loop_inv (s, c)" by (rule parse_loop_inv [OF zero_config_inv p])
  then have "config_wf c" by (simp add: loop_inv_def)
  with v show ?thesis by (simp add: validate_config_iff)
qed

end
