(* ===== verification/Awg_Sizes.thy ===== *)
theory Awg_Sizes
  imports Awg_Roundtrip Awg_Accept
begin

text \<open>
  The scanner of \<open>Parse\<close> refuses a line of 64 KiB. The lemmas here bound the lines \<open>String\<close> renders, so that
  the round trip rests on the sizes of the fields alone; the properties of \<open>internal/awgconf\<close> close the theory.
\<close>

section \<open>Lengths\<close>

lemma show_nat_length: "n < 10 ^ Suc k \<Longrightarrow> length (show_nat n) \<le> Suc k"
proof (induction k arbitrary: n)
  case 0
  then show ?case by (simp add: show_nat.simps)
next
  case (Suc k)
  show ?case
  proof (cases "n < 10")
    case False
    have "n div 10 < 10 ^ Suc k" using Suc.prems by (simp add: less_mult_imp_div_less)
    then have "length (show_nat (n div 10)) \<le> Suc k" by (rule Suc.IH)
    with False show ?thesis by (simp add: show_nat.simps [of n])
  qed (simp add: show_nat.simps)
qed

lemma length_show_u32: "length (show_u32 w) \<le> 10"
  using show_nat_length [of "unat w" 9] unat_u32 [of w] by (simp add: show_u32_def)

lemma length_show_u16: "length (show_u16 w) \<le> 10"
  using show_nat_length [of "unat w" 9] unat_u16 [of w] by (simp add: show_u16_def)

lemma length_show_int: "- (2 ^ 63) \<le> i \<Longrightarrow> i < 2 ^ 63 \<Longrightarrow> length (show_int i) \<le> 20"
  using show_nat_length [of "nat \<bar>i\<bar>" 18] by (auto simp: show_int_def nat_less_iff abs_if split: if_splits)

lemma length_b64_encode: "length (b64_encode bs) = 4 * ((length bs + 2) div 3)"
  by (induction bs rule: b64_encode.induct) (simp_all add: Let_def, presburger)

lemma length_key_string: "key_ok k \<Longrightarrow> length (key_string k) = 44"
  by (simp add: key_string_def length_b64_encode key_ok_def)

lemma length_range_string: "length (range_string r) \<le> 21"
  using length_show_u32 [of "r_lo r"] length_show_u32 [of "r_hi r"] by (simp add: range_string_def)

lemma length_octet: "d \<in> set (octets w) \<Longrightarrow> length (show_nat d) \<le> 3"
  using show_nat_length [of d 2] octets_lt [of d w] by simp

lemma length_show_v4: "length (show_v4 w) \<le> 15"
proof -
  obtain a b c d where o: "octets w = [a, b, c, d]" by (simp add: octets_def)
  then have "x \<in> {a, b, c, d} \<Longrightarrow> length (show_nat x) \<le> 3" for x
    using length_octet [of x w] by auto
  from this [of a] this [of b] this [of c] this [of d] show ?thesis
    by (simp add: show_v4_def o)
qed

lemma length_show_prefix: "v4_prefix p \<Longrightarrow> length (show_prefix p) \<le> 18"
proof -
  assume "v4_prefix p"
  then obtain w b where p: "p = Prefix (V4 w) b" "0 \<le> b" "b \<le> 32"
    by (cases p; cases "paddr p") (auto simp: v4_prefix_def)
  then have "length (show_int b) \<le> 2" using show_nat_length [of "nat b" 1] by (simp add: show_int_def nat_less_iff)
  with p length_show_v4 [of w] show ?thesis by (simp add: show_prefix_def valid_prefix_def)
qed

lemma length_joinList:
  "\<forall>x \<in> set xs. length (f x) \<le> 18 \<Longrightarrow> length (joinList f xs) \<le> 20 * length xs"
  unfolding joinList_def by (induction xs rule: induct_list012) auto

definition config_short :: "awg_config \<Rightarrow> bool" where
  "config_short c \<longleftrightarrow>
     length (i_addresses (c_iface c)) \<le> 3000 \<and> length (i_dns (c_iface c)) \<le> 3000 \<and>
     (\<forall>v \<in> set (I_specs (i_params (c_iface c))). length v \<le> 60000) \<and>
     (\<forall>p \<in> set (c_peers c). length (p_endpoint p) \<le> 60000 \<and> length (p_allowed p) \<le> 3000)"

lemma conf_line_length: "length (conf_line k v) = length k + length v + 3"
  by (simp add: conf_line_def)

lemma conf_opt_length: "length k + length v + 3 < n \<Longrightarrow> l \<in> set (conf_opt b k v) \<Longrightarrow> length l < n"
  by (auto simp: conf_opt_def conf_line_length split: if_splits)

lemma numbered_length: "i < 10 \<Longrightarrow> length (numbered k i) \<le> length k + 2"
  using show_nat_length [of "Suc i" 1] by (simp add: numbered_def)

lemma numbered_opt_length:
  assumes "l \<in> set (concat (map (\<lambda>(n, v). conf_opt (g v) (numbered k n) (f v)) (enumerate 0 vs)))"
    and "length vs \<le> 5" and "\<forall>v \<in> set vs. length (f v) \<le> 60000" and "length k = 1"
  shows "length l < 65536"
proof -
  from assms(1) obtain n v where nv: "(n, v) \<in> set (enumerate 0 vs)"
    and l: "l \<in> set (conf_opt (g v) (numbered k n) (f v))" by auto
  from nv have "n < 10" "v \<in> set vs" using assms(2) by (auto simp: in_set_enumerate_eq)
  with l assms numbered_length [of n k] conf_opt_length [of "numbered k n" "f v" 65536 l] show ?thesis by force
qed

lemma iface_lines_length:
  assumes ok: "iface_ok i" and "length (i_addresses i) \<le> 3000" "length (i_dns i) \<le> 3000"
    and specs: "\<forall>v \<in> set (I_specs (i_params i)). length v \<le> 60000" and l: "l \<in> set (iface_lines i)"
  shows "length l < 65536"
proof -
  let ?p = "i_params i"
  have a: "length (joinList show_prefix (i_addresses i)) \<le> 60000"
    using length_joinList [of "i_addresses i" show_prefix] length_show_prefix assms
    by (auto simp: iface_ok_def list_all_iff)
  have "length (show_addr d) \<le> 18" if "is4 d" for d
    using that length_show_v4 by (cases d) (auto intro: order_trans [of _ 15])
  then have d: "length (joinList show_addr (i_dns i)) \<le> 60000"
    using length_joinList [of "i_dns i" show_addr] assms by (auto simp: iface_ok_def list_all_iff)
  have k: "length (key_string (i_priv i)) = 44" using ok by (simp add: iface_ok_def length_key_string)
  have m: "length (show_int (i_mtu i)) \<le> 20" using ok length_show_int by (simp add: iface_ok_def)
  have u: "100 \<le> n \<Longrightarrow> length (show_u16 w) < n" "100 \<le> n \<Longrightarrow> length (show_u32 v) < n" for w v n
    using length_show_u16 [of w] length_show_u32 [of v] by simp_all
  consider "l \<in> {''[Interface]'', conf_line ''PrivateKey'' (key_string (i_priv i)),
        conf_line ''S1'' (show_u16 (S1 ?p)), conf_line ''S2'' (show_u16 (S2 ?p)),
        conf_line ''S3'' (show_u16 (S3 ?p)), conf_line ''S4'' (show_u16 (S4 ?p))}"
    | "l = conf_line ''Address'' (joinList show_prefix (i_addresses i))"
    | "l = conf_line ''DNS'' (joinList show_addr (i_dns i))"
    | "l = conf_line ''ListenPort'' (show_u16 (i_port i))"
    | "l = conf_line ''MTU'' (show_int (i_mtu i))"
    | "l \<in> {conf_line ''Jc'' (show_u32 (Jc ?p)), conf_line ''Jmin'' (show_u32 (Jmin ?p)),
        conf_line ''Jmax'' (show_u32 (Jmax ?p))}"
    | (h) "l \<in> set (concat (map (\<lambda>(n, r). conf_opt (\<not> range_is_zero r) (numbered ''H'' n) (range_string r))
           (enumerate 0 [H1 ?p, H2 ?p, H3 ?p, H4 ?p])))"
    | (s) "l \<in> set (concat (map (\<lambda>(n, v). conf_opt (v \<noteq> []) (numbered ''I'' n) v) (enumerate 0 (I_specs ?p))))"
    using l unfolding iface_lines_def Let_def conf_opt_def
    by (simp only: set_append Un_iff set_simps insert_iff empty_iff split: if_split_asm) blast+
  then show ?thesis
  proof cases
    case h
    then show ?thesis
      by (rule numbered_opt_length) (auto intro: order_trans [OF length_range_string])
  next
    case s
    then show ?thesis
      by (rule numbered_opt_length) (use ok specs in \<open>auto simp: iface_ok_def params_ok_def\<close>)
  qed (use a d k m in \<open>auto simp: conf_line_length u\<close>)
qed

lemma peer_lines_length:
  assumes ok: "peer_ok p" and "length (p_endpoint p) \<le> 60000" "length (p_allowed p) \<le> 3000"
    and l: "l \<in> set (peer_lines p)"
  shows "length l < 65536"
proof -
  have a: "length (joinList show_prefix (p_allowed p)) \<le> 60000"
    using length_joinList [of "p_allowed p" show_prefix] length_show_prefix assms
    by (auto simp: peer_ok_def list_all_iff)
  have k: "length (key_string (p_pub p)) = 44" "length (key_string (p_psk p)) = 44"
    using ok by (simp_all add: peer_ok_def length_key_string)
  have u: "100 \<le> n \<Longrightarrow> length (show_u32 v) < n" for v n using length_show_u32 [of v] by simp
  show ?thesis
    using l assms(2) a k
    by (auto simp: peer_lines_def conf_opt_def conf_line_length u split: if_split_asm)
qed

lemma config_lines_length:
  assumes "config_ok c" and "config_short c" and "l \<in> set (config_lines c)"
  shows "length l < max_token"
  using assms iface_lines_length [of "c_iface c" l] peer_lines_length
  by (auto simp: config_lines_def config_ok_def config_short_def list_all_iff max_token_def)

section \<open>Properties\<close>


text \<open>A configuration for the witnesses.\<close>

definition sample_config :: awg_config where
  "sample_config =
     \<lparr>c_iface = \<lparr>i_priv = replicate 32 1, i_addresses = [Prefix (V4 0x0A080002) 32], i_dns = [V4 0x01010101],
        i_port = 0, i_mtu = 1280,
        i_params = zero_params\<lparr>Jc := 4, Jmin := 40, Jmax := 70, S1 := 20, I_specs := [''<b 0x01><r 8>'', [], [], [], []]\<rparr>\<rparr>,
      c_peers = [\<lparr>p_pub = replicate 32 2, p_psk = zero_key, p_endpoint = ''192.0.2.1:51820'',
        p_allowed = [Prefix (V4 0) 0], p_keepalive = 25\<rparr>]\<rparr>"

lemma sample_key: "\<not> key_is_zero (replicate 32 1)" "\<not> key_is_zero (replicate 32 2)"
  by (simp_all add: key_is_zero_def zero_key_def numeral_eq_Suc)

lemma sample_ok: "config_ok sample_config"
  by (simp add: sample_config_def config_ok_def iface_ok_def peer_ok_def key_ok_def zero_params_def zero_range_def
      range_ok_def zero_key_def v4_prefix_def params_ok_def text_ok_def safe_value_def is_space_def)

lemma sample_short: "config_short sample_config"
  by (simp add: sample_config_def config_short_def)

lemma sample_wf: "config_wf sample_config"
  by (simp add: sample_config_def config_wf_def iface_wf_def peer_wf_def params_wf_def key_ok_def zero_params_def
      zero_range_def range_ok_def zero_key_def params_ok_def)

lemma sample_fields: "str_fields ''b 0x01'' = [''b'', ''0x01'']" "str_fields ''r 8'' = [''r'', ''8'']"
  by (simp_all add: str_fields.simps trim_left_def is_space_def)

lemma sample_tag_size: "tag_size ''b'' ''0x01'' = Some 1" "tag_size ''r'' ''8'' = Some 8"
proof -
  have "hex_encode [1] = ''01''" by (simp add: hex_alphabet_def)
  then have "hex_decode ''01'' = Some [1]" using hex_decode_encode [of "[1]"] by simp
  then show "tag_size ''b'' ''0x01'' = Some 1"
    by (simp add: tag_size_def trim_prefix_def has_prefix_def)
  have "digit_char 8 = CHR ''8''" by code_simp
  then have "show_int 8 = ''8''" by (simp add: show_int_def show_nat.simps)
  then have "atoi ''8'' = Inr 8" using atoi_show_int [of 8] by simp
  then show "tag_size ''r'' ''8'' = Some 8" by (simp add: tag_size_def)
qed

lemma sample_tags: "tag_sizes [] ''<b 0x01><r 8>'' = Some [1, 8]"
  by (simp add: tag_sizes.simps sample_fields sample_tag_size)

lemma sample_valid: "validate_config sample_config = None"
proof -
  have "check_junk (i_params (c_iface sample_config)) = None"
    by (simp add: sample_config_def check_junk_def zero_params_def junk_packets_def contains_byte_def largest_junk_def)
  moreover have "signature_fits 65527 ''<b 0x01><r 8>''" "signature_fits 65527 []"
    using signature_fits_no_tags [of "[]" 65527] by (simp_all add: signature_fits_def sample_tags)
  then have "wire_fits 65527 (i_params (c_iface sample_config))"
    by (simp add: sample_config_def wire_fits_def zero_params_def)
  ultimately show ?thesis
    by (simp add: validate_config_iff sample_wf accepted_def check_junk_iff) (simp add: sample_config_def sample_key)
qed

lemma sample_wire: "wire_fits 65507 (i_params (c_iface sample_config))"
proof -
  have "signature_fits 65507 ''<b 0x01><r 8>''" "signature_fits 65507 []"
    using signature_fits_no_tags [of "[]" 65507] by (simp_all add: signature_fits_def sample_tags)
  then show ?thesis by (simp add: sample_config_def wire_fits_def zero_params_def)
qed

lemma sample_parses: "awg_parse (config_string sample_config) = Inr sample_config"
  using awg_parse_config_string [OF sample_ok] sample_valid config_lines_length [OF sample_ok sample_short] by simp


text \<open>C2. Whatever text \<open>C7. Parse\<close> accepts, the configuration it returns has a private key, a public key for every
  peer, header ranges in order, an MTU of a 64-bit integer, and obfuscation parameters that keep every junk packet, padded
  handshake message and signature packet within a UDP payload and their number within the 128 slots of the sender.\<close>

theorem parse_accepts:
  assumes "awg_parse t = Inr c"
  shows "accepted c"
  using assms by (rule awg_parse_Inr)

theorem parse_accepts_witness: "accepted sample_config"
using sample_parses by (rule parse_accepts)

end
