(* ===== verification/Identity.thy ===== *)
theory Identity
  imports Awg_Accept
begin

text \<open>
  \<open>internal/daemon/identity.go\<close>: the server's key and shared obfuscation parameters.
  \<open>new_identity\<close> is \<open>newIdentity\<close>; \<open>draw i n\<close> is what the \<open>i\<close>-th \<open>rand.Int\<close> returns for the bound \<open>n\<close>
  (\<open>None\<close>: \<open>crypto/rand\<close> failed and \<open>randInt\<close> panics). \<open>encode_identity\<close> and \<open>decode_identity\<close> are the two
  halves of \<open>saveIdentity\<close> and \<open>loadIdentity\<close> around \<open>encoding/json\<close>, whose encoder and decoder are the arguments \<open>marshal\<close> and
  \<open>unmarshal\<close>. \<open>identity_step\<close> interleaves any number of \<open>LoadOrCreateIdentity\<close> calls over one
  \<open>identity.json\<close>: reading it and hard-linking it into place are the atomic steps; the temporary file is private to its creator.
\<close>

record identity =
  id_private :: key
  id_params :: params

record identity_file =
  if_private :: string
  if_S1 :: u16
  if_S2 :: u16
  if_S3 :: u16
  if_S4 :: u16
  if_H1 :: string
  if_H2 :: string
  if_H3 :: string
  if_H4 :: string

datatype identity_error =
    ReadError
  | BadJson
  | BadKey key_error
  | BadHeader nat range_error
  | NoRandom key_error
  | RandPanic
  | SaveError
  | NotExist

section \<open>Generation\<close>

definition randInt :: "(int \<Rightarrow> int option) \<Rightarrow> int \<Rightarrow> int \<Rightarrow> identity_error + int" where
  "randInt rand_Int lo hi = (case rand_Int (hi - lo + 1) of None \<Rightarrow> Inl RandPanic | Some n \<Rightarrow> Inr (lo + n))"

definition header_range :: "u32 \<Rightarrow> nat \<Rightarrow> range" where
  "header_range base i =
     (let lo = base + of_nat i * 0x100000 in \<lparr>r_lo = lo, r_hi = lo + 4095\<rparr>)"

definition new_identity :: "u8 list option \<Rightarrow> (nat \<Rightarrow> int \<Rightarrow> int option) \<Rightarrow> identity_error + identity" where
  "new_identity rand draw =
     rbind (wrap_err NoRandom (GeneratePrivateKey rand)) (\<lambda>priv.
     rbind (randInt (draw 0) 15 100) (\<lambda>s1.
     rbind (randInt (draw 1) 15 100) (\<lambda>s2.
     rbind (randInt (draw 2) 10 60) (\<lambda>s3.
     rbind (randInt (draw 3) 8 16) (\<lambda>s4.
     rbind (randInt (draw 4) 0x10000 0x40000000) (\<lambda>b.
       let base = of_int b
       in Inr \<lparr>id_private = priv,
               id_params = zero_params\<lparr>S1 := of_int s1, S2 := of_int s2, S3 := of_int s3, S4 := of_int s4,
                 H1 := header_range base 0, H2 := header_range base 1,
                 H3 := header_range base 2, H4 := header_range base 3\<rparr>\<rparr>))))))"

section \<open>The file\<close>

definition to_file :: "identity \<Rightarrow> identity_file" where
  "to_file idn =
     (let p = id_params idn
      in \<lparr>if_private = key_string (id_private idn), if_S1 = S1 p, if_S2 = S2 p, if_S3 = S3 p, if_S4 = S4 p,
          if_H1 = range_string (H1 p), if_H2 = range_string (H2 p),
          if_H3 = range_string (H3 p), if_H4 = range_string (H4 p)\<rparr>)"

definition parse_header :: "nat \<Rightarrow> string \<Rightarrow> identity_error + range" where
  "parse_header i h = wrap_err (BadHeader i) (ParseRange h)"

definition from_file :: "identity_file \<Rightarrow> identity_error + identity" where
  "from_file f =
     rbind (wrap_err BadKey (ParseKey (if_private f))) (\<lambda>priv.
     rbind (parse_header 1 (if_H1 f)) (\<lambda>h1.
     rbind (parse_header 2 (if_H2 f)) (\<lambda>h2.
     rbind (parse_header 3 (if_H3 f)) (\<lambda>h3.
     rbind (parse_header 4 (if_H4 f)) (\<lambda>h4.
       Inr \<lparr>id_private = priv,
            id_params = zero_params\<lparr>S1 := if_S1 f, S2 := if_S2 f, S3 := if_S3 f, S4 := if_S4 f,
              H1 := h1, H2 := h2, H3 := h3, H4 := h4\<rparr>\<rparr>)))))"

definition encode_identity :: "(identity_file \<Rightarrow> string) \<Rightarrow> identity \<Rightarrow> string" where
  "encode_identity marshal idn = marshal (to_file idn)"

definition decode_identity :: "(string \<Rightarrow> identity_file option) \<Rightarrow> string \<Rightarrow> identity_error + identity" where
  "decode_identity unmarshal data =
     (case unmarshal data of None \<Rightarrow> Inl BadJson | Some f \<Rightarrow> from_file f)"

section \<open>What generation gives\<close>

text \<open>An identity that survives the file: only the shared parameters are set.\<close>

definition identity_ok :: "identity \<Rightarrow> bool" where
  "identity_ok idn \<longleftrightarrow>
     (let p = id_params idn
      in key_ok (id_private idn) \<and> range_ok (H1 p) \<and> range_ok (H2 p) \<and> range_ok (H3 p) \<and> range_ok (H4 p) \<and>
         p = zero_params\<lparr>S1 := S1 p, S2 := S2 p, S3 := S3 p, S4 := S4 p, H1 := H1 p, H2 := H2 p, H3 := H3 p, H4 := H4 p\<rparr>)"

lemma from_to_file: "identity_ok idn \<Longrightarrow> from_file (to_file idn) = Inr idn"
  by (cases idn) (auto simp: identity_ok_def from_file_def to_file_def Let_def parse_header_def ParseKey_string
      ParseRange_string)

lemma decode_encode:
  "\<forall>f. unmarshal (marshal f) = Some f \<Longrightarrow> identity_ok idn \<Longrightarrow>
   decode_identity unmarshal (encode_identity marshal idn) = Inr idn"
  by (simp add: decode_identity_def encode_identity_def from_to_file)

definition headers :: "params \<Rightarrow> range list" where
  "headers p = [H1 p, H2 p, H3 p, H4 p]"

text \<open>The four headers of an identity never meet, are 4096 wide and stay clear of the message types of plain WireGuard.\<close>

definition headers_apart :: "params \<Rightarrow> bool" where
  "headers_apart p \<longleftrightarrow>
     (\<forall>i < 4. unat (r_hi (headers p ! i)) = unat (r_lo (headers p ! i)) + 4095 \<and> 65536 \<le> unat (r_lo (headers p ! i))) \<and>
     (\<forall>i < 4. \<forall>j < 4. i < j \<longrightarrow> unat (r_hi (headers p ! i)) < unat (r_lo (headers p ! j)))"

lemma unat_of_nat_u32: "n < 2 ^ 32 \<Longrightarrow> unat (of_nat n :: u32) = n"
  by (simp add: unat_of_nat)

lemma header_range_unat:
  assumes "65536 \<le> b" and "b \<le> 0x40000000" and "i < 4"
  shows "unat (r_lo (header_range (of_int b) i)) = nat b + i * 0x100000"
    and "unat (r_hi (header_range (of_int b) i)) = nat b + i * 0x100000 + 4095"
proof -
  have "(of_int b :: u32) = of_nat (nat b)" using assms by simp
  then have lo: "r_lo (header_range (of_int b) i) = of_nat (nat b + i * 0x100000)"
    "r_hi (header_range (of_int b) i) = of_nat (nat b + i * 0x100000 + 4095)"
    by (simp_all add: header_range_def Let_def)
  have lt: "nat b + i * 0x100000 + 4095 < 2 ^ 32" using assms by auto
  show "unat (r_lo (header_range (of_int b) i)) = nat b + i * 0x100000"
    "unat (r_hi (header_range (of_int b) i)) = nat b + i * 0x100000 + 4095"
    unfolding lo by (rule unat_of_nat_u32, use lt in linarith)+
qed

text \<open>\<open>rand.Int\<close> returns a number below its bound.\<close>

definition draws_below :: "(nat \<Rightarrow> int \<Rightarrow> int option) \<Rightarrow> bool" where
  "draws_below draw \<longleftrightarrow> (\<forall>i n m. draw i n = Some m \<longrightarrow> 0 \<le> m \<and> m < n)"

lemma randInt_bounds: "draws_below draw \<Longrightarrow> randInt (draw i) lo hi = Inr x \<Longrightarrow> lo \<le> x \<and> x \<le> hi"
  by (fastforce simp: randInt_def draws_below_def split: option.splits)

lemma uint_u16_small: "0 \<le> i \<Longrightarrow> i < 65536 \<Longrightarrow> uint (of_int i :: u16) = i"
  by (simp add: uint_word_of_int_eq take_bit_eq_mod)

lemma new_identity_props:
  assumes k0: "length k0 = 32" and draw: "draws_below draw" and new: "new_identity (Some k0) draw = Inr idn"
  shows "identity_ok idn \<and> clamped (id_private idn) \<and> headers_apart (id_params idn) \<and>
    uint (S1 (id_params idn)) \<in> {15..100} \<and> uint (S2 (id_params idn)) \<in> {15..100} \<and>
    uint (S3 (id_params idn)) \<in> {10..60} \<and> uint (S4 (id_params idn)) \<in> {8..16}"
proof -
  from new obtain priv s1 s2 s3 s4 b where g: "GeneratePrivateKey (Some k0) = Inr priv"
    and r: "randInt (draw 0) 15 100 = Inr s1" "randInt (draw 1) 15 100 = Inr s2" "randInt (draw 2) 10 60 = Inr s3"
      "randInt (draw 3) 8 16 = Inr s4" "randInt (draw 4) 0x10000 0x40000000 = Inr b"
    and idn: "idn = \<lparr>id_private = priv, id_params = zero_params\<lparr>S1 := of_int s1, S2 := of_int s2, S3 := of_int s3,
      S4 := of_int s4, H1 := header_range (of_int b) 0, H2 := header_range (of_int b) 1,
      H3 := header_range (of_int b) 2, H4 := header_range (of_int b) 3\<rparr>\<rparr>"
    by (auto simp: new_identity_def Let_def)
  note bounds = r [THEN randInt_bounds [OF draw]]
  have c: "clamped priv" by (rule GeneratePrivateKey_clamped [OF k0 g])
  have nth: "headers (id_params idn) ! i = header_range (of_int b) i" if "i < 4" for i
    using that by (auto simp: headers_def idn less_Suc_eq numeral_eq_Suc)
  have b: "65536 \<le> b" "b \<le> 0x40000000" using bounds(5) by simp_all
  have "headers_apart (id_params idn)"
    unfolding headers_apart_def using b by (auto simp: nth header_range_unat)
  moreover have "range_ok (header_range (of_int b) i)" if "i < 4" for i
    using header_range_unat [OF b that] by (simp add: range_ok_def word_le_nat_alt)
  then have "identity_ok idn" using c by (simp add: identity_ok_def idn Let_def clamped_def)
  ultimately show ?thesis using c bounds by (simp add: idn uint_u16_small)
qed

section \<open>Concurrent creators\<close>

text \<open>
  One \<open>LoadOrCreateIdentity\<close> call: before the first read, before the link with the identity it has
  generated, before the second read after losing the race, and returned. The state is the contents of
  \<open>identity.json\<close> and the calls. Steps that fail leave the file as it was.
\<close>

datatype call = Start | Saving identity | Reload | Returned "identity_error + identity"

inductive identity_step ::
  "(identity_file \<Rightarrow> string) \<Rightarrow> (string \<Rightarrow> identity_file option) \<Rightarrow>
   string option \<times> call list \<Rightarrow> string option \<times> call list \<Rightarrow> bool"
  for marshal unmarshal where
  Load: "i < length cs \<Longrightarrow> cs ! i = Start \<Longrightarrow>
    identity_step marshal unmarshal (Some data, cs) (Some data, cs[i := Returned (decode_identity unmarshal data)])"
| LoadFails: "i < length cs \<Longrightarrow> cs ! i = Start \<Longrightarrow>
    identity_step marshal unmarshal (file, cs) (file, cs[i := Returned (Inl ReadError)])"
| Generate: "i < length cs \<Longrightarrow> cs ! i = Start \<Longrightarrow> length k0 = 32 \<Longrightarrow> draws_below draw \<Longrightarrow>
    new_identity (Some k0) draw = Inr idn \<Longrightarrow>
    identity_step marshal unmarshal (None, cs) (None, cs[i := Saving idn])"
| GenerateFails: "i < length cs \<Longrightarrow> cs ! i = Start \<Longrightarrow> new_identity rand draw = Inl e \<Longrightarrow>
    identity_step marshal unmarshal (None, cs) (None, cs[i := Returned (Inl e)])"
| SaveFails: "i < length cs \<Longrightarrow> cs ! i = Saving idn \<Longrightarrow>
    identity_step marshal unmarshal (file, cs) (file, cs[i := Returned (Inl SaveError)])"
| Link: "i < length cs \<Longrightarrow> cs ! i = Saving idn \<Longrightarrow>
    identity_step marshal unmarshal (None, cs) (Some (encode_identity marshal idn), cs[i := Returned (Inr idn)])"
| LinkExists: "i < length cs \<Longrightarrow> cs ! i = Saving idn \<Longrightarrow>
    identity_step marshal unmarshal (Some data, cs) (Some data, cs[i := Reload])"
| Again: "i < length cs \<Longrightarrow> cs ! i = Reload \<Longrightarrow>
    identity_step marshal unmarshal (file, cs)
      (file, cs[i := Returned (case file of None \<Rightarrow> Inl NotExist | Some data \<Rightarrow> decode_identity unmarshal data)])"
| AgainFails: "i < length cs \<Longrightarrow> cs ! i = Reload \<Longrightarrow>
    identity_step marshal unmarshal (file, cs) (file, cs[i := Returned (Inl ReadError)])"

inductive_cases identity_stepE: "identity_step marshal unmarshal s s'"

text \<open>Whoever returned an identity returned the one in the file, and the identities about to be saved survive it.\<close>

fun call_ok :: "(string \<Rightarrow> identity_file option) \<Rightarrow> string option \<Rightarrow> call \<Rightarrow> bool" where
  "call_ok unmarshal file (Saving idn) = identity_ok idn"
| "call_ok unmarshal file (Returned (Inr idn)) = (\<exists>data. file = Some data \<and> decode_identity unmarshal data = Inr idn)"
| "call_ok unmarshal file Reload = (file \<noteq> None)"
| "call_ok unmarshal file _ = True"

definition calls_ok :: "(string \<Rightarrow> identity_file option) \<Rightarrow> string option \<times> call list \<Rightarrow> bool" where
  "calls_ok unmarshal s \<longleftrightarrow> (\<forall>c \<in> set (snd s). call_ok unmarshal (fst s) c)"

lemma calls_ok_update:
  "calls_ok unmarshal (file, cs) \<Longrightarrow> call_ok unmarshal file c \<Longrightarrow> calls_ok unmarshal (file, cs[i := c])"
  by (auto simp: calls_ok_def dest: set_update_subset_insert [THEN subsetD])

lemma call_ok_returned: "(\<And>idn. r = Inr idn \<Longrightarrow> \<exists>data. file = Some data \<and> decode_identity unmarshal data = Inr idn) \<Longrightarrow>
    call_ok unmarshal file (Returned r)"
  by (cases r) auto

lemma call_ok_published: "call_ok unmarshal None c \<Longrightarrow> call_ok unmarshal (Some data) c"
  by (induction unmarshal "None :: string option" c rule: call_ok.induct) auto

lemma identity_step_file:
  "identity_step marshal unmarshal s s' \<Longrightarrow> fst s = Some data \<Longrightarrow> fst s' = Some data"
  by (auto elim: identity_stepE)

lemma identity_step_ok:
  assumes m: "\<forall>f. unmarshal (marshal f) = Some f" and step: "identity_step marshal unmarshal s s'"
    and ok: "calls_ok unmarshal s"
  shows "calls_ok unmarshal s'"
  using step
proof (cases rule: identity_step.cases)
  case (Generate i cs k0 draw idn)
  then have "identity_ok idn" using new_identity_props by blast
  with Generate ok show ?thesis by (auto intro: calls_ok_update)
next
  case (Link i cs idn)
  then have "Saving idn \<in> set cs" by (metis nth_mem)
  with ok Link have "identity_ok idn" by (force simp: calls_ok_def)
  then have "call_ok unmarshal (Some (encode_identity marshal idn)) (Returned (Inr idn))"
    using decode_encode [OF m] by simp
  moreover have "calls_ok unmarshal (Some (encode_identity marshal idn), cs)"
    using ok Link call_ok_published by (auto simp: calls_ok_def)
  ultimately show ?thesis using Link by (auto intro: calls_ok_update)
qed (use ok in \<open>auto intro!: calls_ok_update call_ok_returned split: option.splits\<close>)

lemma identity_reachable_ok:
  assumes "\<forall>f. unmarshal (marshal f) = Some f"
    and "(identity_step marshal unmarshal)\<^sup>*\<^sup>* (file0, replicate n Start) s"
  shows "calls_ok unmarshal s"
  using assms(2)
  by (induction rule: rtranclp_induct) (auto simp: calls_ok_def [of _ "(file0, replicate n Start)"]
      intro: identity_step_ok [OF assms(1)])

text \<open>Every call comes to an end: a step brings one call closer to its return.\<close>

fun call_left :: "call \<Rightarrow> nat" where
  "call_left Start = 3" | "call_left (Saving _) = 2" | "call_left Reload = 1" | "call_left (Returned _) = 0"

definition calls_left :: "string option \<times> call list \<Rightarrow> nat" where
  "calls_left s = sum_list (map call_left (snd s))"

lemma sum_list_update_less:
  "i < length cs \<Longrightarrow> call_left c < call_left (cs ! i) \<Longrightarrow>
   sum_list (map call_left (cs[i := c])) < sum_list (map call_left cs)"
  by (induction cs arbitrary: i) (auto split: nat.splits)

lemma identity_step_left: "identity_step marshal unmarshal s s' \<Longrightarrow> calls_left s' < calls_left s"
  by (erule identity_stepE) (auto simp: calls_left_def intro!: sum_list_update_less)

section \<open>Properties\<close>

text \<open>C34. A generated identity is sound whatever the random source returns: a clamped key, paddings in the recommended
  ranges, and four header ranges of 4096 values that do not wrap around, do not overlap and stay above the message
  types of plain WireGuard.\<close>

theorem new_identity_sound:
  assumes "length k0 = 32" and "draws_below draw" and "new_identity (Some k0) draw = Inr idn"
  shows "clamped (id_private idn) \<and> headers_apart (id_params idn) \<and>
    uint (S1 (id_params idn)) \<in> {15..100} \<and> uint (S2 (id_params idn)) \<in> {15..100} \<and>
    uint (S3 (id_params idn)) \<in> {10..60} \<and> uint (S4 (id_params idn)) \<in> {8..16}"
  using new_identity_props [OF assms] by blast

abbreviation lowest_draw :: "nat \<Rightarrow> int \<Rightarrow> int option" where
  "lowest_draw i n \<equiv> (if 0 < n then Some 0 else None)"

lemma lowest_draw_below: "draws_below lowest_draw"
  by (simp add: draws_below_def)

lemma lowest_identity: "\<exists>idn. new_identity (Some (replicate 32 1)) lowest_draw = Inr idn"
  by (simp add: new_identity_def GeneratePrivateKey_value randInt_def Let_def)

theorem new_identity_sound_witness:
  "\<exists>idn. new_identity (Some (replicate 32 1)) lowest_draw = Inr idn \<and> headers_apart (id_params idn)"
  using lowest_identity new_identity_sound [OF _ lowest_draw_below, of "replicate 32 1"] by auto

text \<open>C14. However many callers create the identity at once, every one that returns an identity returns the same one,
  the one in \<open>identity.json\<close>.\<close>

theorem identity_agreement:
  assumes "\<forall>f. unmarshal (marshal f) = Some f"
    and "(identity_step marshal unmarshal)\<^sup>*\<^sup>* (file0, replicate n Start) (file, cs)"
    and "Returned (Inr a) \<in> set cs" and "Returned (Inr b) \<in> set cs"
  shows "a = b \<and> (\<exists>data. file = Some data \<and> decode_identity unmarshal data = Inr a)"
proof -
  have "calls_ok unmarshal (file, cs)" by (rule identity_reachable_ok [OF assms(1,2)])
  then have "call_ok unmarshal file (Returned (Inr a))" "call_ok unmarshal file (Returned (Inr b))"
    using assms(3,4) unfolding calls_ok_def by (metis fst_conv snd_conv)+
  then show ?thesis by auto
qed

text \<open>A codec for the witness: every character is announced, every field ended.\<close>

fun pack_field :: "string \<Rightarrow> string" where
  "pack_field [] = ''.''" | "pack_field (c # cs) = CHR ''-'' # c # pack_field cs"

fun unpack_fields :: "string \<Rightarrow> string \<Rightarrow> string list" where
  "unpack_fields acc (a # s) =
     (if a = CHR ''.'' then acc # unpack_fields [] s
      else case s of [] \<Rightarrow> [] | c # s' \<Rightarrow> unpack_fields (acc @ [c]) s')"
| "unpack_fields acc [] = []"

definition pack_file :: "identity_file \<Rightarrow> string" where
  "pack_file f = concat (map pack_field
     [if_private f, show_u16 (if_S1 f), show_u16 (if_S2 f), show_u16 (if_S3 f), show_u16 (if_S4 f),
      if_H1 f, if_H2 f, if_H3 f, if_H4 f])"

definition unpack_file :: "string \<Rightarrow> identity_file option" where
  "unpack_file s =
     (case unpack_fields [] s of
        [p, a, b, c, d, h1, h2, h3, h4] \<Rightarrow>
          (case (parse_uint 16 a, parse_uint 16 b, parse_uint 16 c, parse_uint 16 d) of
             (Inr w, Inr x, Inr y, Inr z) \<Rightarrow>
               Some \<lparr>if_private = p, if_S1 = of_nat w, if_S2 = of_nat x, if_S3 = of_nat y, if_S4 = of_nat z,
                     if_H1 = h1, if_H2 = h2, if_H3 = h3, if_H4 = h4\<rparr>
           | _ \<Rightarrow> None)
      | _ \<Rightarrow> None)"

lemma unpack_pack: "unpack_fields acc (pack_field f @ s) = (acc @ f) # unpack_fields [] s"
  by (induction f arbitrary: acc) auto

lemma unpack_pack_last: "unpack_fields acc (pack_field f) = [acc @ f]"
  using unpack_pack [of acc f "[]"] by simp

lemma unpack_pack_file: "unpack_file (pack_file f) = Some f"
  by (cases f) (simp add: unpack_file_def pack_file_def unpack_pack unpack_pack_last parse_u16)

theorem identity_agreement_witness:
  "\<exists>file idn. (identity_step pack_file unpack_file)\<^sup>*\<^sup>* (None, replicate 2 Start)
     (file, [Returned (Inr idn), Returned (Inr idn)])"
proof -
  let ?step = "identity_step pack_file unpack_file"
  obtain idn where new: "new_identity (Some (replicate 32 1)) lowest_draw = Inr idn" using lowest_identity by blast
  let ?data = "encode_identity pack_file idn"
  have gen: "?step (None, cs) (None, cs[i := Saving idn])" if "i < length cs" "cs ! i = Start" for i cs
    using that by (rule identity_step.Generate [OF _ _ _ lowest_draw_below new]) simp
  have s1: "?step (None, [Start, Start]) (None, [Saving idn, Start])" using gen [of 0 "[Start, Start]"] by simp
  have s2: "?step (None, [Saving idn, Start]) (Some ?data, [Returned (Inr idn), Start])"
    using identity_step.Link [of 0 "[Saving idn, Start]" idn pack_file unpack_file] by simp
  have s3: "?step (Some ?data, [Returned (Inr idn), Start])
      (Some ?data, [Returned (Inr idn), Returned (decode_identity unpack_file ?data)])"
    using identity_step.Load [of 1 "[Returned (Inr idn), Start]" pack_file unpack_file ?data] by simp
  have run: "?step\<^sup>*\<^sup>* (None, replicate 2 Start) (Some ?data, [Returned (Inr idn), Returned (decode_identity unpack_file ?data)])"
    using s1 s2 s3 by (simp add: numeral_2_eq_2)
  have "\<exists>data. Some ?data = Some data \<and> decode_identity unpack_file data = Inr idn"
    using identity_agreement [OF _ run, of idn idn] unpack_pack_file by auto
  with run show ?thesis by auto
qed



end
