(* ===== verification/Store_Alloc.thy ===== *)
theory Store_Alloc
  imports Netip
begin

text \<open>
  The address allocation of \<open>internal/store/store.go\<close>: \<open>first_free\<close> is \<open>firstFree\<close> with its loop
  \<open>first_free_from\<close> (the map of used addresses is a list), \<open>is_broadcast\<close> is \<open>isBroadcast\<close>. The loop ends because the
  address grows until it leaves the subnet or its family. \<open>allocatable\<close> is the declarative reading.
\<close>

definition is_broadcast :: "prefix \<Rightarrow> addr \<Rightarrow> bool" where
  "is_broadcast subnet a \<longleftrightarrow> \<not> contains subnet (next_addr a)"

text \<open>How many addresses of the family are left from this one on.\<close>

fun addrs_left :: "addr \<Rightarrow> nat" where
  "addrs_left NoAddr = 0"
| "addrs_left (V4 w) = 2 ^ 32 - unat w"
| "addrs_left (V6 w z) = 2 ^ 128 - unat w"

lemma addrs_left_next: "a \<noteq> NoAddr \<Longrightarrow> addrs_left (next_addr a) < addrs_left a"
proof (cases a)
  case (V4 w)
  have "unat w < 2 ^ 32" using unsigned_less [of w] by simp
  moreover have "unat (w + 1) = Suc (unat w)" if "w + 1 \<noteq> 0"
    using that unatSuc [of w] by (simp add: add.commute)
  ultimately show ?thesis using V4 by (auto simp: diff_less_mono2)
next
  case (V6 w z)
  have "unat w < 2 ^ 128" using unsigned_less [of w] by simp
  moreover have "unat (w + 1) = Suc (unat w)" if "w + 1 \<noteq> 0"
    using that unatSuc [of w] by (simp add: add.commute)
  ultimately show ?thesis using V6 by (auto simp: diff_less_mono2)
qed simp

lemma contains_not_NoAddr: "contains p a \<Longrightarrow> a \<noteq> NoAddr"
  by (auto simp: contains_def)

function first_free_from :: "prefix \<Rightarrow> addr list \<Rightarrow> addr \<Rightarrow> addr option" where
  "first_free_from subnet used a =
     (if contains subnet a then
        (if a \<notin> set used \<and> \<not> is_broadcast subnet a then Some a
         else first_free_from subnet used (next_addr a))
      else None)"
  by pat_completeness auto
termination
  by (relation "measure (\<lambda>(_, _, a). addrs_left a)") (auto dest!: contains_not_NoAddr addrs_left_next)

declare first_free_from.simps [simp del]

definition first_free :: "prefix \<Rightarrow> addr list \<Rightarrow> addr option" where
  "first_free subnet used = first_free_from subnet used (next_addr (next_addr (paddr subnet)))"

section \<open>The declarative reading\<close>

text \<open>\<open>v\<close> may be handed out: it lies in the subnet beyond the network address and the gateway, is not the
  broadcast address and is not in use.\<close>

definition allocatable :: "prefix \<Rightarrow> addr list \<Rightarrow> u32 \<Rightarrow> bool" where
  "allocatable subnet used v \<longleftrightarrow>
     contains subnet (V4 v) \<and> contains subnet (next_addr (V4 v)) \<and> V4 v \<notin> set used \<and>
     (\<exists>n. paddr subnet = V4 n \<and> unat n + 2 \<le> unat v)"

lemma first_free_from_Some:
  "first_free_from S used a = Some b \<Longrightarrow>
   contains S b \<and> \<not> is_broadcast S b \<and> b \<notin> set used"
  by (induction S used a rule: first_free_from.induct)
    (subst (asm) first_free_from.simps, auto split: if_split_asm)

lemma unat_next: "unat w + 1 < 2 ^ 32 \<Longrightarrow> next_addr (V4 w) = V4 (w + 1) \<and> unat (w + 1) = unat w + 1"
  for w :: u32
proof -
  assume "unat w + 1 < 2 ^ 32"
  then have u: "unat (w + 1) = unat w + 1" by (simp add: unat_word_ariths)
  then have "w + 1 \<noteq> 0" by (metis Suc_eq_plus1 nat.distinct(1) unsigned_0)
  with u show ?thesis by simp
qed

lemma unat_next_last: "\<not> unat w + 1 < 2 ^ 32 \<Longrightarrow> next_addr (V4 w) = NoAddr" for w :: u32
proof -
  assume "\<not> unat w + 1 < 2 ^ 32"
  then have "unat w + 1 = 2 ^ 32" using unat_u32 [of w] by simp
  then have "unat (w + 1) = 0" by (simp add: unat_word_ariths)
  then have "w + 1 = 0" by (simp only: unat_eq_zero)
  then show ?thesis by simp
qed

text \<open>Below every answer nothing is free; without an answer nothing above is.\<close>

lemma first_free_from_V4:
  fixes w :: u32
  assumes "\<And>x y. n \<le> unat x \<Longrightarrow> unat x \<le> unat y \<Longrightarrow> contains S (V4 y) \<Longrightarrow> contains S (V4 x)"
    and "n \<le> unat w"
  shows "(case first_free_from S used (V4 w) of
            Some a \<Rightarrow> (\<exists>v. a = V4 v \<and> unat w \<le> unat v \<and>
              (\<forall>x. unat w \<le> unat x \<and> unat x < unat v \<longrightarrow> V4 x \<in> set used \<or> is_broadcast S (V4 x)))
          | None \<Rightarrow> (\<forall>x. unat w \<le> unat x \<and> contains S (V4 x) \<longrightarrow> V4 x \<in> set used \<or> is_broadcast S (V4 x)))"
  using assms(2)
proof (induction "2 ^ 32 - unat w" arbitrary: w rule: less_induct)
  case less
  show ?case
  proof (cases "contains S (V4 w)")
    case False
    then have "first_free_from S used (V4 w) = None" by (simp add: first_free_from.simps)
    with False assms(1) [OF less.prems] show ?thesis by auto
  next
    case c: True
    show ?thesis
    proof (cases "V4 w \<notin> set used \<and> \<not> is_broadcast S (V4 w)")
      case True
      with c have "first_free_from S used (V4 w) = Some (V4 w)" by (simp add: first_free_from.simps)
      then show ?thesis by simp (metis leD)
    next
      case f: False
      then have eq: "first_free_from S used (V4 w) = first_free_from S used (next_addr (V4 w))"
        using c by (auto simp: first_free_from.simps [of S used "V4 w"] simp del: next_addr.simps)
      have wx: "unat x = unat w \<Longrightarrow> x = w" for x :: u32 by (simp add: word_unat_eq_iff)
      show ?thesis
      proof (cases "unat w + 1 < 2 ^ 32")
        case True
        note nx = unat_next [OF True]
        have "2 ^ 32 - unat (w + 1) < 2 ^ 32 - unat w" "n \<le> unat (w + 1)"
          using nx True less.prems by auto
        from less.hyps [OF this, unfolded conjunct2 [OF nx]] have IH: "case first_free_from S used (V4 (w + 1)) of
            Some a \<Rightarrow> (\<exists>v. a = V4 v \<and> unat w + 1 \<le> unat v \<and>
              (\<forall>x. unat w + 1 \<le> unat x \<and> unat x < unat v \<longrightarrow> V4 x \<in> set used \<or> is_broadcast S (V4 x)))
          | None \<Rightarrow> (\<forall>x. unat w + 1 \<le> unat x \<and> contains S (V4 x) \<longrightarrow> V4 x \<in> set used \<or> is_broadcast S (V4 x))"
          .
        have step: "unat w \<le> unat x \<Longrightarrow> unat w + 1 \<le> unat x \<or> x = w" for x using wx [of x] by linarith
        show ?thesis
          unfolding eq conjunct1 [OF nx] using IH f step
          by (cases "first_free_from S used (V4 (w + 1))") (force, force)
      next
        case False
        then have "first_free_from S used (V4 w) = None"
          unfolding eq by (simp add: unat_next_last first_free_from.simps contains_def del: next_addr.simps)
        moreover have "x = w" if "unat w \<le> unat x" for x
          using that False wx [of x] unat_u32 [of x] by simp
        ultimately show ?thesis using f by auto
      qed
    qed
  qed
qed

text \<open>In an IPv4 subnet membership is convex above the network address.\<close>

lemma contains_V4_iff:
  "paddr S = V4 n \<Longrightarrow> contains S (V4 x) \<longleftrightarrow>
     0 \<le> pbits S \<and> unat x div 2 ^ (32 - nat (pbits S)) = unat n div 2 ^ (32 - nat (pbits S))"
  by (simp add: contains_def valid_prefix_def contains_v4 del: contains_addr.simps)

lemma contains_convex:
  assumes "paddr S = V4 n" and "unat n \<le> unat x" and "unat x \<le> unat y" and "contains S (V4 y)"
  shows "contains S (V4 x)"
  using assms div_le_mono [OF assms(2), of "2 ^ (32 - nat (pbits S))"]
    div_le_mono [OF assms(3), of "2 ^ (32 - nat (pbits S))"]
  by (simp add: contains_V4_iff)

lemma first_free_start:
  assumes "paddr S = V4 n"
  shows "first_free S used =
    (if unat n + 2 < 2 ^ 32 then first_free_from S used (V4 (n + 2)) else None)"
proof -
  have no: "first_free_from S used NoAddr = None" by (simp add: first_free_from.simps contains_def)
  show ?thesis
  proof (cases "unat n + 1 < 2 ^ 32")
    case True
    note nx = unat_next [OF True]
    show ?thesis
    proof (cases "unat n + 2 < 2 ^ 32")
      case two: True
      then have "unat (n + 1) + 1 < 2 ^ 32" using nx by simp
      from unat_next [OF this] have "next_addr (V4 (n + 1)) = V4 (n + 2)" by (simp add: add.assoc)
      with two nx show ?thesis by (simp add: first_free_def assms del: next_addr.simps)
    next
      case False
      with nx have "next_addr (V4 (n + 1)) = NoAddr" by (intro unat_next_last) simp
      with False nx no show ?thesis by (simp add: first_free_def assms del: next_addr.simps)
    qed
  next
    case False
    then have "next_addr (V4 n) = NoAddr" by (rule unat_next_last)
    with False no show ?thesis by (simp add: first_free_def assms del: next_addr.simps(2))
  qed
qed

lemma unat_plus_2: "unat n + 2 < 2 ^ 32 \<Longrightarrow> unat (n + 2) = unat n + 2" for n :: u32
  by (simp add: unat_word_ariths)

lemma first_free_spec:
  assumes n: "paddr S = V4 n"
  shows "case first_free S used of
      Some a \<Rightarrow> (\<exists>v. a = V4 v \<and> allocatable S used v \<and> (\<forall>x. allocatable S used x \<longrightarrow> unat v \<le> unat x))
    | None \<Rightarrow> (\<forall>x. \<not> allocatable S used x)"
proof (cases "unat n + 2 < 2 ^ 32")
  case False
  have "\<not> allocatable S used x" for x
    using False unat_u32 [of x] by (auto simp: allocatable_def n)
  with False show ?thesis by (simp add: first_free_start [OF n])
next
  case True
  have u: "unat (n + 2) = unat n + 2" using True by (rule unat_plus_2)
  have ff: "first_free S used = first_free_from S used (V4 (n + 2))"
    using True by (simp add: first_free_start [OF n])
  have conv: "unat n \<le> unat x \<Longrightarrow> unat x \<le> unat y \<Longrightarrow> contains S (V4 y) \<Longrightarrow> contains S (V4 x)" for x y
    by (rule contains_convex [OF n])
  have al: "allocatable S used x \<longleftrightarrow> contains S (V4 x) \<and> \<not> is_broadcast S (V4 x) \<and>
      V4 x \<notin> set used \<and> unat (n + 2) \<le> unat x" for x
    using u by (auto simp: allocatable_def is_broadcast_def n)
  have main: "case first_free_from S used (V4 (n + 2)) of
            Some a \<Rightarrow> (\<exists>v. a = V4 v \<and> unat (n + 2) \<le> unat v \<and>
              (\<forall>x. unat (n + 2) \<le> unat x \<and> unat x < unat v \<longrightarrow> V4 x \<in> set used \<or> is_broadcast S (V4 x)))
          | None \<Rightarrow> (\<forall>x. unat (n + 2) \<le> unat x \<and> contains S (V4 x) \<longrightarrow> V4 x \<in> set used \<or> is_broadcast S (V4 x))"
    by (rule first_free_from_V4 [OF conv]) (use u in auto)
  show ?thesis
  proof (cases "first_free S used")
    case None
    with main ff al show ?thesis by auto
  next
    case (Some a)
    with main ff obtain v where v: "a = V4 v" "unat (n + 2) \<le> unat v"
      "\<And>x. unat (n + 2) \<le> unat x \<Longrightarrow> unat x < unat v \<Longrightarrow> V4 x \<in> set used \<or> is_broadcast S (V4 x)"
      unfolding ff by auto
    have "allocatable S used v"
      using first_free_from_Some [of S used "V4 (n + 2)" a] Some ff v al by simp
    moreover have "unat v \<le> unat x" if "allocatable S used x" for x
      using v(3) [of x] that al by force
    ultimately show ?thesis using Some v by auto
  qed
qed

lemma first_free_allocatable:
  "paddr S = V4 n \<Longrightarrow> first_free S used = Some a \<Longrightarrow> \<exists>v. a = V4 v \<and> allocatable S used v"
  using first_free_spec [of S n used] by auto

lemma first_free_None_iff:
  "paddr S = V4 n \<Longrightarrow> first_free S used = None \<longleftrightarrow> (\<forall>x. \<not> allocatable S used x)"
  using first_free_spec [of S n used] by (auto split: option.splits)

text \<open>Capacity: all but three addresses of an aligned subnet can be in use at once.\<close>

lemma aligned_contains:
  assumes n: "paddr S = V4 n" and b: "0 \<le> pbits S" and al: "2 ^ (32 - nat (pbits S)) dvd unat n"
  shows "contains S (V4 x) \<longleftrightarrow> unat n \<le> unat x \<and> unat x < unat n + 2 ^ (32 - nat (pbits S))"
proof -
  let ?s = "2 ^ (32 - nat (pbits S)) :: nat"
  have "unat n = unat n div ?s * ?s" using al by simp
  moreover have "unat x div ?s = k \<longleftrightarrow> k * ?s \<le> unat x \<and> unat x < k * ?s + ?s" for k
    using dividend_less_times_div [of ?s "unat x"] by (auto simp: div_nat_eqI mult.commute [of k])
  ultimately show ?thesis
    unfolding contains_V4_iff [OF n] using b by metis
qed

lemma full_needs:
  assumes n: "paddr S = V4 n" and b: "0 \<le> pbits S" and al: "2 ^ (32 - nat (pbits S)) dvd unat n"
    and none: "first_free S used = None"
  shows "2 ^ (32 - nat (pbits S)) \<le> length used + 3"
proof -
  let ?s = "2 ^ (32 - nat (pbits S)) :: nat" and ?f = "\<lambda>a. case a of V4 v \<Rightarrow> unat v | _ \<Rightarrow> 0"
  have top: "unat n + ?s \<le> 2 ^ 32"
  proof -
    have d: "?s dvd 2 ^ 32" by (rule le_imp_power_dvd) simp
    then have "?s dvd 2 ^ 32 - unat n" using al by (rule dvd_diff_nat)
    then have "?s \<le> 2 ^ 32 - unat n" using unat_u32 [of n] by (intro dvd_imp_le) simp_all
    then show ?thesis using unat_u32 [of n] by simp
  qed
  have "{unat n + 2 ..< unat n + ?s - 1} \<subseteq> ?f ` set used"
  proof
    fix k assume k: "k \<in> {unat n + 2 ..< unat n + ?s - 1}"
    with top have k32: "k + 1 < 2 ^ 32" by auto
    then have u: "unat (of_nat k :: u32) = k" by (simp add: unat_of_nat)
    with k32 have nx: "next_addr (V4 (of_nat k)) = V4 (of_nat k + 1)" "unat (of_nat k + 1 :: u32) = k + 1"
      using unat_next [of "of_nat k"] by simp_all
    have "contains S (V4 (of_nat k))" "contains S (V4 (of_nat k + 1))"
      unfolding aligned_contains [OF n b al] u nx(2) using k by auto
    moreover have "\<not> allocatable S used (of_nat k)"
      using none first_free_None_iff [OF n] by blast
    ultimately have "V4 (of_nat k) \<in> set used"
      using k u by (auto simp: allocatable_def n nx(1) simp del: next_addr.simps)
    then show "k \<in> ?f ` set used" using u by (intro image_eqI [of _ _ "V4 (of_nat k)"]) auto
  qed
  then have "card {unat n + 2 ..< unat n + ?s - 1} \<le> card (?f ` set used)" by (intro card_mono) auto
  also have "\<dots> \<le> length used" using card_image_le [of "set used" ?f] card_length [of used] by simp
  finally show ?thesis by simp
qed

section \<open>Properties\<close>

text \<open>C27. Address allocation in an IPv4 subnet: \<open>firstFree\<close> returns the lowest address that lies in the subnet beyond
  the network address and the gateway, is not the broadcast address and is not in use; it reports a full
  subnet exactly when there is none.\<close>

theorem first_free_lowest:
  assumes "paddr subnet = V4 n"
  shows "case first_free subnet used of
      Some a \<Rightarrow> (\<exists>v. a = V4 v \<and> allocatable subnet used v \<and> (\<forall>x. allocatable subnet used x \<longrightarrow> unat v \<le> unat x))
    | None \<Rightarrow> (\<forall>x. \<not> allocatable subnet used x)"
  by (rule first_free_spec [OF assms])

theorem first_free_lowest_witness:
  "case first_free (Prefix (V4 0x0A000000) 24) [V4 0x0A000002] of
     Some a \<Rightarrow> (\<exists>v. a = V4 v \<and> allocatable (Prefix (V4 0x0A000000) 24) [V4 0x0A000002] v \<and>
       (\<forall>x. allocatable (Prefix (V4 0x0A000000) 24) [V4 0x0A000002] x \<longrightarrow> unat v \<le> unat x))
   | None \<Rightarrow> (\<forall>x. \<not> allocatable (Prefix (V4 0x0A000000) 24) [V4 0x0A000002] x)"
  by (rule first_free_lowest [of _ "0x0A000000"]) simp



end
