(* ===== verification/Store.thy ===== *)
theory Store
  imports Awg_Key Store_Alloc "HOL-Library.Product_Lexorder"
begin

text \<open>
  \<open>internal/store/store.go\<close>: users and peers. A row of a table is a record of its columns, a
  table the list of its rows, and a statement acts on it as its SQL says: an \<open>INSERT\<close> refuses a row that breaks a
  \<open>UNIQUE\<close> constraint of the schema, a \<open>DELETE\<close> on \<open>users\<close> removes the peers that reference the user
  (\<open>ON DELETE CASCADE\<close>), \<open>queryPeers\<close> joins, filters, sorts bytewise and parses every row. SQLite itself is third-party:
  the row id it picks is an argument \<open>pick\<close> applied to the ids in use, a failure of the engine (I/O) is not
  modelled, and times are their RFC 3339 text. \<open>Key.Public\<close> is the argument \<open>pub\<close>.
\<close>

record user_row =
  ur_id :: int
  ur_name :: string
  ur_created :: string

record peer_row =
  pw_id :: int
  pw_user :: int
  pw_device :: string
  pw_profile :: string
  pw_private :: string
  pw_public :: string
  pw_ip :: string
  pw_created :: string

record store_db =
  db_users :: "user_row list"
  db_peers :: "peer_row list"

record store_peer =
  sp_id :: int
  sp_user :: string
  sp_device :: string
  sp_profile :: string
  sp_private :: key
  sp_public :: key
  sp_ip :: addr
  sp_created :: string

datatype store_error =
    ErrNotFound
  | ErrExists
  | ErrSubnetFull
  | RandFailed key_error
  | RowKey int key_error
  | RowAddr int

definition DefaultDevice :: string where "DefaultDevice = ''default''"

section \<open>Users\<close>

definition create_user ::
  "(int set \<Rightarrow> int) \<Rightarrow> string \<Rightarrow> string \<Rightarrow> store_db \<Rightarrow> store_error + user_row \<times> store_db" where
  "create_user pick now name db =
     (if \<exists>u \<in> set (db_users db). ur_name u = name then Inl ErrExists
      else let u = \<lparr>ur_id = pick (ur_id ` set (db_users db)), ur_name = name, ur_created = now\<rparr>
           in Inr (u, db\<lparr>db_users := db_users db @ [u]\<rparr>))"

definition delete_user :: "string \<Rightarrow> store_db \<Rightarrow> store_error + store_db" where
  "delete_user name db =
     (let gone = filter (\<lambda>u. ur_name u = name) (db_users db)
      in if gone = [] then Inl ErrNotFound
         else Inr (db\<lparr>db_users := filter (\<lambda>u. ur_name u \<noteq> name) (db_users db),
                       db_peers := filter (\<lambda>p. pw_user p \<notin> ur_id ` set gone) (db_peers db)\<rparr>))"

definition list_users :: "store_db \<Rightarrow> user_row list" where
  "list_users db = sort_key ur_name (db_users db)"

text \<open>\<open>SELECT id FROM users WHERE name = ?\<close>: the first match.\<close>

fun user_id :: "user_row list \<Rightarrow> string \<Rightarrow> int option" where
  "user_id [] name = None"
| "user_id (u # us) name = (if ur_name u = name then Some (ur_id u) else user_id us name)"

section \<open>Peers\<close>

fun parsed_addrs :: "peer_row list \<Rightarrow> addr list" where
  "parsed_addrs [] = []"
| "parsed_addrs (p # ps) =
     (case parse_addr (pw_ip p) of None \<Rightarrow> parsed_addrs ps | Some a \<Rightarrow> a # parsed_addrs ps)"

definition usedAddresses :: "store_db \<Rightarrow> addr list" where
  "usedAddresses db = parsed_addrs (db_peers db)"

text \<open>The constraints of the \<open>peers\<close> table.\<close>

definition clashes :: "peer_row \<Rightarrow> peer_row \<Rightarrow> bool" where
  "clashes p q \<longleftrightarrow>
     pw_public p = pw_public q \<or> pw_ip p = pw_ip q \<or>
     (pw_user p = pw_user q \<and> pw_device p = pw_device q \<and> pw_profile p = pw_profile q)"

definition add_peer ::
  "(int set \<Rightarrow> int) \<Rightarrow> (key \<Rightarrow> key) \<Rightarrow> u8 list option \<Rightarrow> string \<Rightarrow>
   string \<Rightarrow> string \<Rightarrow> string \<Rightarrow> prefix \<Rightarrow> store_db \<Rightarrow> store_error + store_peer \<times> store_db" where
  "add_peer pick pub rand now user device profile subnet db =
     (case GeneratePrivateKey rand of
        Inl e \<Rightarrow> Inl (RandFailed e)
      | Inr priv \<Rightarrow>
     (case user_id (db_users db) user of
        None \<Rightarrow> Inl ErrNotFound
      | Some uid \<Rightarrow>
     (case first_free subnet (usedAddresses db) of
        None \<Rightarrow> Inl ErrSubnetFull
      | Some ip \<Rightarrow>
          let row = \<lparr>pw_id = pick (pw_id ` set (db_peers db)), pw_user = uid, pw_device = device, pw_profile = profile,
                     pw_private = key_string priv, pw_public = key_string (pub priv),
                     pw_ip = show_addr ip, pw_created = now\<rparr>
          in if \<exists>q \<in> set (db_peers db). clashes row q then Inl ErrExists
             else Inr (\<lparr>sp_id = pw_id row, sp_user = user, sp_device = device, sp_profile = profile,
                        sp_private = priv, sp_public = pub priv, sp_ip = ip, sp_created = now\<rparr>,
                       db\<lparr>db_peers := db_peers db @ [row]\<rparr>))))"

definition deletePeers :: "(peer_row \<Rightarrow> bool) \<Rightarrow> store_db \<Rightarrow> store_error + store_db" where
  "deletePeers cond db =
     (if filter cond (db_peers db) = [] then Inl ErrNotFound
      else Inr (db\<lparr>db_peers := filter (\<lambda>p. \<not> cond p) (db_peers db)\<rparr>))"

definition delete_peer :: "string \<Rightarrow> string \<Rightarrow> string \<Rightarrow> store_db \<Rightarrow> store_error + store_db" where
  "delete_peer user device profile db =
     deletePeers (\<lambda>p. pw_profile p = profile \<and> pw_device p = device \<and>
                      Some (pw_user p) = user_id (db_users db) user) db"

definition delete_device :: "string \<Rightarrow> string \<Rightarrow> store_db \<Rightarrow> store_error + store_db" where
  "delete_device user device db =
     deletePeers (\<lambda>p. pw_device p = device \<and> Some (pw_user p) = user_id (db_users db) user) db"

definition read_peer :: "user_row \<times> peer_row \<Rightarrow> store_error + store_peer" where
  "read_peer up =
     (let (u, p) = up
      in case ParseKey (pw_private p) of
           Inl e \<Rightarrow> Inl (RowKey (pw_id p) e)
         | Inr priv \<Rightarrow>
             (case ParseKey (pw_public p) of
                Inl e \<Rightarrow> Inl (RowKey (pw_id p) e)
              | Inr pub \<Rightarrow>
                  (case parse_addr (pw_ip p) of
                     None \<Rightarrow> Inl (RowAddr (pw_id p))
                   | Some ip \<Rightarrow>
                       Inr \<lparr>sp_id = pw_id p, sp_user = ur_name u, sp_device = pw_device p,
                            sp_profile = pw_profile p, sp_private = priv, sp_public = pub, sp_ip = ip,
                            sp_created = pw_created p\<rparr>)))"

definition joined :: "store_db \<Rightarrow> (user_row \<times> peer_row) list" where
  "joined db = [(u, p). p \<leftarrow> db_peers db, u \<leftarrow> db_users db, ur_id u = pw_user p]"

definition peer_order :: "user_row \<times> peer_row \<Rightarrow> string \<times> string \<times> string" where
  "peer_order up = (ur_name (fst up), pw_device (snd up), pw_profile (snd up))"

definition queryPeers :: "(user_row \<times> peer_row \<Rightarrow> bool) \<Rightarrow> store_db \<Rightarrow> store_error + store_peer list" where
  "queryPeers cond db = traverse read_peer (sort_key peer_order (filter cond (joined db)))"

definition find_peer :: "string \<Rightarrow> string \<Rightarrow> string \<Rightarrow> store_db \<Rightarrow> store_error + store_peer" where
  "find_peer user device profile db =
     (case queryPeers (\<lambda>(u, p). ur_name u = user \<and> pw_device p = device \<and> pw_profile p = profile) db of
        Inl e \<Rightarrow> Inl e
      | Inr [] \<Rightarrow> Inl ErrNotFound
      | Inr (p # _) \<Rightarrow> Inr p)"

definition list_peers :: "store_db \<Rightarrow> store_error + store_peer list" where
  "list_peers db = queryPeers (\<lambda>_. True) db"

section \<open>The invariant\<close>

text \<open>What the schema keeps (\<open>constraints\<close>) and what \<open>AddPeer\<close> writes into a row (\<open>row_ok\<close>).\<close>

definition constraints :: "store_db \<Rightarrow> bool" where
  "constraints db \<longleftrightarrow>
     distinct (map ur_id (db_users db)) \<and> distinct (map ur_name (db_users db)) \<and>
     distinct (map pw_id (db_peers db)) \<and> distinct (map pw_public (db_peers db)) \<and>
     distinct (map pw_ip (db_peers db)) \<and>
     distinct (map (\<lambda>p. (pw_user p, pw_device p, pw_profile p)) (db_peers db)) \<and>
     (\<forall>p \<in> set (db_peers db). pw_user p \<in> ur_id ` set (db_users db))"

definition row_ok :: "(key \<Rightarrow> key) \<Rightarrow> peer_row \<Rightarrow> bool" where
  "row_ok pub p \<longleftrightarrow>
     (\<exists>priv w. key_ok priv \<and> pw_private p = key_string priv \<and> pw_public p = key_string (pub priv) \<and>
        pw_ip p = show_addr (V4 w))"

definition db_ok :: "(key \<Rightarrow> key) \<Rightarrow> store_db \<Rightarrow> bool" where
  "db_ok pub db \<longleftrightarrow> constraints db \<and> (\<forall>p \<in> set (db_peers db). row_ok pub p)"

section \<open>Rows\<close>

lemma user_id_Some: "user_id us name = Some i \<Longrightarrow> \<exists>u \<in> set us. ur_name u = name \<and> ur_id u = i"
  by (induction us) (auto split: if_splits)

lemma user_id_None: "user_id us name = None \<longleftrightarrow> name \<notin> ur_name ` set us"
  by (induction us) auto

lemma user_id_iff:
  "distinct (map ur_name us) \<Longrightarrow> user_id us name = Some i \<longleftrightarrow> (\<exists>u \<in> set us. ur_name u = name \<and> ur_id u = i)"
  by (induction us) (auto simp: image_iff)

lemma row_addr: "row_ok pub p \<Longrightarrow> \<exists>w. parse_addr (pw_ip p) = Some (V4 w) \<and> pw_ip p = show_addr (V4 w)"
  by (auto simp: row_ok_def parse_addr_show_v4)

lemma show_v4_inj [simp]: "show_v4 a = show_v4 b \<longleftrightarrow> a = b"
  by (metis addr.inject(1) option.inject parse_addr_show_v4)

lemma set_parsed_addrs: "set (parsed_addrs ps) = {a. \<exists>p \<in> set ps. parse_addr (pw_ip p) = Some a}"
  by (induction ps) (auto split: option.splits)

lemma length_parsed_addrs: "length (parsed_addrs ps) \<le> length ps"
  by (induction ps) (auto split: option.splits)

lemma usedAddresses_set:
  assumes "\<forall>p \<in> set (db_peers db). row_ok pub p"
  shows "V4 w \<in> set (usedAddresses db) \<longleftrightarrow> show_addr (V4 w) \<in> pw_ip ` set (db_peers db)"
proof -
  have "parse_addr (pw_ip p) = Some (V4 w) \<longleftrightarrow> pw_ip p = show_addr (V4 w)" if "p \<in> set (db_peers db)" for p
    using row_addr [of pub p] assms that by auto
  then show ?thesis
    unfolding usedAddresses_def set_parsed_addrs image_iff mem_Collect_eq by metis
qed

text \<open>What the program relies on beyond the repository: SQLite picks a row id that is not in use. The scalar
  multiplication behind \<open>Public\<close> is arbitrary.\<close>

locale store_env =
  fixes pick :: "int set \<Rightarrow> int" and smult :: "key \<Rightarrow> u8 list"
  assumes pick_fresh: "finite S \<Longrightarrow> pick S \<notin> S"
begin

lemma create_user_ok:
  assumes "db_ok (key_public smult) db" and "create_user pick now name db = Inr (u, db')"
  shows "db_ok (key_public smult) db'"
proof -
  have "pick (ur_id ` set (db_users db)) \<notin> ur_id ` set (db_users db)" by (rule pick_fresh) simp
  with assms show ?thesis
    by (auto simp: create_user_def db_ok_def constraints_def Let_def image_iff split: if_splits)
qed

lemma read_peer_row_ok: "row_ok (key_public smult) p \<Longrightarrow> \<exists>sp. read_peer (u, p) = Inr sp"
  by (auto simp: row_ok_def read_peer_def ParseKey_string parse_addr_show_v4)

lemma queryPeers_total:
  assumes "db_ok (key_public smult) db"
  shows "\<exists>ps. queryPeers cond db = Inr ps \<and> list_all2 (\<lambda>up sp. read_peer up = Inr sp)
    (sort_key peer_order (filter cond (joined db))) ps"
proof -
  have "\<exists>ys. traverse read_peer xs = Inr ys" if "set xs \<subseteq> set (joined db)" for xs
    using that
  proof (induction xs)
    case (Cons x xs)
    obtain u p where x: "x = (u, p)" by (cases x)
    with Cons.prems have "p \<in> set (db_peers db)" by (auto simp: joined_def)
    with assms obtain sp where "read_peer x = Inr sp"
      using read_peer_row_ok [of p u] by (auto simp: db_ok_def x)
    with Cons show ?case by auto
  qed simp
  from this [of "sort_key peer_order (filter cond (joined db))"] show ?thesis
    by (auto simp: queryPeers_def traverse_Inr_iff)
qed

lemma add_peer_Inr:
  assumes ok: "db_ok (key_public smult) db" and k0: "length k0 = 32" and S: "is4 (paddr subnet)"
    and add: "add_peer pick (key_public smult) (Some k0) now user device profile subnet db = Inr (sp, db')"
  shows "\<exists>row uid v. db' = db\<lparr>db_peers := db_peers db @ [row]\<rparr> \<and> user_id (db_users db) user = Some uid \<and>
    allocatable subnet (usedAddresses db) v \<and> row_ok (key_public smult) row \<and> (\<forall>q \<in> set (db_peers db). \<not> clashes row q) \<and>
    pw_id row \<notin> pw_id ` set (db_peers db) \<and> pw_user row = uid \<and> pw_device row = device \<and> pw_profile row = profile \<and>
    sp_user sp = user \<and> sp_device sp = device \<and> sp_profile sp = profile \<and> sp_ip sp = V4 v \<and>
    pw_ip row = show_addr (V4 v) \<and> clamped (sp_private sp) \<and> sp_public sp = (key_public smult) (sp_private sp) \<and>
    (\<forall>u. ur_name u = user \<longrightarrow> read_peer (u, row) = Inr sp)"
proof -
  from S obtain n where n: "paddr subnet = V4 n" by (cases "paddr subnet") auto
  from add obtain priv uid ip where g: "GeneratePrivateKey (Some k0) = Inr priv"
    and uid: "user_id (db_users db) user = Some uid" and ip: "first_free subnet (usedAddresses db) = Some ip"
    by (auto simp: add_peer_def split: sum.splits option.splits)
  define row where "row = \<lparr>pw_id = pick (pw_id ` set (db_peers db)), pw_user = uid, pw_device = device,
    pw_profile = profile, pw_private = key_string priv, pw_public = key_string ((key_public smult) priv),
    pw_ip = show_addr ip, pw_created = now\<rparr>"
  have out: "\<forall>q \<in> set (db_peers db). \<not> clashes row q" "db' = db\<lparr>db_peers := db_peers db @ [row]\<rparr>"
    "sp = \<lparr>sp_id = pw_id row, sp_user = user, sp_device = device, sp_profile = profile,
       sp_private = priv, sp_public = (key_public smult) priv, sp_ip = ip, sp_created = now\<rparr>"
    using add by (auto simp: add_peer_def g uid ip Let_def row_def split: if_splits)
  obtain v where v: "ip = V4 v" "allocatable subnet (usedAddresses db) v"
    using first_free_allocatable [OF n ip] by blast
  have c: "clamped priv" by (rule GeneratePrivateKey_clamped [OF k0 g])
  then have p: "key_ok priv" "key_ok ((key_public smult) priv)" by (simp_all add: clamped_def)
  have r: "row_ok (key_public smult) row" using p v by (auto simp: row_ok_def row_def)
  moreover have "pw_id row \<notin> pw_id ` set (db_peers db)"
    unfolding row_def by simp (rule pick_fresh, simp)
  moreover have "read_peer (u, row) = Inr sp" if "ur_name u = user" for u
    using that p v by (simp add: read_peer_def row_def out ParseKey_string parse_addr_show_v4)
  moreover have "pw_ip row = show_addr (V4 v)" by (simp add: row_def v)
  ultimately show ?thesis using out v c uid by (auto simp: row_def)
qed

lemma add_peer_ok:
  assumes ok: "db_ok (key_public smult) db" and "length k0 = 32" and "is4 (paddr subnet)"
    and "add_peer pick (key_public smult) (Some k0) now user device profile subnet db = Inr (sp, db')"
  shows "db_ok (key_public smult) db'"
proof -
  from add_peer_Inr [OF assms] obtain row uid where r: "db' = db\<lparr>db_peers := db_peers db @ [row]\<rparr>" "row_ok (key_public smult) row"
    "user_id (db_users db) user = Some uid" "pw_user row = uid" "\<forall>q \<in> set (db_peers db). \<not> clashes row q"
    "pw_id row \<notin> pw_id ` set (db_peers db)" by blast
  then have "uid \<in> ur_id ` set (db_users db)" using user_id_Some [of "db_users db" user uid] by (metis image_eqI)
  with r ok show ?thesis
    by (auto simp: db_ok_def constraints_def clashes_def image_iff)
qed

text \<open>An address is never refused as taken: \<open>ErrExists\<close> means the tunnel exists or the key does.\<close>

lemma add_peer_Inl:
  assumes ok: "db_ok (key_public smult) db" and k0: "length k0 = 32" and S: "is4 (paddr subnet)"
  shows "add_peer pick (key_public smult) (Some k0) now user device profile subnet db = Inl e \<longleftrightarrow>
    (case user_id (db_users db) user of
       None \<Rightarrow> e = ErrNotFound
     | Some uid \<Rightarrow>
         if \<forall>x. \<not> allocatable subnet (usedAddresses db) x then e = ErrSubnetFull
         else e = ErrExists \<and>
           (\<exists>q \<in> set (db_peers db).
              (pw_user q = uid \<and> pw_device q = device \<and> pw_profile q = profile) \<or>
              pw_public q = key_string ((key_public smult) (projr (GeneratePrivateKey (Some k0))))))"
proof -
  from S obtain n where n: "paddr subnet = V4 n" by (cases "paddr subnet") auto
  obtain priv where g: "GeneratePrivateKey (Some k0) = Inr priv" using GeneratePrivateKey_value [OF k0] by simp
  show ?thesis
  proof (cases "user_id (db_users db) user")
    case None
    then show ?thesis by (auto simp: add_peer_def g)
  next
    case uid: (Some uid)
    show ?thesis
    proof (cases "first_free subnet (usedAddresses db)")
      case None
      then have "\<forall>x. \<not> allocatable subnet (usedAddresses db) x" using first_free_None_iff [OF n] by blast
      with None show ?thesis by (auto simp: add_peer_def g uid)
    next
      case (Some a)
      then obtain v where v: "a = V4 v" "allocatable subnet (usedAddresses db) v"
        using first_free_allocatable [OF n] by blast
      then have "show_addr (V4 v) \<notin> pw_ip ` set (db_peers db)"
        using ok usedAddresses_set [of db "key_public smult" v] by (auto simp: db_ok_def allocatable_def)
      with v Some show ?thesis
        by (auto simp: add_peer_def g uid Let_def clashes_def)
    qed
  qed
qed

end

section \<open>Lookups\<close>

definition lookup_rows :: "string \<Rightarrow> string \<Rightarrow> string \<Rightarrow> store_db \<Rightarrow> (user_row \<times> peer_row) list" where
  "lookup_rows user device profile db =
     filter (\<lambda>(u, p). ur_name u = user \<and> pw_device p = device \<and> pw_profile p = profile) (joined db)"

lemma find_peer_rows:
  "find_peer user device profile db =
     (case traverse read_peer (sort_key peer_order (lookup_rows user device profile db)) of
        Inl e \<Rightarrow> Inl e | Inr [] \<Rightarrow> Inl ErrNotFound | Inr (p # _) \<Rightarrow> Inr p)"
  by (simp add: find_peer_def queryPeers_def lookup_rows_def)

lemma joined_iff: "(u, p) \<in> set (joined db) \<longleftrightarrow> u \<in> set (db_users db) \<and> p \<in> set (db_peers db) \<and> ur_id u = pw_user p"
  by (auto simp: joined_def)

lemma joined_append:
  "joined (db\<lparr>db_peers := db_peers db @ [row]\<rparr>) = joined db @ [(u, row). u \<leftarrow> db_users db, ur_id u = pw_user row]"
  by (simp add: joined_def)

lemma joined_filter_peers:
  "joined (db\<lparr>db_peers := filter Q (db_peers db)\<rparr>) = filter (\<lambda>(u, p). Q p) (joined db)"
proof -
  have "concat (map (\<lambda>p. concat (map (\<lambda>u. if ur_id u = pw_user p then [(u, p)] else []) us)) (filter Q ps)) =
      filter (\<lambda>(u, p). Q p) (concat (map (\<lambda>p. concat (map (\<lambda>u. if ur_id u = pw_user p then [(u, p)] else []) us)) ps))"
    for us ps
  proof (induction ps)
    case (Cons p ps)
    have "filter (\<lambda>(u, p). Q p) (concat (map (\<lambda>u. if ur_id u = pw_user p then [(u, p)] else []) us)) =
        (if Q p then concat (map (\<lambda>u. if ur_id u = pw_user p then [(u, p)] else []) us) else [])"
      by (induction us) auto
    with Cons show ?case by simp
  qed simp
  then show ?thesis by (simp add: joined_def)
qed

lemma owner_unique:
  "distinct (map ur_id us) \<Longrightarrow> u0 \<in> set us \<Longrightarrow> [(u, row). u \<leftarrow> us, ur_id u = ur_id u0] = [(u0, row)]"
proof (induction us)
  case (Cons u us)
  have none: "ur_id u \<notin> ur_id ` set us \<Longrightarrow> [(v, row). v \<leftarrow> us, ur_id v = ur_id u] = []"
    by (auto simp: image_iff)
  show ?case
  proof (cases "u0 = u")
    case True
    with Cons.prems none show ?thesis by simp
  next
    case False
    with Cons.prems have "u0 \<in> set us" "ur_id u \<noteq> ur_id u0" by (auto simp: image_iff)
    with Cons show ?thesis by simp
  qed
qed simp

lemma constraints_id:
  "constraints db \<Longrightarrow> u \<in> set (db_users db) \<Longrightarrow> v \<in> set (db_users db) \<Longrightarrow> ur_id u = ur_id v \<Longrightarrow> u = v"
  unfolding constraints_def distinct_map by (blast dest: inj_onD)

lemma constraints_name:
  "constraints db \<Longrightarrow> u \<in> set (db_users db) \<Longrightarrow> v \<in> set (db_users db) \<Longrightarrow> ur_name u = ur_name v \<Longrightarrow> u = v"
  unfolding constraints_def distinct_map by (blast dest: inj_onD)

lemma constraints_tunnel:
  "constraints db \<Longrightarrow> p \<in> set (db_peers db) \<Longrightarrow> q \<in> set (db_peers db) \<Longrightarrow> pw_user p = pw_user q \<Longrightarrow>
   pw_device p = pw_device q \<Longrightarrow> pw_profile p = pw_profile q \<Longrightarrow> p = q"
  unfolding constraints_def distinct_map inj_on_def by blast

lemma constraints_user:
  "constraints db \<Longrightarrow> u \<in> set (db_users db) \<Longrightarrow> user_id (db_users db) name = Some (ur_id u) \<longleftrightarrow> ur_name u = name"
proof -
  assume c: "constraints db" and u: "u \<in> set (db_users db)"
  then have d: "distinct (map ur_name (db_users db))" "distinct (map ur_id (db_users db))"
    by (simp_all add: constraints_def)
  have "v = u" if "v \<in> set (db_users db)" "ur_id v = ur_id u" for v
    using constraints_id [OF c that(1) u that(2)] .
  with u show ?thesis unfolding user_id_iff [OF d(1)] by blast
qed

lemma owner_iff:
  "constraints db \<Longrightarrow> (u, p) \<in> set (joined db) \<Longrightarrow>
   Some (pw_user p) = user_id (db_users db) name \<longleftrightarrow> ur_name u = name"
  using constraints_user [of db u name] by (auto simp: joined_iff)

text \<open>A row added for one tunnel is the answer for that tunnel and for no other.\<close>

lemma lookup_rows_add:
  assumes c: "constraints db" and row: "user_id (db_users db) user = Some (pw_user row)"
    and fresh: "\<forall>q \<in> set (db_peers db). \<not> clashes row q"
  shows "\<exists>u \<in> set (db_users db). ur_name u = user \<and>
    lookup_rows name device profile (db\<lparr>db_peers := db_peers db @ [row]\<rparr>) =
      (if name = user \<and> device = pw_device row \<and> profile = pw_profile row then [(u, row)]
       else lookup_rows name device profile db)"
proof -
  from row obtain u0 where u0: "u0 \<in> set (db_users db)" "ur_name u0 = user" "ur_id u0 = pw_user row"
    using user_id_Some by blast
  have new: "[(u, row). u \<leftarrow> db_users db, ur_id u = pw_user row] = [(u0, row)]"
    using owner_unique [of "db_users db" u0 row] c u0 by (simp add: constraints_def)
  have old: "lookup_rows user (pw_device row) (pw_profile row) db = []"
  proof -
    have False if "(u, p) \<in> set (joined db)" "ur_name u = user" "pw_device p = pw_device row"
      "pw_profile p = pw_profile row" for u p
    proof -
      from that have "u \<in> set (db_users db)" "p \<in> set (db_peers db)" "ur_id u = pw_user p" by (simp_all add: joined_iff)
      with that row constraints_user [OF c, of u user] have "pw_user p = pw_user row" by simp
      with that fresh \<open>p \<in> set (db_peers db)\<close> show False by (auto simp: clashes_def)
    qed
    then show ?thesis by (auto simp: lookup_rows_def filter_empty_conv)
  qed
  have "lookup_rows name device profile (db\<lparr>db_peers := db_peers db @ [row]\<rparr>) =
      (if name = user \<and> device = pw_device row \<and> profile = pw_profile row then [(u0, row)]
       else lookup_rows name device profile db)"
    using old u0 unfolding lookup_rows_def joined_append new by auto
  with u0 show ?thesis by blast
qed

lemma lookup_rows_deletePeers:
  assumes c: "constraints db" and d: "deletePeers cond db = Inr db'"
    and keep: "\<And>u p. (u, p) \<in> set (joined db) \<Longrightarrow> cond p \<longleftrightarrow> gone (ur_name u) (pw_device p) (pw_profile p)"
  shows "lookup_rows name device profile db' =
    (if gone name device profile then [] else lookup_rows name device profile db)"
proof -
  from d have db': "db' = db\<lparr>db_peers := filter (\<lambda>p. \<not> cond p) (db_peers db)\<rparr>"
    by (auto simp: deletePeers_def split: if_splits)
  show ?thesis
    unfolding lookup_rows_def db' joined_filter_peers filter_filter
    using keep by (auto intro!: filter_cong simp: filter_empty_conv)
qed

lemma lookup_rows_delete_peer:
  assumes "constraints db" and "delete_peer user device profile db = Inr db'"
  shows "lookup_rows n d p db' = (if n = user \<and> d = device \<and> p = profile then [] else lookup_rows n d p db)"
  using assms unfolding delete_peer_def
  by (rule lookup_rows_deletePeers) (auto simp: owner_iff [OF assms(1)])

lemma lookup_rows_delete_device:
  assumes "constraints db" and "delete_device user device db = Inr db'"
  shows "lookup_rows n d p db' = (if n = user \<and> d = device then [] else lookup_rows n d p db)"
  using assms unfolding delete_device_def
  by (rule lookup_rows_deletePeers) (auto simp: owner_iff [OF assms(1)])

text \<open>Deleting a user takes the tunnels of that user along.\<close>

lemma delete_user_joined:
  assumes c: "constraints db" and d: "delete_user name db = Inr db'"
  shows "joined db' = filter (\<lambda>(u, p). ur_name u \<noteq> name) (joined db)"
proof -
  let ?us = "db_users db" and ?keep = "\<lambda>u :: user_row. ur_name u \<noteq> name"
  let ?gone = "ur_id ` set (filter (\<lambda>u. ur_name u = name) ?us)"
  let ?own = "\<lambda>(us :: user_row list) (p :: peer_row). concat (map (\<lambda>u. if ur_id u = pw_user p then [(u, p)] else []) us)"
  from d have db': "db' = db\<lparr>db_users := filter ?keep ?us, db_peers := filter (\<lambda>p. pw_user p \<notin> ?gone) (db_peers db)\<rparr>"
    by (auto simp: delete_user_def Let_def split: if_splits)
  have own: "?own (filter ?keep us) p = filter (\<lambda>(u, p). ?keep u) (?own us p)" for us and p :: peer_row
    by (induction us) auto
  have empty: "filter (\<lambda>(u, p). ?keep u) (?own ?us p) = []" if "pw_user p \<in> ?gone" for p :: peer_row
  proof -
    from that obtain v where v: "v \<in> set ?us" "ur_name v = name" "ur_id v = pw_user p" by auto
    have "ur_name u = name" if "u \<in> set ?us" "ur_id u = pw_user p" for u
      using constraints_id [OF c that(1) v(1)] that v(2,3) by simp
    then show ?thesis by (auto simp: filter_empty_conv split: if_split_asm)
  qed
  have "concat (map (?own (filter ?keep ?us)) (filter (\<lambda>p. pw_user p \<notin> ?gone) ps)) =
      filter (\<lambda>(u, p). ?keep u) (concat (map (?own ?us) ps))" for ps
  proof (induction ps)
    case (Cons p ps)
    then show ?case
      by (cases "pw_user p \<in> ?gone") (simp_all only: filter.simps list.map concat.simps filter_append own empty [of p]
        simp_thms if_True if_False append_Nil)
  qed simp
  then show ?thesis by (simp add: db' joined_def)
qed

lemma lookup_rows_delete_user:
  assumes "constraints db" and "delete_user name db = Inr db'"
  shows "lookup_rows n d p db' = (if n = name then [] else lookup_rows n d p db)"
  unfolding lookup_rows_def delete_user_joined [OF assms] filter_filter
  by (auto intro!: filter_cong simp: filter_empty_conv)

lemma delete_user_ok:
  assumes ok: "db_ok pub db" and d: "delete_user name db = Inr db'"
  shows "db_ok pub db'"
proof -
  let ?gone = "ur_id ` set (filter (\<lambda>u. ur_name u = name) (db_users db))"
  from d have db': "db_users db' = filter (\<lambda>u. ur_name u \<noteq> name) (db_users db)"
    "db_peers db' = filter (\<lambda>p. pw_user p \<notin> ?gone) (db_peers db)"
    by (auto simp: delete_user_def Let_def split: if_splits)
  have "pw_user p \<in> ur_id ` set (db_users db')" if "p \<in> set (db_peers db')" for p
  proof -
    from that ok db' obtain u where "u \<in> set (db_users db)" "ur_id u = pw_user p"
      by (auto simp: db_ok_def constraints_def image_iff)
    moreover from this that db' have "ur_name u \<noteq> name" by (force simp: image_iff)
    ultimately show ?thesis using db' by (auto simp: image_iff)
  qed
  with ok show ?thesis
    unfolding db_ok_def constraints_def using db' by (auto simp: distinct_map_filter)
qed

lemma deletePeers_ok:
  assumes ok: "db_ok pub db" and d: "deletePeers cond db = Inr db'"
  shows "db_ok pub db'"
proof -
  from d have "db' = db\<lparr>db_peers := filter (\<lambda>p. \<not> cond p) (db_peers db)\<rparr>"
    by (auto simp: deletePeers_def split: if_splits)
  with ok show ?thesis
    by (auto simp: db_ok_def constraints_def distinct_map_filter)
qed

section \<open>Reachable databases\<close>

text \<open>Every statement the program runs against the database, with one subnet.\<close>

inductive store_step ::
  "(int set \<Rightarrow> int) \<Rightarrow> (key \<Rightarrow> key) \<Rightarrow> prefix \<Rightarrow> store_db \<Rightarrow> store_db \<Rightarrow> bool"
  for pick pub subnet where
  CreateUser: "create_user pick now name db = Inr (u, db') \<Longrightarrow> store_step pick pub subnet db db'"
| DeleteUser: "delete_user name db = Inr db' \<Longrightarrow> store_step pick pub subnet db db'"
| AddPeer: "length k0 = 32 \<Longrightarrow> add_peer pick pub (Some k0) now user device profile subnet db = Inr (sp, db') \<Longrightarrow>
    store_step pick pub subnet db db'"
| DeletePeer: "delete_peer user device profile db = Inr db' \<Longrightarrow> store_step pick pub subnet db db'"
| DeleteDevice: "delete_device user device db = Inr db' \<Longrightarrow> store_step pick pub subnet db db'"

inductive_cases store_stepE: "store_step pick pub subnet db db'"

definition empty_db :: store_db where "empty_db = \<lparr>db_users = [], db_peers = []\<rparr>"

text \<open>Every tunnel address lies in the subnet, above the gateway and below the broadcast address.\<close>

definition in_subnet :: "prefix \<Rightarrow> store_db \<Rightarrow> bool" where
  "in_subnet subnet db \<longleftrightarrow>
     (\<forall>p \<in> set (db_peers db). \<exists>v. pw_ip p = show_addr (V4 v) \<and> allocatable subnet [] v)"

context store_env begin

lemma step_ok:
  assumes "store_step pick (key_public smult) subnet db db'" and "is4 (paddr subnet)" and "db_ok (key_public smult) db"
  shows "db_ok (key_public smult) db'"
  using assms
  by (cases rule: store_stepE)
    (auto intro: create_user_ok delete_user_ok add_peer_ok deletePeers_ok simp: delete_peer_def delete_device_def)

lemma step_in_subnet:
  assumes "store_step pick (key_public smult) subnet db db'" and S: "is4 (paddr subnet)" and ok: "db_ok (key_public smult) db"
    and i: "in_subnet subnet db"
  shows "in_subnet subnet db'"
proof -
  have sub: "in_subnet subnet db'" if "set (db_peers db') \<subseteq> set (db_peers db)"
    using i that unfolding in_subnet_def by blast
  show ?thesis
    using assms(1)
  proof (cases rule: store_step.cases)
    case (AddPeer k0 now user device profile sp)
    from add_peer_Inr [OF ok AddPeer(1) S AddPeer(2)] obtain row v where
      "db' = db\<lparr>db_peers := db_peers db @ [row]\<rparr>" "allocatable subnet (usedAddresses db) v"
      "pw_ip row = show_addr (V4 v)" by blast
    then show ?thesis using i by (auto simp: in_subnet_def allocatable_def)
  qed (rule sub; auto simp: create_user_def delete_user_def delete_peer_def delete_device_def deletePeers_def Let_def
      split: if_splits)+
qed

lemma reachable_ok:
  assumes "(store_step pick (key_public smult) subnet)\<^sup>*\<^sup>* empty_db db" and "is4 (paddr subnet)"
  shows "db_ok (key_public smult) db \<and> in_subnet subnet db"
  using assms(1)
proof (induction rule: rtranclp_induct)
  case base
  then show ?case by (simp add: empty_db_def db_ok_def constraints_def in_subnet_def)
next
  case (step y z)
  then show ?case using step_ok step_in_subnet assms(2) by blast
qed

end

section \<open>Listing\<close>

definition owner :: "store_db \<Rightarrow> peer_row \<Rightarrow> user_row" where
  "owner db p = hd (filter (\<lambda>u. ur_id u = pw_user p) (db_users db))"

lemma owner_props:
  assumes "constraints db" and "p \<in> set (db_peers db)"
  shows "owner db p \<in> set (db_users db) \<and> ur_id (owner db p) = pw_user p"
proof -
  from assms have "filter (\<lambda>u. ur_id u = pw_user p) (db_users db) \<noteq> []"
    by (fastforce simp: constraints_def filter_empty_conv)
  then have "owner db p \<in> set (filter (\<lambda>u. ur_id u = pw_user p) (db_users db))"
    unfolding owner_def by (rule hd_in_set)
  then show ?thesis by simp
qed

lemma joined_owner:
  assumes c: "constraints db"
  shows "joined db = map (\<lambda>p. (owner db p, p)) (db_peers db)"
proof -
  have one: "concat (map (\<lambda>u. if ur_id u = pw_user p then [(u, p)] else []) (db_users db)) = [(owner db p, p)]"
    if "p \<in> set (db_peers db)" for p
    using owner_unique [of "db_users db" "owner db p" p] owner_props [OF c that] c by (simp add: constraints_def)
  have "concat (map (\<lambda>p. concat (map (\<lambda>u. if ur_id u = pw_user p then [(u, p)] else []) (db_users db))) ps) =
      map (\<lambda>p. (owner db p, p)) ps" if "set ps \<subseteq> set (db_peers db)" for ps
    using that by (induction ps) (simp_all add: one)
  then show ?thesis by (simp add: joined_def)
qed

lemma distinct_order:
  assumes c: "constraints db"
  shows "distinct (map peer_order (joined db))"
proof -
  have "p = q" if "p \<in> set (db_peers db)" "q \<in> set (db_peers db)"
    "peer_order (owner db p, p) = peer_order (owner db q, q)" for p q
  proof -
    have "ur_name (owner db p) = ur_name (owner db q)" "pw_device p = pw_device q" "pw_profile p = pw_profile q"
      using that(3) by (simp_all add: peer_order_def)
    moreover from this owner_props [OF c that(1)] owner_props [OF c that(2)] have "owner db p = owner db q"
      by (intro constraints_name [OF c]) simp_all
    ultimately show ?thesis
      using owner_props [OF c that(1)] owner_props [OF c that(2)] by (intro constraints_tunnel [OF c that(1,2)]) simp_all
  qed
  moreover have "distinct (db_peers db)" using c by (auto simp: constraints_def distinct_map)
  ultimately show ?thesis
    unfolding joined_owner [OF c] by (auto simp: distinct_map inj_on_def)
qed

lemma filter_key_single:
  "distinct (map f xs) \<Longrightarrow> x \<in> set xs \<Longrightarrow> filter (\<lambda>y. f y = f x) xs = [x]"
proof (induction xs)
  case (Cons a xs)
  show ?case
  proof (cases "x = a")
    case True
    with Cons.prems have "filter (\<lambda>y. f y = f a) xs = []" by (auto simp: filter_empty_conv image_iff)
    with True show ?thesis by simp
  next
    case False
    with Cons.prems have "f a \<noteq> f x" by (auto simp: image_iff)
    with False Cons show ?thesis by auto
  qed
qed simp

lemma lookup_rows_single:
  assumes "constraints db" and "up \<in> set (joined db)"
  shows "lookup_rows (ur_name (fst up)) (pw_device (snd up)) (pw_profile (snd up)) db = [up]"
proof -
  have "(\<lambda>(u, p). ur_name u = ur_name (fst up) \<and> pw_device p = pw_device (snd up) \<and> pw_profile p = pw_profile (snd up)) =
      (\<lambda>y. peer_order y = peer_order up)"
    by (auto simp: peer_order_def)
  then show ?thesis
    using filter_key_single [OF distinct_order [OF assms(1)] assms(2)] by (simp add: lookup_rows_def)
qed

lemma lookup_rows_mem:
  "up \<in> set (lookup_rows user device profile db) \<Longrightarrow>
   up \<in> set (joined db) \<and> ur_name (fst up) = user \<and> pw_device (snd up) = device \<and> pw_profile (snd up) = profile"
  by (auto simp: lookup_rows_def)

lemma find_peer_Inr:
  assumes c: "constraints db"
  shows "find_peer user device profile db = Inr sp \<longleftrightarrow>
    (\<exists>up \<in> set (joined db). ur_name (fst up) = user \<and> pw_device (snd up) = device \<and> pw_profile (snd up) = profile \<and>
       read_peer up = Inr sp)"
proof (cases "lookup_rows user device profile db")
  case Nil
  then have "\<not> (ur_name (fst up) = user \<and> pw_device (snd up) = device \<and> pw_profile (snd up) = profile)"
    if "up \<in> set (joined db)" for up
    using lookup_rows_single [OF c that] by auto
  with Nil show ?thesis by (auto simp: find_peer_rows)
next
  case (Cons up rest)
  then have up: "up \<in> set (joined db)" "ur_name (fst up) = user" "pw_device (snd up) = device" "pw_profile (snd up) = profile"
    using lookup_rows_mem [of up user device profile db] by auto
  have rows: "lookup_rows user device profile db = [up]" using lookup_rows_single [OF c up(1)] up by simp
  have uniq: "up' = up" if "up' \<in> set (joined db)" "ur_name (fst up') = user" "pw_device (snd up') = device"
    "pw_profile (snd up') = profile" for up'
    using lookup_rows_single [OF c that(1)] unfolding that(2-4) rows by simp
  have "(\<exists>up' \<in> set (joined db). ur_name (fst up') = user \<and> pw_device (snd up') = device \<and>
      pw_profile (snd up') = profile \<and> read_peer up' = Inr sp) \<longleftrightarrow> read_peer up = Inr sp"
    (is "?l \<longleftrightarrow> ?r")
  proof
    assume ?l
    then obtain up' where a: "up' \<in> set (joined db)" "ur_name (fst up') = user" "pw_device (snd up') = device"
      "pw_profile (snd up') = profile" "read_peer up' = Inr sp" by blast
    from uniq [OF a(1-4)] a(5) show ?r by simp
  next
    assume ?r
    with up show ?l by blast
  qed
  moreover have "find_peer user device profile db = Inr sp \<longleftrightarrow> read_peer up = Inr sp"
    by (simp add: find_peer_rows rows split: sum.splits)
  ultimately show ?thesis by simp
qed

lemma read_peer_fields:
  "read_peer (u, p) = Inr sp \<Longrightarrow> sp_user sp = ur_name u \<and> sp_device sp = pw_device p \<and> sp_profile sp = pw_profile p"
  by (auto simp: read_peer_def split: sum.splits option.splits)

lemma list_peers_spec:
  assumes ok: "db_ok (key_public smult) db" and l: "list_peers db = Inr ps"
  shows "sorted (map (\<lambda>p. (sp_user p, sp_device p, sp_profile p)) ps) \<and>
    distinct (map (\<lambda>p. (sp_user p, sp_device p, sp_profile p)) ps) \<and>
    (\<forall>sp. sp \<in> set ps \<longleftrightarrow> find_peer (sp_user sp) (sp_device sp) (sp_profile sp) db = Inr sp)"
proof -
  let ?rows = "sort_key peer_order (joined db)" and ?key = "\<lambda>p. (sp_user p, sp_device p, sp_profile p)"
  have c: "constraints db" using ok by (simp add: db_ok_def)
  from l have all: "list_all2 (\<lambda>up sp. read_peer up = Inr sp) ?rows ps"
    by (simp add: list_peers_def queryPeers_def traverse_Inr_iff)
  have keys: "map ?key ps = map peer_order ?rows"
    using all by (induction rule: list_all2_induct) (auto simp: peer_order_def dest: read_peer_fields)
  have "distinct (map peer_order ?rows)"
    using distinct_order [OF c] by (metis distinct_map distinct_sort set_sort)
  moreover have "sp \<in> set ps \<longleftrightarrow> find_peer (sp_user sp) (sp_device sp) (sp_profile sp) db = Inr sp" for sp
  proof -
    have "sp \<in> set ps \<longleftrightarrow> (\<exists>up \<in> set ?rows. read_peer up = Inr sp)"
      using all by (induction rule: list_all2_induct) auto
    also have "\<dots> \<longleftrightarrow> (\<exists>up \<in> set (joined db). ur_name (fst up) = sp_user sp \<and> pw_device (snd up) = sp_device sp \<and>
        pw_profile (snd up) = sp_profile sp \<and> read_peer up = Inr sp)"
      by (force dest: read_peer_fields)
    finally show ?thesis unfolding find_peer_Inr [OF c] .
  qed
  ultimately show ?thesis unfolding keys by simp
qed

text \<open>The lookup law of \<open>AddPeer\<close>.\<close>

context store_env begin

lemma add_peer_lookup:
  assumes ok: "db_ok (key_public smult) db" and k0: "length k0 = 32" and S: "is4 (paddr subnet)"
    and add: "add_peer pick (key_public smult) (Some k0) now user device profile subnet db = Inr (sp, db')"
  shows "find_peer n d p db' = (if n = user \<and> d = device \<and> p = profile then Inr sp else find_peer n d p db)"
proof -
  from add_peer_Inr [OF assms] obtain row where r: "db' = db\<lparr>db_peers := db_peers db @ [row]\<rparr>"
    "user_id (db_users db) user = Some (pw_user row)" "\<forall>q \<in> set (db_peers db). \<not> clashes row q"
    "pw_device row = device" "pw_profile row = profile" "\<forall>u. ur_name u = user \<longrightarrow> read_peer (u, row) = Inr sp" by blast
  have c: "constraints db" using ok by (simp add: db_ok_def)
  from lookup_rows_add [OF c r(2,3), of n d p] r show ?thesis
    by (auto simp: find_peer_rows)
qed

lemma add_peer_address:
  assumes ok: "db_ok (key_public smult) db" and k0: "length k0 = 32" and S: "is4 (paddr subnet)"
    and add: "add_peer pick (key_public smult) (Some k0) now user device profile subnet db = Inr (sp, db')"
  shows "\<exists>v. sp_ip sp = V4 v \<and> allocatable subnet (usedAddresses db) v"
  using add_peer_Inr [OF assms] by blast

end

definition next_rowid :: "int set \<Rightarrow> int" where
  "next_rowid S = (if S = {} then 1 else Max S + 1)"

text \<open>SQLite's choice is one more than the largest id in use.\<close>

lemma next_rowid_fresh: "finite S \<Longrightarrow> next_rowid S \<notin> S"
  using Max_ge [of S "Max S + 1"] by (auto simp: next_rowid_def)

interpretation sqlite: store_env next_rowid smult for smult
  by unfold_locales (rule next_rowid_fresh)

section \<open>Properties\<close>


definition sample_db :: store_db where
  "sample_db = \<lparr>db_users = [\<lparr>ur_id = 1, ur_name = ''anna'', ur_created = ''2025-01-01T00:00:00Z''\<rparr>], db_peers = []\<rparr>"

abbreviation sample_add :: "store_db \<Rightarrow> store_error + store_peer \<times> store_db" where
  "sample_add \<equiv> add_peer next_rowid (key_public (\<lambda>k. k)) (Some (replicate 32 1)) ''now'' ''anna'' DefaultDevice ''main''
     (Prefix (V4 0x0A4D0000) 16)"

lemma sample_db_ok: "db_ok pub sample_db"
  by (simp add: db_ok_def constraints_def sample_db_def)

lemma sample_add_Inr: "\<exists>sp db'. sample_add sample_db = Inr (sp, db')"
proof -
  have "first_free (Prefix (V4 0x0A4D0000) 16) [] = Some (V4 0x0A4D0002)"
    by (simp add: first_free_def first_free_from.simps contains_def valid_prefix_def is_broadcast_def)
  then show ?thesis
    by (simp add: add_peer_def sample_db_def GeneratePrivateKey_value usedAddresses_def Let_def)
qed


text \<open>C29. \<open>AddPeer\<close> fails for these reasons only: \<open>ErrNotFound\<close> when the user is unknown, \<open>ErrSubnetFull\<close> when
  no address can be given out, and \<open>ErrExists\<close> when this tunnel, or the generated public key, is already
  there; the address it chose is never the cause.\<close>

theorem add_peer_errors:
  assumes fresh: "\<forall>S. finite S \<longrightarrow> pick S \<notin> S"
    and "db_ok (key_public smult) db" and "length k0 = 32" and "paddr subnet = V4 n"
  shows "add_peer pick (key_public smult) (Some k0) now user device profile subnet db = Inl e \<longleftrightarrow>
    (case user_id (db_users db) user of
       None \<Rightarrow> e = ErrNotFound
     | Some uid \<Rightarrow>
         if \<forall>x. \<not> allocatable subnet (usedAddresses db) x then e = ErrSubnetFull
         else e = ErrExists \<and>
           (\<exists>q \<in> set (db_peers db).
              (pw_user q = uid \<and> pw_device q = device \<and> pw_profile q = profile) \<or>
              pw_public q = key_string (key_public smult (projr (GeneratePrivateKey (Some k0))))))"
proof -
  have env: "store_env pick" using fresh by unfold_locales blast
  have S: "is4 (paddr subnet)" using assms(4) by simp
  show ?thesis by (rule store_env.add_peer_Inl [OF env assms(2,3) S])
qed

theorem add_peer_errors_witness:
  "add_peer next_rowid (key_public (\<lambda>k. k)) (Some (replicate 32 1)) ''now'' ''bob'' DefaultDevice ''main''
     (Prefix (V4 0x0A4D0000) 16) sample_db = Inl ErrNotFound"
proof -
  have "\<forall>S. finite S \<longrightarrow> next_rowid S \<notin> S" using next_rowid_fresh by blast
  from add_peer_errors [OF this sample_db_ok, of "replicate 32 1" "Prefix (V4 0x0A4D0000) 16" "0x0A4D0000"]
  show ?thesis by (simp add: sample_db_def)
qed

text \<open>C31. Deletion: after \<open>DeletePeer\<close> the tunnel is not found, after \<open>DeleteDevice\<close> no tunnel of the device,
  after \<open>DeleteUser\<close> no tunnel of the user, and every other lookup answers as before.\<close>

theorem delete_lookups:
  assumes "constraints db"
  shows "(\<forall>db'. delete_peer user device profile db = Inr db' \<longrightarrow> (\<forall>u d p. find_peer u d p db' =
           (if u = user \<and> d = device \<and> p = profile then Inl ErrNotFound else find_peer u d p db))) \<and>
         (\<forall>db'. delete_device user device db = Inr db' \<longrightarrow> (\<forall>u d p. find_peer u d p db' =
           (if u = user \<and> d = device then Inl ErrNotFound else find_peer u d p db))) \<and>
         (\<forall>db'. delete_user user db = Inr db' \<longrightarrow> (\<forall>u d p. find_peer u d p db' =
           (if u = user then Inl ErrNotFound else find_peer u d p db)))"
  using lookup_rows_delete_peer [OF assms] lookup_rows_delete_device [OF assms] lookup_rows_delete_user [OF assms]
  by (simp add: find_peer_rows)

theorem delete_lookups_witness:
  "\<exists>db'. delete_user ''anna'' sample_db = Inr db' \<and> (\<forall>d p. find_peer ''anna'' d p db' = Inl ErrNotFound)"
proof -
  have "constraints sample_db" using sample_db_ok by (simp add: db_ok_def)
  moreover obtain db' where "delete_user ''anna'' sample_db = Inr db'" by (simp add: delete_user_def sample_db_def)
  ultimately show ?thesis using delete_lookups [of sample_db "''anna''"] by auto
qed

text \<open>C13. Every database the program can reach from the empty one keeps the invariant: distinct users, tunnels, keys and
  addresses, no peer without its user, well-formed keys, and only addresses of the subnet other than network, gateway and
  broadcast.\<close>

theorem reachable_database:
  assumes fresh: "\<forall>S. finite S \<longrightarrow> pick S \<notin> S" and "paddr subnet = V4 n"
    and "(store_step pick (key_public smult) subnet)\<^sup>*\<^sup>* empty_db db"
  shows "db_ok (key_public smult) db \<and> in_subnet subnet db"
proof -
  have env: "store_env pick" using fresh by unfold_locales blast
  have S: "is4 (paddr subnet)" using assms(2) by simp
  show ?thesis by (rule store_env.reachable_ok [OF env assms(3) S])
qed

theorem reachable_database_witness:
  "\<exists>db. (store_step next_rowid (key_public (\<lambda>k. k)) (Prefix (V4 0x0A4D0000) 16))\<^sup>*\<^sup>* empty_db db \<and>
     db_peers db \<noteq> [] \<and> in_subnet (Prefix (V4 0x0A4D0000) 16) db"
proof -
  let ?step = "store_step next_rowid (key_public (\<lambda>k. k)) (Prefix (V4 0x0A4D0000) 16)"
  have "create_user next_rowid ''2025-01-01T00:00:00Z'' ''anna'' empty_db =
      Inr (\<lparr>ur_id = 1, ur_name = ''anna'', ur_created = ''2025-01-01T00:00:00Z''\<rparr>, sample_db)"
    by (simp add: create_user_def empty_db_def sample_db_def next_rowid_def Let_def)
  then have one: "?step empty_db sample_db" by (rule store_step.CreateUser)
  from sample_add_Inr obtain sp db' where a: "sample_add sample_db = Inr (sp, db')" by blast
  then have two: "?step sample_db db'" by (intro store_step.AddPeer) simp_all
  from one two have r: "?step\<^sup>*\<^sup>* empty_db db'" by (meson converse_rtranclp_into_rtranclp r_into_rtranclp)
  have "db_peers db' \<noteq> []" using a by (auto simp: add_peer_def Let_def split: sum.splits option.splits if_splits)
  moreover have "\<forall>S. finite S \<longrightarrow> next_rowid S \<notin> S" using next_rowid_fresh by blast
  from reachable_database [OF this _ r, of "0x0A4D0000"] have "in_subnet (Prefix (V4 0x0A4D0000) 16) db'" by simp
  ultimately show ?thesis using r by blast
qed

text \<open>C30. \<open>ListPeers\<close> succeeds on every well-formed database and returns, sorted by user, device and profile and
  without repetition, exactly the peers that \<open>Peer\<close> finds.\<close>

theorem list_peers_complete:
  assumes "db_ok (key_public smult) db"
  shows "\<exists>ps. list_peers db = Inr ps \<and>
    sorted (map (\<lambda>p. (sp_user p, sp_device p, sp_profile p)) ps) \<and>
    distinct (map (\<lambda>p. (sp_user p, sp_device p, sp_profile p)) ps) \<and>
    (\<forall>sp. sp \<in> set ps \<longleftrightarrow> find_peer (sp_user sp) (sp_device sp) (sp_profile sp) db = Inr sp)"
proof -
  obtain ps where "list_peers db = Inr ps"
    using sqlite.queryPeers_total [OF assms, of "\<lambda>_. True"] by (auto simp: list_peers_def)
  with list_peers_spec [OF assms] show ?thesis by blast
qed

theorem list_peers_complete_witness: "list_peers sample_db = Inr []"
proof -
  have "\<exists>ps. list_peers sample_db = Inr ps" using list_peers_complete [OF sample_db_ok] by blast
  then show ?thesis by (auto simp: list_peers_def queryPeers_def joined_def sample_db_def)
qed

end
