(* ===== verification/Client.thy ===== *)
theory Client
  imports Identity Store Config Awg_Sizes
begin

text \<open>
  \<open>internal/daemon/client.go\<close>: the configuration a user imports. \<open>client_config\<close> is \<open>ClientConfig\<close>, \<open>pub\<close> the
  function \<open>Key.Public\<close>.
\<close>

definition clientJunk :: params where
  "clientJunk = zero_params\<lparr>Jc := 4, Jmin := 40, Jmax := 70,
     I_specs := [''<b 0xc000000001><r 64><t>'', [], [], [], []]\<rparr>"

definition everything :: prefix where
  "everything = Prefix (V4 0) 0"

definition client_config ::
  "(key \<Rightarrow> key) \<Rightarrow> config \<Rightarrow> identity \<Rightarrow> store_peer \<Rightarrow> int \<Rightarrow> awg_config" where
  "client_config pub cfg idn peer mtu =
     (let prms = (id_params idn)\<lparr>Jc := Jc clientJunk, Jmin := Jmin clientJunk, Jmax := Jmax clientJunk,
                    I_specs := I_specs clientJunk\<rparr>
      in \<lparr>c_iface = \<lparr>i_priv = sp_private peer, i_addresses = [prefix_from (sp_ip peer) 32], i_dns = cf_dns cfg,
            i_port = 0, i_mtu = mtu, i_params = prms\<rparr>,
          c_peers = [\<lparr>p_pub = pub (id_private idn), p_psk = zero_key, p_endpoint = cf_endpoint cfg,
            p_allowed = [everything], p_keepalive = 25\<rparr>]\<rparr>)"

section \<open>The client's own parameters\<close>

lemma junk_fields:
  "str_fields ''b 0xc000000001'' = [''b'', ''0xc000000001'']" "str_fields ''r 64'' = [''r'', ''64'']"
  "str_fields ''t'' = [''t'']"
  by (simp_all add: str_fields.simps trim_left_def is_space_def)

lemma junk_tag_sizes:
  "tag_size ''b'' ''0xc000000001'' = Some 5" "tag_size ''r'' ''64'' = Some 64" "tag_size ''t'' [] = Some 4"
proof -
  have "hex_encode [0xc0, 0, 0, 0, 1] = ''c000000001''" by (simp add: hex_alphabet_def)
  then have "hex_decode ''c000000001'' = Some [0xc0, 0, 0, 0, 1]"
    using hex_decode_encode [of "[0xc0, 0, 0, 0, 1]"] by simp
  then show "tag_size ''b'' ''0xc000000001'' = Some 5"
    by (simp add: tag_size_def trim_prefix_def has_prefix_def)
  have "map digit_char [4, 6] = ''46''" by code_simp
  then have "show_int 64 = ''64''" by (simp add: show_int_def show_nat.simps)
  then have "atoi ''64'' = Inr 64" using atoi_show_int [of 64] by simp
  then show "tag_size ''r'' ''64'' = Some 64" by (simp add: tag_size_def)
  show "tag_size ''t'' [] = Some 4" by (simp add: tag_size_def)
qed

lemma junk_tags: "tag_sizes [] ''<b 0xc000000001><r 64><t>'' = Some [5, 64, 4]"
  by (simp add: tag_sizes.simps junk_fields junk_tag_sizes)

lemma client_wire:
  assumes "uint (S1 p) \<le> 100" and "uint (S2 p) \<le> 100" and "uint (S3 p) \<le> 60"
    and "I_specs p = I_specs clientJunk"
  shows "wire_fits 65527 p"
proof -
  have "signature_fits 65527 ''<b 0xc000000001><r 64><t>''" "signature_fits 65527 []"
    using signature_fits_no_tags [of "[]" 65527] by (simp_all add: signature_fits_def junk_tags)
  with assms show ?thesis by (simp add: wire_fits_def clientJunk_def zero_params_def)
qed

section \<open>The rendered configuration\<close>

definition client_ready :: "config \<Rightarrow> identity \<Rightarrow> store_peer \<Rightarrow> int \<Rightarrow> bool" where
  "client_ready cfg idn peer mtu \<longleftrightarrow>
     identity_ok idn \<and> uint (S1 (id_params idn)) \<le> 100 \<and> uint (S2 (id_params idn)) \<le> 100 \<and>
     uint (S3 (id_params idn)) \<le> 60 \<and>
     clamped (sp_private peer) \<and> is4 (sp_ip peer) \<and> list_all is4 (cf_dns cfg) \<and> length (cf_dns cfg) \<le> 3000 \<and>
     text_ok (cf_endpoint cfg) \<and> length (cf_endpoint cfg) \<le> 60000 \<and> - (2 ^ 63) \<le> mtu \<and> mtu < 2 ^ 63"

lemma client_config_ok:
  assumes "client_ready cfg idn peer mtu" and "key_ok (pub (id_private idn))"
  shows "config_ok (client_config pub cfg idn peer mtu) \<and> config_short (client_config pub cfg idn peer mtu)"
proof -
  from assms have "range_ok (H1 (id_params idn)) \<and> range_ok (H2 (id_params idn)) \<and>
      range_ok (H3 (id_params idn)) \<and> range_ok (H4 (id_params idn))"
    by (simp add: client_ready_def identity_ok_def Let_def)
  moreover obtain w where "sp_ip peer = V4 w" using assms by (cases "sp_ip peer") (auto simp: client_ready_def)
  ultimately show ?thesis
    using assms
    by (simp add: client_config_def client_ready_def config_ok_def config_short_def iface_ok_def peer_ok_def Let_def
        clamped_def v4_prefix_def prefix_from_def everything_def params_ok_def clientJunk_def zero_params_def
        text_ok_def safe_value_def is_space_def)
qed

lemma client_config_valid:
  assumes "client_ready cfg idn peer mtu" and "key_ok (pub (id_private idn))"
    and "\<not> key_is_zero (pub (id_private idn))"
  shows "validate_config (client_config pub cfg idn peer mtu) = None"
proof -
  let ?c = "client_config pub cfg idn peer mtu"
  let ?p = "i_params (c_iface ?c)"
  have p: "Jc ?p = 4" "Jmin ?p = 40" "Jmax ?p = 70" "I_specs ?p = I_specs clientJunk"
    "S1 ?p = S1 (id_params idn)" "S2 ?p = S2 (id_params idn)" "S3 ?p = S3 (id_params idn)"
    by (simp_all add: client_config_def Let_def clientJunk_def)
  have "check_junk ?p = None"
    by (simp add: check_junk_def p junk_packets_def largest_junk_def contains_byte_def clientJunk_def zero_params_def)
  moreover have "check_wire_sizes ?p 65527 = None"
    using assms(1) client_wire [of ?p] p by (simp add: check_wire_sizes_iff client_ready_def)
  ultimately show ?thesis
    using assms by (simp add: validate_config_def client_ready_def clamped_not_zero)
      (simp add: client_config_def Let_def clamped_not_zero)
qed

section \<open>Properties\<close>


definition sample_peer :: store_peer where
  "sample_peer = \<lparr>sp_id = 1, sp_user = ''anna'', sp_device = DefaultDevice, sp_profile = ''main'',
     sp_private = (replicate 32 255)[0 := 248, 31 := 127], sp_public = replicate 32 9, sp_ip = V4 0x0A4D0002,
     sp_created = ''now''\<rparr>"


end
