(* ===== verification/Store_Migrate.thy ===== *)
theory Store_Migrate
  imports Store
begin

text \<open>
  The schema migrations of \<open>internal/store/store.go\<close>. A database file is its \<open>user_version\<close>
  and its two tables, where \<open>peers\<close> has the layout of the first or of the second release. \<open>migration\<close> is the list
  \<open>migrations\<close> (\<open>None\<close> when a statement fails), \<open>run_migrations\<close> the loop of \<open>migrate\<close> with one
  transaction per step: the argument \<open>fails\<close> says in which step the engine fails, and a failed transaction is
  rolled back. The backup is a file next to the database; \<open>vacuum_fails\<close> says whether \<open>VACUUM INTO\<close> failed. A negative
  \<open>user_version\<close>, which nothing writes, is not modelled.
\<close>

record old_peer_row =
  ow_id :: int
  ow_user :: int
  ow_profile :: string
  ow_private :: string
  ow_public :: string
  ow_ip :: string
  ow_created :: string

datatype peers_table = NoPeers | OldPeers "old_peer_row list" | NewPeers "peer_row list"

record sqlite_file =
  df_version :: nat
  df_users :: "user_row list option"
  df_peers :: peers_table

record disk =
  dk_db :: sqlite_file
  dk_backups :: "(string \<times> sqlite_file option) list"

datatype migrate_error = BackupExists | BackupFailed | MigrationFailed nat

definition schemaVersion :: "sqlite_file \<Rightarrow> nat" where
  "schemaVersion f =
     (if df_version f \<noteq> 0 then df_version f else if df_users f \<noteq> None then 1 else 0)"

definition upgrade_row :: "old_peer_row \<Rightarrow> peer_row" where
  "upgrade_row p =
     \<lparr>pw_id = ow_id p, pw_user = ow_user p, pw_device = DefaultDevice, pw_profile = ow_profile p,
      pw_private = ow_private p, pw_public = ow_public p, pw_ip = ow_ip p, pw_created = ow_created p\<rparr>"

text \<open>\<open>INSERT INTO peers_new ... SELECT\<close> from the table there is; a second run over the new layout would reset the device.\<close>

fun copied_rows :: "peers_table \<Rightarrow> peer_row list option" where
  "copied_rows NoPeers = None"
| "copied_rows (OldPeers ps) = Some (map upgrade_row ps)"
| "copied_rows (NewPeers ps) = Some (map (\<lambda>p. p\<lparr>pw_device := DefaultDevice\<rparr>) ps)"

definition insertable :: "user_row list option \<Rightarrow> peer_row list \<Rightarrow> bool" where
  "insertable us ps \<longleftrightarrow> (case us of None \<Rightarrow> ps = [] | Some us \<Rightarrow> constraints \<lparr>db_users = us, db_peers = ps\<rparr>)"

definition migration :: "nat \<Rightarrow> sqlite_file \<Rightarrow> sqlite_file option" where
  "migration i f =
     (if i = 0 then
        (if df_users f = None \<and> df_peers f = NoPeers
         then Some (f\<lparr>df_users := Some [], df_peers := OldPeers []\<rparr>) else None)
      else
        (case copied_rows (df_peers f) of
           None \<Rightarrow> None
         | Some rows \<Rightarrow>
             if insertable (df_users f) rows then Some (f\<lparr>df_peers := NewPeers rows\<rparr>) else None))"

definition migration_count :: nat where "migration_count = 2"

fun run_migrations :: "(nat \<Rightarrow> bool) \<Rightarrow> nat list \<Rightarrow> sqlite_file \<Rightarrow> sqlite_file \<times> migrate_error option" where
  "run_migrations fails [] f = (f, None)"
| "run_migrations fails (i # is) f =
     (if fails i then (f, Some (MigrationFailed (Suc i)))
      else case migration i f of
             None \<Rightarrow> (f, Some (MigrationFailed (Suc i)))
           | Some f' \<Rightarrow> run_migrations fails is (f'\<lparr>df_version := Suc i\<rparr>))"

definition backup_name :: "string \<Rightarrow> nat \<Rightarrow> string \<Rightarrow> string" where
  "backup_name path version now = path @ ''.v'' @ show_nat version @ ''-'' @ now @ ''.bak''"

definition migrate ::
  "string \<Rightarrow> string \<Rightarrow> bool \<Rightarrow> (nat \<Rightarrow> bool) \<Rightarrow> disk \<Rightarrow> disk \<times> migrate_error option" where
  "migrate path now vacuum_fails fails d =
     (let version = schemaVersion (dk_db d); backup = backup_name path version now
      in if version \<ge> migration_count then (d, None)
         else if version > 0 \<and> backup \<in> keys (dk_backups d) then (d, Some BackupExists)
         else if version > 0 \<and> vacuum_fails then
           (d\<lparr>dk_backups := mdel backup (mput backup None (dk_backups d))\<rparr>, Some BackupFailed)
         else
           let d' = (if version > 0 then d\<lparr>dk_backups := mput backup (Some (dk_db d)) (dk_backups d)\<rparr> else d);
               (f, e) = run_migrations fails [version..<migration_count] (dk_db d)
           in (d'\<lparr>dk_db := f\<rparr>, e))"

section \<open>Layouts\<close>

text \<open>The databases the releases wrote: an empty file, the first layout with or without a recorded version, the current
  one; in each the rows satisfy the constraints they will be inserted under.\<close>

definition file_users :: "sqlite_file \<Rightarrow> user_row list" where
  "file_users f = (case df_users f of None \<Rightarrow> [] | Some us \<Rightarrow> us)"

fun table_rows :: "peers_table \<Rightarrow> peer_row list" where
  "table_rows NoPeers = []"
| "table_rows (OldPeers ps) = map upgrade_row ps"
| "table_rows (NewPeers ps) = ps"

definition file_db :: "sqlite_file \<Rightarrow> store_db" where
  "file_db f = \<lparr>db_users = file_users f, db_peers = table_rows (df_peers f)\<rparr>"

definition file_ok :: "sqlite_file \<Rightarrow> bool" where
  "file_ok f \<longleftrightarrow> constraints (file_db f) \<and>
     (case df_peers f of
        NoPeers \<Rightarrow> df_version f = 0 \<and> df_users f = None
      | OldPeers _ \<Rightarrow> df_version f \<le> 1 \<and> df_users f \<noteq> None
      | NewPeers _ \<Rightarrow> df_version f = 2 \<and> df_users f \<noteq> None)"

definition current :: "sqlite_file \<Rightarrow> bool" where
  "current f \<longleftrightarrow> df_version f = 2 \<and> df_users f \<noteq> None \<and> (\<exists>ps. df_peers f = NewPeers ps)"

lemma schemaVersion_layout:
  "file_ok f \<Longrightarrow> schemaVersion f = (case df_peers f of NoPeers \<Rightarrow> 0 | OldPeers _ \<Rightarrow> 1 | NewPeers _ \<Rightarrow> 2)"
  by (auto simp: file_ok_def schemaVersion_def le_Suc_eq split: peers_table.splits)

lemma migration_0:
  "file_ok f \<Longrightarrow> df_peers f = NoPeers \<Longrightarrow>
   \<exists>f'. migration 0 f = Some f' \<and> file_db (f'\<lparr>df_version := 1\<rparr>) = file_db f \<and> file_ok (f'\<lparr>df_version := 1\<rparr>) \<and>
     df_peers (f'\<lparr>df_version := 1\<rparr>) = OldPeers []"
  by (auto simp: file_ok_def migration_def file_db_def file_users_def)

lemma migration_1:
  "file_ok f \<Longrightarrow> df_peers f = OldPeers ps \<Longrightarrow>
   \<exists>f'. migration 1 f = Some f' \<and> file_db (f'\<lparr>df_version := 2\<rparr>) = file_db f \<and> file_ok (f'\<lparr>df_version := 2\<rparr>) \<and>
     current (f'\<lparr>df_version := 2\<rparr>)"
  by (auto simp: file_ok_def migration_def file_db_def file_users_def insertable_def current_def)

text \<open>From any release's layout, and whatever step fails, the data is the same and the layout is again one of these.\<close>

lemma run_from_1:
  assumes "file_ok f" and "df_peers f = OldPeers ps"
  shows "case run_migrations fails [1] f of (f', e) \<Rightarrow>
     file_ok f' \<and> file_db f' = file_db f \<and> (e = None \<longleftrightarrow> current f') \<and> (\<not> fails 1 \<longrightarrow> e = None)"
  using migration_1 [OF assms] assms by (auto simp: current_def numeral_2_eq_2)

lemma run_migrations_ok:
  assumes "file_ok f" and "run_migrations fails [schemaVersion f..<2] f = (f', e)"
  shows "file_ok f' \<and> file_db f' = file_db f \<and> (e = None \<longleftrightarrow> current f') \<and> ((\<forall>i. \<not> fails i) \<longrightarrow> e = None)"
proof (cases "df_peers f")
  case (NewPeers ps)
  then show ?thesis using assms by (auto simp: schemaVersion_layout current_def file_ok_def)
next
  case (OldPeers ps)
  have "[schemaVersion f..<2] = [1]" using OldPeers assms(1) by (simp add: schemaVersion_layout upt_rec)
  with run_from_1 [OF assms(1) OldPeers, of fails] assms(2) show ?thesis by auto
next
  case NoPeers
  have l: "[schemaVersion f..<2] = [0, 1]" using NoPeers assms(1) by (simp add: schemaVersion_layout upt_rec)
  obtain f1 where f1: "migration 0 f = Some f1" "file_db (f1\<lparr>df_version := 1\<rparr>) = file_db f"
    "file_ok (f1\<lparr>df_version := 1\<rparr>)" "df_peers (f1\<lparr>df_version := 1\<rparr>) = OldPeers []"
    using migration_0 [OF assms(1) NoPeers] by blast
  have "\<not> current f" using NoPeers by (simp add: current_def)
  with run_from_1 [OF f1(3,4), of fails] assms f1(1,2) show ?thesis
    unfolding l by (auto split: if_split_asm)
qed

section \<open>Properties\<close>


definition sample_disk :: disk where
  "sample_disk =
     \<lparr>dk_db = \<lparr>df_version = 0, df_users = Some [\<lparr>ur_id = 1, ur_name = ''anna'', ur_created = ''t''\<rparr>],
        df_peers = OldPeers [\<lparr>ow_id = 7, ow_user = 1, ow_profile = ''main'', ow_private = ''k'', ow_public = ''p'',
          ow_ip = ''10.77.0.2'', ow_created = ''t''\<rparr>]\<rparr>,
      dk_backups = []\<rparr>"


end
