(* ===== verification/Dataplane.thy ===== *)
theory Dataplane
  imports Netip
begin

text \<open>
  \<open>internal/dataplane/dataplane.go\<close>: the interface between the daemon and the host. A \<open>dataplane\<close> is the
  tuple of its methods over a world type \<open>'w\<close>; a method returns the error (\<open>None\<close> is nil) and the world afterwards.
  \<open>dataplane_contract\<close> states what the comments of the interface promise, over \<open>fwd w peer\<close>: the upstream interface new flows of
  the peer leave through, \<open>None\<close> while its traffic is blocked.
\<close>

record dp_iface =
  di_name :: string
  di_addr :: prefix

record ('w, 'e) dataplane =
  dp_setup :: "dp_iface \<Rightarrow> dp_iface list \<Rightarrow> int \<Rightarrow> 'w \<Rightarrow> 'e option \<times> 'w"
  dp_set_upstreams :: "dp_iface list \<Rightarrow> int \<Rightarrow> 'w \<Rightarrow> 'e option \<times> 'w"
  dp_route :: "addr \<Rightarrow> string \<Rightarrow> 'w \<Rightarrow> 'e option \<times> 'w"
  dp_unroute :: "addr \<Rightarrow> 'w \<Rightarrow> 'e option \<times> 'w"
  dp_set_alive :: "string \<Rightarrow> bool \<Rightarrow> 'w \<Rightarrow> 'e option \<times> 'w"
  dp_teardown :: "'w \<Rightarrow> 'e option \<times> 'w"

text \<open>
  What a client may rely on for safety once the dataplane is set up: \<open>Route\<close> opens at most the peer it is called for, and only if it
  succeeds; no other call opens anything; a successful \<open>Unroute\<close> leaves its peer blocked, on a dataplane that blocks anything at all.
\<close>

locale dataplane_calls =
  fixes dp :: "('w, 'e) dataplane" and fwd :: "'w \<Rightarrow> addr \<Rightarrow> string option"
  assumes route_keeps: "dp_route dp ip i w = (r, w') \<Longrightarrow> a \<noteq> ip \<Longrightarrow> fwd w a = None \<Longrightarrow> fwd w' a = None"
    and route_blocked: "dp_route dp ip i w = (Some e, w') \<Longrightarrow> fwd w ip = None \<Longrightarrow> fwd w' ip = None"
    and unroute_clears: "dp_unroute dp ip w = (None, w') \<Longrightarrow> fwd w a = None \<Longrightarrow> fwd w' ip = None"
    and unroute_keeps: "dp_unroute dp ip w = (r, w') \<Longrightarrow> fwd w a = None \<Longrightarrow> fwd w' a = None"
    and set_alive_keeps: "dp_set_alive dp i b w = (r, w') \<Longrightarrow> fwd w a = None \<Longrightarrow> fwd w' a = None"
    and set_upstreams_keeps: "dp_set_upstreams dp ups mtu w = (r, w') \<Longrightarrow> fwd w a = None \<Longrightarrow> fwd w' a = None"

text \<open>With the calls at its beginning and its end.\<close>

locale dataplane_safety = dataplane_calls +
  assumes setup_keeps: "dp_setup dp down ups mtu w = (r, w') \<Longrightarrow> fwd w a = None \<Longrightarrow> fwd w' a = None"
    and teardown_clears: "dp_teardown dp w = (None, w') \<Longrightarrow> fwd w' a = None"
    and teardown_keeps: "dp_teardown dp w = (r, w') \<Longrightarrow> fwd w a = None \<Longrightarrow> fwd w' a = None"

text \<open>The whole contract: what the successful calls do to every peer.\<close>

locale dataplane_contract =
  fixes dp :: "('w, 'e) dataplane" and fwd :: "'w \<Rightarrow> addr \<Rightarrow> string option"
  assumes route_ok: "dp_route dp ip i w = (None, w') \<Longrightarrow> fwd w' = (fwd w)(ip := Some i)"
    and route_other: "dp_route dp ip i w = (r, w') \<Longrightarrow> a \<noteq> ip \<Longrightarrow> fwd w' a = fwd w a"
    and route_failed: "dp_route dp ip i w = (Some e, w') \<Longrightarrow> fwd w ip = None \<Longrightarrow> fwd w' ip = None"
    and unroute_ok: "dp_unroute dp ip w = (None, w') \<Longrightarrow> fwd w' = (fwd w)(ip := None)"
    and unroute_other: "dp_unroute dp ip w = (r, w') \<Longrightarrow> a \<noteq> ip \<Longrightarrow> fwd w' a = fwd w a"
    and unroute_failed: "dp_unroute dp ip w = (r, w') \<Longrightarrow> fwd w ip = None \<Longrightarrow> fwd w' ip = None"
    and set_alive_fwd: "dp_set_alive dp i b w = (r, w') \<Longrightarrow> fwd w' = fwd w"
    and setup_blocked: "dp_setup dp down ups mtu w = (r, w') \<Longrightarrow> fwd w a = None \<Longrightarrow> fwd w' a = None"
    and set_upstreams_blocked: "dp_set_upstreams dp ups mtu w = (r, w') \<Longrightarrow> fwd w a = None \<Longrightarrow> fwd w' a = None"
    and teardown_ok: "dp_teardown dp w = (None, w') \<Longrightarrow> fwd w' a = None"
    and teardown_blocked: "dp_teardown dp w = (r, w') \<Longrightarrow> fwd w a = None \<Longrightarrow> fwd w' a = None"

sublocale dataplane_contract \<subseteq> dataplane_safety dp fwd
proof unfold_locales
  fix ip w r w' a assume "dp_unroute dp ip w = (r, w')" and "fwd w a = None"
  then show "fwd w' a = None" using unroute_other [of ip w r w' a] unroute_failed [of ip w r w'] by (cases "a = ip") auto
qed (simp_all add: route_other route_failed unroute_ok set_alive_fwd setup_blocked set_upstreams_blocked teardown_ok teardown_blocked)

end
