(* ===== verification/Dataplane_Fake.thy ===== *)
theory Dataplane_Fake
  imports Dataplane
begin

text \<open>
  \<open>internal/dataplane/fake/fake.go\<close>: the in-memory dataplane. Each operation is one method; the maps are association
  lists, the inner map of \<open>Pins\<close> is written back because Go shares it by reference. The theory ends with the
  refinement: the fake keeps the contract of the interface.
\<close>

record fake_dp =
  fk_down :: dp_iface
  fk_ups :: "dp_iface list"
  fk_mtu :: int
  fk_routes :: "(addr \<times> string) list"
  fk_pins :: "(addr \<times> (string \<times> bool) list) list"
  fk_alive :: "(string \<times> bool) list"
  fk_log :: "string list"
  fk_setup_done :: bool
  fk_torn_down :: bool

datatype fake_error = UnknownUpstream string

definition show_bool :: "bool \<Rightarrow> string" where
  "show_bool b = (if b then ''true'' else ''false'')"

definition fake_log :: "string \<Rightarrow> fake_dp \<Rightarrow> fake_dp" where
  "fake_log line f = f\<lparr>fk_log := fk_log f @ [line]\<rparr>"

definition fake_new :: fake_dp where
  "fake_new = \<lparr>fk_down = \<lparr>di_name = [], di_addr = Prefix NoAddr 0\<rparr>, fk_ups = [], fk_mtu = 0, fk_routes = [],
     fk_pins = [], fk_alive = [], fk_log = [], fk_setup_done = False, fk_torn_down = False\<rparr>"

definition fake_setup :: "dp_iface \<Rightarrow> dp_iface list \<Rightarrow> int \<Rightarrow> fake_dp \<Rightarrow> fake_error option \<times> fake_dp" where
  "fake_setup down ups mtu f =
     (None, fake_log (''setup '' @ di_name down @ '' mtu='' @ show_int mtu @ '' ups='' @ show_nat (length ups))
        (f\<lparr>fk_down := down, fk_ups := ups, fk_mtu := mtu, fk_setup_done := True\<rparr>))"

definition fake_set_upstreams :: "dp_iface list \<Rightarrow> int \<Rightarrow> fake_dp \<Rightarrow> fake_error option \<times> fake_dp" where
  "fake_set_upstreams ups mtu f =
     (None, fake_log (''set-upstreams mtu='' @ show_int mtu @ '' ups='' @ show_nat (length ups))
        (f\<lparr>fk_ups := ups, fk_mtu := mtu\<rparr>))"

text \<open>\<open>f.Pins[peer][prev] = true\<close> and \<open>delete(f.Pins[peer], upstream)\<close>.\<close>

definition pin :: "addr \<Rightarrow> string \<Rightarrow> fake_dp \<Rightarrow> fake_dp" where
  "pin peer prev f = f\<lparr>fk_pins := mput peer (mput prev True (mget (fk_pins f) peer [])) (fk_pins f)\<rparr>"

definition unpin :: "addr \<Rightarrow> string \<Rightarrow> fake_dp \<Rightarrow> fake_dp" where
  "unpin peer upstream f =
     (case map_of (fk_pins f) peer of
        None \<Rightarrow> f
      | Some pins \<Rightarrow> f\<lparr>fk_pins := mput peer (mdel upstream pins) (fk_pins f)\<rparr>)"

definition fake_move :: "addr \<Rightarrow> string \<Rightarrow> fake_dp \<Rightarrow> fake_dp" where
  "fake_move peer upstream f =
     (let f1 = (case map_of (fk_routes f) peer of
                  None \<Rightarrow> f
                | Some prev \<Rightarrow>
                    if prev \<noteq> upstream \<and> mget (fk_alive f) prev False then pin peer prev f else f);
          f2 = unpin peer upstream f1
      in fake_log (''route '' @ show_addr peer @ '' via '' @ upstream)
           (f2\<lparr>fk_routes := mput peer upstream (fk_routes f2)\<rparr>))"

fun fake_route_in :: "dp_iface list \<Rightarrow> addr \<Rightarrow> string \<Rightarrow> fake_dp \<Rightarrow> fake_error option \<times> fake_dp" where
  "fake_route_in [] peer upstream f = (Some (UnknownUpstream upstream), f)"
| "fake_route_in (u # us) peer upstream f =
     (if di_name u = upstream then (None, fake_move peer upstream f) else fake_route_in us peer upstream f)"

definition fake_route :: "addr \<Rightarrow> string \<Rightarrow> fake_dp \<Rightarrow> fake_error option \<times> fake_dp" where
  "fake_route peer upstream f = fake_route_in (fk_ups f) peer upstream f"

definition fake_set_alive :: "string \<Rightarrow> bool \<Rightarrow> fake_dp \<Rightarrow> fake_error option \<times> fake_dp" where
  "fake_set_alive upstream alive f =
     (let f1 = f\<lparr>fk_alive := mput upstream alive (fk_alive f)\<rparr>;
          f2 = (if alive then f1
                else f1\<lparr>fk_pins := map (\<lambda>(peer, pins). (peer, mdel upstream pins)) (fk_pins f1)\<rparr>)
      in (None, fake_log (''alive '' @ upstream @ ''='' @ show_bool alive) f2))"

definition fake_pinned_to :: "addr \<Rightarrow> string \<Rightarrow> fake_dp \<Rightarrow> bool" where
  "fake_pinned_to peer upstream f = mget (mget (fk_pins f) peer []) upstream False"

definition fake_unroute :: "addr \<Rightarrow> fake_dp \<Rightarrow> fake_error option \<times> fake_dp" where
  "fake_unroute peer f =
     (None, fake_log (''unroute '' @ show_addr peer)
        (f\<lparr>fk_routes := mdel peer (fk_routes f), fk_pins := mdel peer (fk_pins f)\<rparr>))"

definition fake_teardown :: "fake_dp \<Rightarrow> fake_error option \<times> fake_dp" where
  "fake_teardown f = (None, fake_log ''teardown'' (f\<lparr>fk_routes := [], fk_torn_down := True\<rparr>))"

definition fake_ready :: "fake_dp \<Rightarrow> bool" where
  "fake_ready f = fk_setup_done f"

definition fake_route_of :: "addr \<Rightarrow> fake_dp \<Rightarrow> string option" where
  "fake_route_of peer f = map_of (fk_routes f) peer"

definition fake_ops :: "(fake_dp, fake_error) dataplane" where
  "fake_ops = \<lparr>dp_setup = fake_setup, dp_set_upstreams = fake_set_upstreams, dp_route = fake_route,
     dp_unroute = fake_unroute, dp_set_alive = fake_set_alive, dp_teardown = fake_teardown\<rparr>"

section \<open>The contract\<close>

lemma fake_log_fields [simp]:
  "fk_routes (fake_log l f) = fk_routes f" "fk_pins (fake_log l f) = fk_pins f" "fk_alive (fake_log l f) = fk_alive f"
  "fk_ups (fake_log l f) = fk_ups f"
  by (simp_all add: fake_log_def)

lemma pin_fields [simp]: "fk_routes (pin p u f) = fk_routes f" "fk_alive (pin p u f) = fk_alive f"
  by (simp_all add: pin_def)

lemma unpin_fields [simp]: "fk_routes (unpin p u f) = fk_routes f" "fk_alive (unpin p u f) = fk_alive f"
  by (simp_all add: unpin_def split: option.splits)

lemma fake_move_routes [simp]: "map_of (fk_routes (fake_move p u f)) = (map_of (fk_routes f))(p \<mapsto> u)"
  by (simp add: fake_move_def Let_def split: option.splits)

lemma fake_route_in_eq:
  "fake_route_in us p u f =
     (if \<exists>i \<in> set us. di_name i = u then (None, fake_move p u f) else (Some (UnknownUpstream u), f))"
  by (induction us) auto

definition fake_fwd :: "fake_dp \<Rightarrow> addr \<Rightarrow> string option" where
  "fake_fwd f = map_of (fk_routes f)"

interpretation fake: dataplane_contract fake_ops fake_fwd
  by unfold_locales
    (auto simp: fake_ops_def fake_fwd_def fake_route_def fake_route_in_eq fake_unroute_def fake_set_alive_def
      fake_setup_def fake_set_upstreams_def fake_teardown_def Let_def split: if_splits)

section \<open>Pins\<close>

lemma fake_pinned_unpin [simp]:
  "fake_pinned_to p u (unpin q v f) \<longleftrightarrow> \<not> (p = q \<and> u = v) \<and> fake_pinned_to p u f"
  by (auto simp: fake_pinned_to_def unpin_def mget_def split: option.splits)

lemma fake_pinned_pin [simp]:
  "fake_pinned_to p u (pin q v f) \<longleftrightarrow> (p = q \<and> u = v) \<or> fake_pinned_to p u f"
  by (auto simp: fake_pinned_to_def pin_def mget_def split: option.splits)

lemma fake_pinned_frame [simp]:
  "fake_pinned_to p u (fake_log l f) \<longleftrightarrow> fake_pinned_to p u f"
  "fake_pinned_to p u (f\<lparr>fk_routes := r\<rparr>) \<longleftrightarrow> fake_pinned_to p u f"
  "fake_pinned_to p u (f\<lparr>fk_alive := a\<rparr>) \<longleftrightarrow> fake_pinned_to p u f"
  by (simp_all add: fake_pinned_to_def)

lemma fake_pinned_move:
  "fake_pinned_to q v (fake_move p u f) \<longleftrightarrow>
     \<not> (q = p \<and> v = u) \<and>
     (fake_pinned_to q v f \<or> q = p \<and> fake_route_of p f = Some v \<and> mget (fk_alive f) v False)"
  by (auto simp: fake_move_def fake_route_of_def Let_def split: option.splits if_splits)

lemma map_of_map_snd: "map_of (map (\<lambda>(k, v). (k, g v)) m) k = map_option g (map_of m k)"
  by (induction m) auto

lemma fake_pinned_set_alive:
  "fake_pinned_to q v (snd (fake_set_alive u b f)) \<longleftrightarrow> fake_pinned_to q v f \<and> (b \<or> v \<noteq> u)"
  by (auto simp: fake_set_alive_def fake_pinned_to_def Let_def mget_def map_of_map_snd split: option.splits)

text \<open>What the pins mean: nothing is pinned to an upstream marked dead, and no peer is pinned to the upstream it is
  routed through.\<close>

definition pins_ok :: "fake_dp \<Rightarrow> bool" where
  "pins_ok f \<longleftrightarrow>
     (\<forall>p u. fake_pinned_to p u f \<longrightarrow> mget (fk_alive f) u False \<and> fake_route_of p f \<noteq> Some u)"

inductive fake_step :: "fake_dp \<Rightarrow> fake_dp \<Rightarrow> bool" where
  Setup: "fake_step f (snd (fake_setup down ups mtu f))"
| SetUpstreams: "fake_step f (snd (fake_set_upstreams ups mtu f))"
| Route: "fake_step f (snd (fake_route p u f))"
| Unroute: "fake_step f (snd (fake_unroute p f))"
| SetAlive: "fake_step f (snd (fake_set_alive u b f))"
| Teardown: "fake_step f (snd (fake_teardown f))"

inductive_cases fake_stepE: "fake_step f f'"

lemma fake_step_pins: "fake_step f f' \<Longrightarrow> pins_ok f \<Longrightarrow> pins_ok f'"
proof (erule fake_stepE)
  fix p u assume "f' = snd (fake_route p u f)" and "pins_ok f"
  then show "pins_ok f'"
    by (auto simp: pins_ok_def fake_route_def fake_route_in_eq fake_pinned_move fake_route_of_def)
      (auto simp: fake_move_def Let_def split: option.splits)
next
  fix u b assume "f' = snd (fake_set_alive u b f)" and "pins_ok f"
  then show "pins_ok f'"
    unfolding pins_ok_def using fake_pinned_set_alive
    by (auto simp: fake_set_alive_def fake_route_of_def Let_def)
qed (auto simp: pins_ok_def fake_setup_def fake_set_upstreams_def fake_unroute_def fake_teardown_def
    fake_pinned_to_def fake_route_of_def mget_def fake_log_def split: option.splits if_splits)

section \<open>Properties\<close>

text \<open>C39. In every state the in-memory dataplane can reach from \<open>New\<close>, flows are pinned only to upstreams marked alive, and never to the
  upstream the peer is routed through now.\<close>

theorem fake_pins_sound:
  assumes "fake_step\<^sup>*\<^sup>* fake_new f"
  shows "fake_pinned_to p u f \<longrightarrow> mget (fk_alive f) u False \<and> fake_route_of p f \<noteq> Some u"
proof -
  have new: "pins_ok fake_new" by (simp add: pins_ok_def fake_new_def fake_pinned_to_def mget_def)
  have "pins_ok f"
    using assms by (induction rule: rtranclp_induct) (use new fake_step_pins in blast)+
  then show ?thesis by (simp add: pins_ok_def)
qed

theorem fake_pins_sound_witness:
  "\<exists>f. fake_step\<^sup>*\<^sup>* fake_new f \<and> fake_pinned_to (V4 2) ''a'' f \<and> mget (fk_alive f) ''a'' False"
proof -
  let ?ups = "[\<lparr>di_name = ''a'', di_addr = Prefix (V4 9) 32\<rparr>, \<lparr>di_name = ''b'', di_addr = Prefix (V4 8) 32\<rparr>]"
  let ?f1 = "snd (fake_set_upstreams ?ups 1280 fake_new)"
  let ?f2 = "snd (fake_set_alive ''a'' True ?f1)"
  let ?f3 = "snd (fake_route (V4 2) ''a'' ?f2)"
  let ?f4 = "snd (fake_route (V4 2) ''b'' ?f3)"
  have "fake_step fake_new ?f1" "fake_step ?f1 ?f2" "fake_step ?f2 ?f3" "fake_step ?f3 ?f4"
    by (rule fake_step.intros)+
  then have r: "fake_step\<^sup>*\<^sup>* fake_new ?f4" by (meson converse_rtranclp_into_rtranclp r_into_rtranclp)
  have "fake_pinned_to (V4 2) ''a'' ?f4"
    by (simp add: fake_set_upstreams_def fake_set_alive_def fake_route_def fake_log_def fake_new_def fake_move_def
        unpin_def pin_def fake_pinned_to_def mget_def Let_def)
  with fake_pins_sound [OF r] r show ?thesis by blast
qed

end
