(* ===== verification/Upstream.thy ===== *)
theory Upstream
  imports Awg_Sizes Config Health Mtu
begin

text \<open>
  \<open>internal/daemon/upstream.go\<close>: a provider tunnel as it is loaded from its file. \<open>load_upstream\<close> is \<open>LoadUpstream\<close>
  with the file system (\<open>read_file\<close>) and the resolver (\<open>lookup\<close>, restricted to IPv4 as the code asks for) as arguments;
  \<open>refresh_endpoint\<close> is \<open>RefreshEndpoint\<close>, with the device's answer to its UAPI text as argument. The
  attached TUN device is not a field here: the daemon's model owns it.
\<close>

record upstream =
  up_cfg :: cfg_upstream
  up_conf :: awg_config
  up_source :: string
  up_endpoint :: string
  up_addr :: prefix
  up_mtu :: int
  up_tracker :: tracker

datatype endpoint_error = NoEndpoint | EndpointSyntax | EndpointBadPort | LookupFailed | NoAddress

datatype upstream_error =
    FileError
  | ConfError awg_error
  | PeerCount nat
  | NoDefaultRoute
  | EndpointError endpoint_error
  | ResolvedEndpoint
  | JunkAboveLimit int
  | WireAboveLimit wire_error
  | NoIPv4
  | MtuBelowMinimum
  | MtuAboveLimit int

section \<open>Endpoints\<close>

definition resolve_endpoint ::
  "(string \<Rightarrow> addr list option) \<Rightarrow> string \<Rightarrow> endpoint_error + string" where
  "resolve_endpoint lookup endpoint =
     (if endpoint = [] then Inl NoEndpoint
      else if parse_addr_port endpoint \<noteq> None then Inr endpoint
      else case split_host_port endpoint of
        None \<Rightarrow> Inl EndpointSyntax
      | Some (host, port) \<Rightarrow>
          (case parse_uint 16 port of
             Inl _ \<Rightarrow> Inl EndpointBadPort
           | Inr n \<Rightarrow>
               (case lookup host of
                  None \<Rightarrow> Inl LookupFailed
                | Some [] \<Rightarrow> Inl NoAddress
                | Some (a # _) \<Rightarrow> Inr (show_addr_port (AddrPort (unmap a) (of_nat n))))))"

fun routesEverything :: "prefix list \<Rightarrow> bool" where
  "routesEverything [] = False"
| "routesEverything (p # ps) = (if is4 (paddr p) \<and> pbits p = 0 then True else routesEverything ps)"

fun firstIPv4 :: "prefix list \<Rightarrow> prefix option" where
  "firstIPv4 [] = None"
| "firstIPv4 (p # ps) = (if is4 (paddr p) then Some p else firstIPv4 ps)"

section \<open>Loading\<close>

definition payload_max :: "addr \<Rightarrow> int" where
  "payload_max a = (if is6 a \<and> \<not> is4in6 a then 65527 else 65507)"

text \<open>The checks after the endpoint is known, up to the value returned.\<close>

definition check_upstream_params :: "params \<Rightarrow> int \<Rightarrow> upstream_error option" where
  "check_upstream_params p limit =
     (if Jc p > 0 \<and> largest_junk p > of_int limit then Some (JunkAboveLimit limit)
      else map_option WireAboveLimit (check_wire_sizes p limit))"

definition check_mtu :: "int \<Rightarrow> int \<Rightarrow> int \<Rightarrow> upstream_error option" where
  "check_mtu m s4 limit =
     (if m < 68 + s4 then Some MtuBelowMinimum
      else if m > limit - 32 - s4 then Some (MtuAboveLimit limit)
      else None)"

definition build_upstream ::
  "cfg_upstream \<Rightarrow> health_cfg \<Rightarrow> string \<Rightarrow> awg_config \<Rightarrow> string \<Rightarrow> addr_port \<Rightarrow> upstream_error + upstream" where
  "build_upstream u h source conf endpoint remote =
     (let limit = payload_max (ap_addr remote); i = c_iface conf
      in case check_upstream_params (i_params i) limit of
           Some e \<Rightarrow> Inl e
         | None \<Rightarrow>
        (case firstIPv4 (i_addresses i) of
           None \<Rightarrow> Inl NoIPv4
         | Some a \<Rightarrow>
             let m = (if i_mtu i = 0 then DefaultWireGuard else i_mtu i)
             in case check_mtu m (uint (S4 (i_params i))) limit of
                  Some e \<Rightarrow> Inl e
                | None \<Rightarrow>
                    Inr \<lparr>up_cfg = u, up_conf = conf, up_source = source, up_endpoint = endpoint, up_addr = a, up_mtu = m,
                         up_tracker = NewTracker (h_downAfter h) (h_upAfter h)\<rparr>))"

definition load_upstream ::
  "(string \<Rightarrow> string option) \<Rightarrow> (string \<Rightarrow> addr list option) \<Rightarrow> cfg_upstream \<Rightarrow> health_cfg \<Rightarrow>
   upstream_error + upstream" where
  "load_upstream read_file lookup u h =
     (case read_file (u_conf u) of
        None \<Rightarrow> Inl FileError
      | Some source \<Rightarrow>
     (case awg_parse source of
        Inl e \<Rightarrow> Inl (ConfError e)
      | Inr conf \<Rightarrow>
     (case c_peers conf of
        [peer] \<Rightarrow>
          if \<not> routesEverything (p_allowed peer) then Inl NoDefaultRoute
          else (case resolve_endpoint lookup (p_endpoint peer) of
             Inl e \<Rightarrow> Inl (EndpointError e)
           | Inr resolved \<Rightarrow>
               (case parse_addr_port resolved of
                  None \<Rightarrow> Inl ResolvedEndpoint
                | Some remote \<Rightarrow>
                    build_upstream u h source (conf\<lparr>c_peers := [peer\<lparr>p_endpoint := resolved\<rparr>]\<rparr>)
                      (p_endpoint peer) remote))
      | ps \<Rightarrow> Inl (PeerCount (length ps)))))"

text \<open>\<open>RefreshEndpoint\<close>: the upstream afterwards, and the error or whether the endpoint changed; \<open>configure\<close> passes the UAPI
  text to the device. A configuration without a peer would be an index panic.\<close>

datatype 'e refresh_error = RefreshLookup endpoint_error | RefreshDevice 'e | RefreshPanic

definition endpoint_update :: "key \<Rightarrow> string \<Rightarrow> string" where
  "endpoint_update pub resolved =
     uapi_line ''public_key'' (key_hex pub) @ uapi_line ''update_only'' ''true'' @ uapi_line ''endpoint'' resolved"

definition refresh_endpoint ::
  "(string \<Rightarrow> addr list option) \<Rightarrow> (string \<Rightarrow> 'w \<Rightarrow> 'e option \<times> 'w) \<Rightarrow> upstream \<Rightarrow> 'w \<Rightarrow>
   upstream \<times> ('e refresh_error + bool) \<times> 'w" where
  "refresh_endpoint lookup configure u w =
     (if parse_addr_port (up_endpoint u) \<noteq> None then (u, Inr False, w)
      else case resolve_endpoint lookup (up_endpoint u) of
        Inl e \<Rightarrow> (u, Inl (RefreshLookup e), w)
      | Inr resolved \<Rightarrow>
          (case c_peers (up_conf u) of
             [] \<Rightarrow> (u, Inl RefreshPanic, w)
           | peer # ps \<Rightarrow>
               if resolved = p_endpoint peer then (u, Inr False, w)
               else (case configure (endpoint_update (p_pub peer) resolved) w of
                       (Some e, w') \<Rightarrow> (u, Inl (RefreshDevice e), w')
                     | (None, w') \<Rightarrow>
                         (u\<lparr>up_conf := (up_conf u)\<lparr>c_peers := peer\<lparr>p_endpoint := resolved\<rparr> # ps\<rparr>\<rparr>, Inr True, w'))))"

section \<open>What a loaded upstream satisfies\<close>

text \<open>The largest datagram a sender builds for a packet of \<open>n\<close> bytes: transport header and tag (32 bytes) and padding.\<close>

definition upstream_ok :: "cfg_upstream \<Rightarrow> upstream \<Rightarrow> bool" where
  "upstream_ok u up \<longleftrightarrow>
     up_cfg up = u \<and> config_wf (up_conf up) \<and>
     (\<exists>peer remote. c_peers (up_conf up) = [peer] \<and> \<not> key_is_zero (p_pub peer) \<and> routesEverything (p_allowed peer) \<and>
        parse_addr_port (p_endpoint peer) = Some remote \<and>
        (parse_addr_port (up_endpoint up) = None \<longrightarrow> is4 (ap_addr remote)) \<and>
        (let p = i_params (c_iface (up_conf up)); limit = payload_max (ap_addr remote); s4 = uint (S4 p)
         in junk_fits limit p \<and> wire_fits limit p \<and>
            68 \<le> up_mtu up - s4 \<and> up_mtu up + s4 + 32 \<le> limit)) \<and>
     is4 (paddr (up_addr up)) \<and> up_addr up \<in> set (i_addresses (c_iface (up_conf up))) \<and>
     t_state (up_tracker up) = Unknown"

lemma firstIPv4_Some: "firstIPv4 ps = Some p \<Longrightarrow> p \<in> set ps \<and> is4 (paddr p)"
  by (induction ps) (auto split: if_splits)

lemma routesEverything_iff: "routesEverything ps \<longleftrightarrow> (\<exists>p \<in> set ps. is4 (paddr p) \<and> pbits p = 0)"
  by (induction ps) auto

lemma payload_max_cases: "payload_max a = 65507 \<or> payload_max a = 65527"
  by (simp add: payload_max_def)

lemma check_upstream_params_iff:
  assumes "junk_fits 65527 p"
  shows "check_upstream_params p (payload_max a) = None \<longleftrightarrow> junk_fits (payload_max a) p \<and> wire_fits (payload_max a) p"
proof -
  have w: "check_wire_sizes p (payload_max a) = None \<longleftrightarrow> wire_fits (payload_max a) p"
    using payload_max_cases [of a] by (intro check_wire_sizes_iff) auto
  have "largest_junk p > of_int (payload_max a) \<longleftrightarrow> \<not> uint (largest_junk p) \<le> payload_max a"
    using payload_max_cases [of a] by (auto simp: word_less_def not_le)
  then have "Jmin p \<le> Jmax p \<Longrightarrow> largest_junk p > of_int (payload_max a) \<longleftrightarrow>
      \<not> (\<forall>n. junk_size p n \<longrightarrow> uint n \<le> payload_max a)"
    using largest_junk_le by blast
  with assms w show ?thesis
    by (auto simp: check_upstream_params_def junk_fits_def word_gt_0)
qed

lemma check_mtu_iff: "check_mtu m s4 limit = None \<longleftrightarrow> 68 \<le> m - s4 \<and> m + s4 + 32 \<le> limit"
  by (auto simp: check_mtu_def)

lemma build_upstream_Inr:
  assumes "build_upstream u h source conf endpoint remote = Inr up" and "junk_fits 65527 (i_params (c_iface conf))"
  shows "up_cfg up = u \<and> up_conf up = conf \<and> up_endpoint up = endpoint \<and> t_state (up_tracker up) = Unknown \<and>
    is4 (paddr (up_addr up)) \<and> up_addr up \<in> set (i_addresses (c_iface conf)) \<and>
    (let p = i_params (c_iface conf); limit = payload_max (ap_addr remote); s4 = uint (S4 p)
     in junk_fits limit p \<and> wire_fits limit p \<and> 68 \<le> up_mtu up - s4 \<and> up_mtu up + s4 + 32 \<le> limit)"
proof -
  let ?i = "c_iface conf" and ?limit = "payload_max (ap_addr remote)"
  from assms(1) obtain a where a: "check_upstream_params (i_params ?i) ?limit = None" "firstIPv4 (i_addresses ?i) = Some a"
    "check_mtu (up_mtu up) (uint (S4 (i_params ?i))) ?limit = None"
    and up: "up = \<lparr>up_cfg = u, up_conf = conf, up_source = source, up_endpoint = endpoint, up_addr = a,
      up_mtu = up_mtu up, up_tracker = NewTracker (h_downAfter h) (h_upAfter h)\<rparr>"
    by (auto simp: build_upstream_def Let_def split: option.splits)
  note facts = a(1) [unfolded check_upstream_params_iff [OF assms(2)]] firstIPv4_Some [OF a(2)] a(3) [unfolded check_mtu_iff]
  have "up_cfg up = u" "up_conf up = conf" "up_endpoint up = endpoint" "up_addr up = a"
    "up_tracker up = NewTracker (h_downAfter h) (h_upAfter h)"
    by (subst up, simp)+
  with facts show ?thesis by (simp add: Let_def)
qed

text \<open>The resolver is asked for IPv4 (\<open>"ip4"\<close>): its answers are IPv4 addresses, possibly mapped into IPv6. A host name
  then resolves to an IPv4 address and port.\<close>

definition answers_v4 :: "(string \<Rightarrow> addr list option) \<Rightarrow> bool" where
  "answers_v4 lookup \<longleftrightarrow> (\<forall>host answers a. lookup host = Some answers \<and> a \<in> set answers \<longrightarrow> is4 (unmap a))"

lemma resolve_endpoint_v4:
  assumes "resolve_endpoint lookup e = Inr r" and v4: "answers_v4 lookup" and none: "parse_addr_port e = None"
  shows "\<exists>ap. parse_addr_port r = Some ap \<and> is4 (ap_addr ap)"
proof -
  from assms(1) none obtain host port n a rest where "parse_uint 16 port = Inr n" and l: "lookup host = Some (a # rest)"
    and r: "r = show_addr_port (AddrPort (unmap a) (of_nat n))"
    by (auto simp: resolve_endpoint_def split: if_splits option.splits sum.splits list.splits)
  from l v4 have "is4 (unmap a)" unfolding answers_v4_def by (metis list.set_intros(1))
  then obtain w where "unmap a = V4 w" by (cases "unmap a") auto
  moreover have "unat (of_nat n :: u16) < 65536" by (rule unat_u16)
  ultimately show ?thesis
    using parse_addr_port_show_v4 [of "unat (of_nat n :: u16)" w] r by simp
qed

lemma load_upstream_ok:
  assumes "load_upstream read_file lookup u h = Inr up" and v4: "answers_v4 lookup"
  shows "upstream_ok u up"
proof -
  from assms obtain source conf peer resolved remote where
    parse: "awg_parse source = Inr conf" and peers: "c_peers conf = [peer]" and r: "routesEverything (p_allowed peer)"
    and res: "resolve_endpoint lookup (p_endpoint peer) = Inr resolved"
    and remote: "parse_addr_port resolved = Some remote"
    and build: "build_upstream u h source (conf\<lparr>c_peers := [peer\<lparr>p_endpoint := resolved\<rparr>]\<rparr>) (p_endpoint peer) remote = Inr up"
    by (auto simp: load_upstream_def split: option.splits sum.splits list.splits if_splits)
  have acc: "accepted conf" by (rule awg_parse_Inr [OF parse])
  then have "junk_fits 65527 (i_params (c_iface (conf\<lparr>c_peers := [peer\<lparr>p_endpoint := resolved\<rparr>]\<rparr>)))"
    by (simp add: accepted_def)
  moreover have "parse_addr_port (p_endpoint peer) = None \<longrightarrow> is4 (ap_addr remote)"
    using resolve_endpoint_v4 [OF res v4] remote by auto
  ultimately show ?thesis
    using build_upstream_Inr [OF build] acc peers r remote by (simp add: upstream_ok_def accepted_def config_wf_def peer_wf_def Let_def)
qed

section \<open>Refreshing\<close>

text \<open>A refresh touches nothing but the endpoint of the one peer, and only after the device has taken it.\<close>

lemma refresh_endpoint_frame [frame]:
  assumes "refresh_endpoint lookup configure u w = (u', r, w')"
  shows "up_cfg u' = up_cfg u \<and> up_source u' = up_source u \<and> up_endpoint u' = up_endpoint u \<and> up_addr u' = up_addr u \<and>
    up_mtu u' = up_mtu u \<and> up_tracker u' = up_tracker u \<and> c_iface (up_conf u') = c_iface (up_conf u) \<and>
    (r \<noteq> Inr True \<longrightarrow> u' = u)"
  using assms by (auto simp: refresh_endpoint_def split: if_splits option.splits sum.splits list.splits prod.splits)

lemma refresh_endpoint_literal:
  "parse_addr_port (up_endpoint u) = Some ap \<Longrightarrow> refresh_endpoint lookup configure u w = (u, Inr False, w)"
  by (simp add: refresh_endpoint_def)

lemma refresh_endpoint_changed:
  "refresh_endpoint lookup configure u w = (u', Inr True, w') \<Longrightarrow>
   \<exists>peer ps resolved. c_peers (up_conf u) = peer # ps \<and> c_peers (up_conf u') = peer\<lparr>p_endpoint := resolved\<rparr> # ps \<and>
     resolve_endpoint lookup (up_endpoint u) = Inr resolved \<and> resolved \<noteq> p_endpoint peer"
  by (auto simp: refresh_endpoint_def split: if_splits option.splits sum.splits list.splits prod.splits)

lemma refresh_endpoint_ok:
  assumes "refresh_endpoint lookup configure up w = (up', r, w')" and "upstream_ok u up" and v4: "answers_v4 lookup"
  shows "upstream_ok u up'"
proof (cases "r = Inr True")
  case False
  with refresh_endpoint_frame [OF assms(1)] assms(2) show ?thesis by simp
next
  case True
  note fr = refresh_endpoint_frame [OF assms(1)]
  from assms(2) obtain peer remote where old: "c_peers (up_conf up) = [peer]" "parse_addr_port (p_endpoint peer) = Some remote"
    "parse_addr_port (up_endpoint up) = None \<longrightarrow> is4 (ap_addr remote)"
    by (auto simp: upstream_ok_def)
  from True assms(1) have none: "parse_addr_port (up_endpoint up) = None"
    by (auto simp: refresh_endpoint_def split: if_splits)
  from refresh_endpoint_changed [OF assms(1) [unfolded True]] old(1) obtain resolved where
    new: "c_peers (up_conf up') = [peer\<lparr>p_endpoint := resolved\<rparr>]" "resolve_endpoint lookup (up_endpoint up) = Inr resolved"
    by auto
  from resolve_endpoint_v4 [OF new(2) v4 none] obtain ap where ap: "parse_addr_port resolved = Some ap" "is4 (ap_addr ap)"
    by blast
  have "payload_max (ap_addr ap) = payload_max (ap_addr remote)"
    using ap(2) old(3) none by (cases "ap_addr ap"; cases "ap_addr remote") (auto simp: payload_max_def)
  with assms(2) fr old new ap show ?thesis
    by (auto simp: upstream_ok_def config_wf_def peer_wf_def Let_def)
qed

section \<open>Properties\<close>

text \<open>C24. An upstream that loads is safe to run: one peer with a key that routes everything, a resolved endpoint, an IPv4
  address, and an MTU, paddings, junk and signature packets such that every datagram the sender builds fits the UDP
  payload of the endpoint's address family while the client keeps at least the 68 bytes a Linux TUN needs; and refreshing the
  endpoint keeps it so, however often it moves.\<close>

theorem upstream_safe:
  assumes "answers_v4 lookup"
  shows "(\<forall>read_file u h up. load_upstream read_file lookup u h = Inr up \<longrightarrow> upstream_ok u up) \<and>
    (\<forall>configure u up (w :: 'w). upstream_ok u up \<longrightarrow> upstream_ok u (fst (refresh_endpoint lookup configure up w)))"
proof -
  have "upstream_ok u (fst (refresh_endpoint lookup configure up w))" if "upstream_ok u up" for u configure up and w :: 'w
    using refresh_endpoint_ok [of lookup configure up w _ _ _ u] that assms by (metis prod.collapse)
  with load_upstream_ok [OF _ assms] show ?thesis by blast
qed

lemma sample_endpoint: "parse_addr_port ''192.0.2.1:51820'' = Some (AddrPort (V4 0xC0000201) 51820)"
proof -
  have "map digit_char [0, 1, 2, 5, 8, 9] = ''012589''" by code_simp
  then have "show_v4 0xC0000201 = ''192.0.2.1''" "show_nat 51820 = ''51820''"
    by (simp_all add: show_v4_def octets_def show_nat.simps)
  then show ?thesis using parse_addr_port_show_v4 [where n = 51820 and w = "0xC0000201"] by simp
qed

abbreviation sample_load :: "upstream_error + upstream" where
  "sample_load \<equiv> load_upstream (\<lambda>_. Some (config_string sample_config)) (\<lambda>_. Some [V4 1])
     \<lparr>u_name = ''de1'', u_conf = ''de1.conf'', u_geo = ''de'', u_provider = []\<rparr> (cf_health default_config)"

lemma sample_loads: "\<exists>up. sample_load = Inr up"
proof -
  let ?c = "sample_config\<lparr>c_peers := [(hd (c_peers sample_config))\<lparr>p_endpoint := ''192.0.2.1:51820''\<rparr>]\<rparr>"
  have "junk_fits 65527 (i_params (c_iface sample_config))"
    using sample_valid sample_wf by (simp add: validate_config_iff accepted_def)
  moreover have "junk_fits 65507 (i_params (c_iface sample_config))"
  proof -
    have "Jmin (i_params (c_iface sample_config)) \<le> Jmax (i_params (c_iface sample_config))"
      "uint (largest_junk (i_params (c_iface sample_config))) \<le> 65507"
      by (simp_all add: sample_config_def largest_junk_def zero_params_def)
    with largest_junk_le calculation show ?thesis by (auto simp: junk_fits_def)
  qed
  ultimately have "check_upstream_params (i_params (c_iface sample_config)) (payload_max (V4 0xC0000201)) = None"
    using sample_wire by (subst check_upstream_params_iff) (simp_all add: payload_max_def)
  then have "check_upstream_params (i_params (c_iface ?c)) 65507 = None" by (simp add: payload_max_def)
  then have "\<exists>up. build_upstream u h s ?c e (AddrPort (V4 0xC0000201) 51820) = Inr up" for u h s e
    by (simp add: build_upstream_def payload_max_def Let_def check_mtu_def)
      (simp add: sample_config_def zero_params_def check_mtu_def)
  then show ?thesis
    by (simp add: load_upstream_def sample_parses)
      (simp add: sample_config_def resolve_endpoint_def sample_endpoint)
qed

theorem upstream_safe_witness:
  "\<exists>up. sample_load = Inr up \<and>
     upstream_ok \<lparr>u_name = ''de1'', u_conf = ''de1.conf'', u_geo = ''de'', u_provider = []\<rparr> up"
proof -
  have "answers_v4 (\<lambda>_. Some [V4 1])" by (simp add: answers_v4_def)
  from upstream_safe [OF this] sample_loads show ?thesis by blast
qed

text \<open>\<open>RefreshEndpoint\<close> never touches a literal endpoint, changes nothing but the endpoint of the one peer, and
  changes that only to the freshly resolved address.\<close>

theorem refresh_only_endpoint:
  assumes "refresh_endpoint lookup configure u w = (u', r, w')"
  shows "(parse_addr_port (up_endpoint u) \<noteq> None \<longrightarrow> u' = u \<and> r = Inr False \<and> w' = w) \<and>
    (r \<noteq> Inr True \<longrightarrow> u' = u) \<and>
    (r = Inr True \<longrightarrow> (\<exists>peer ps resolved. c_peers (up_conf u) = peer # ps \<and>
       u' = u\<lparr>up_conf := (up_conf u)\<lparr>c_peers := peer\<lparr>p_endpoint := resolved\<rparr> # ps\<rparr>\<rparr> \<and>
       resolve_endpoint lookup (up_endpoint u) = Inr resolved \<and> resolved \<noteq> p_endpoint peer))"
  using assms by (auto simp: refresh_endpoint_def split: if_splits option.splits sum.splits list.splits prod.splits)

theorem refresh_only_endpoint_witness:
  "\<exists>u'. refresh_endpoint (\<lambda>_. None) (\<lambda>text w. (None :: string option, text # w))
      \<lparr>up_cfg = \<lparr>u_name = ''de1'', u_conf = ''de1.conf'', u_geo = ''de'', u_provider = []\<rparr>, up_conf = sample_config,
       up_source = [], up_endpoint = ''192.0.2.1:51820'', up_addr = Prefix (V4 0x0A080002) 32, up_mtu = 1280,
       up_tracker = NewTracker 3 2\<rparr> [] = (u', Inr False, []) \<and> up_conf u' = sample_config"
  (is "\<exists>u'. refresh_endpoint _ ?c ?u _ = _ \<and> _")
proof -
  obtain u' r w' where a: "refresh_endpoint (\<lambda>_. None) ?c ?u [] = (u', r, w')" by (metis prod.collapse)
  from refresh_only_endpoint [OF a] have "u' = ?u \<and> r = Inr False \<and> w' = []" by (simp add: sample_endpoint)
  with a show ?thesis by simp
qed

end
