(* ===== verification/Daemon.thy ===== *)
theory Daemon
  imports Upstream Identity Store Policy Dataplane
begin

text \<open>
  \<open>internal/daemon/daemon.go\<close>: the daemon. The record \<open>daemon\<close> is the mutable state of \<open>Daemon\<close>; every
  operation takes it together with the world \<open>'w\<close> and returns both, and it runs under the mutex, so operations
  do not interleave. Maps are association lists and a loop over a map follows the order of the list. A list of errors
  stands for \<open>errors.Join\<close> (the empty list is nil). What the daemon calls outside this repository, or through an
  interface, are the fields of \<open>host\<close>: the dataplane, the TUN constructor, the UAPI of the devices (by interface
  name), the store's peer list, the files and the resolver. Logging has no effect here.
\<close>

record ('w, 'e) host =
  hs_dp :: "('w, 'e) dataplane"
  hs_new_tun :: "string \<Rightarrow> int \<Rightarrow> 'w \<Rightarrow> 'e option \<times> 'w"
  hs_configure :: "string \<Rightarrow> string \<Rightarrow> 'w \<Rightarrow> 'e option \<times> 'w"
  hs_up :: "string \<Rightarrow> 'w \<Rightarrow> 'e option \<times> 'w"
  hs_close :: "string \<Rightarrow> 'w \<Rightarrow> 'w"
  hs_list_peers :: "'w \<Rightarrow> store_error + store_peer list"
  hs_read_file :: "'w \<Rightarrow> string \<Rightarrow> string option"
  hs_lookup :: "'w \<Rightarrow> string \<Rightarrow> addr list option"

record 'e daemon =
  d_cfg :: config
  d_id :: identity
  d_down :: bool
  d_ups :: "upstream list"
  d_assignments :: "(addr \<times> string) list"
  d_unroutePending :: "(addr \<times> bool) list"
  d_devicePeers :: "(key \<times> store_peer) list"
  d_aliveFailed :: "(string \<times> 'e) list"
  d_wake :: bool
  d_probes :: "(string \<times> u64 \<times> u64) list"
  d_reroutes :: "(string \<times> u64) list"
  d_reloads :: "u64 \<times> u64"

datatype 'e daemon_error =
    HostError 'e
  | StoreError store_error
  | LoadError upstream_error
  | UnknownProfile string
  | RestartRequired "string list"
  | ListenError
  | SetupError 'e
  | DataplaneError 'e

type_synonym ('w, 'e) dstate = "'e daemon \<times> 'w"

definition DownstreamInterface :: string where "DownstreamInterface = ''lm0''"

definition new_daemon :: "config \<Rightarrow> identity \<Rightarrow> 'e daemon" where
  "new_daemon cfg idn =
     \<lparr>d_cfg = cfg, d_id = idn, d_down = False, d_ups = [], d_assignments = [], d_unroutePending = [],
      d_devicePeers = [], d_aliveFailed = [], d_wake = False, d_probes = [], d_reroutes = [], d_reloads = (0, 0)\<rparr>"

abbreviation up_name :: "upstream \<Rightarrow> string" where
  "up_name u \<equiv> u_name (up_cfg u)"

definition device_name :: "upstream \<Rightarrow> string" where
  "device_name u = interface_name (up_cfg u)"

definition daemon_mtu :: "'e daemon \<Rightarrow> int" where
  "daemon_mtu d =
     mtu_client (S4 (id_params (d_id d)))
       (map (\<lambda>u. \<lparr>mu_mtu = up_mtu u, mu_s4 = S4 (i_params (c_iface (up_conf u)))\<rparr>) (d_ups d))"

definition gateway :: "config \<Rightarrow> prefix" where
  "gateway cfg = prefix_from (next_addr (paddr (cf_subnet cfg))) (pbits (cf_subnet cfg))"

definition interfaces :: "'e daemon \<Rightarrow> dp_iface list" where
  "interfaces d = map (\<lambda>u. \<lparr>di_name = device_name u, di_addr = up_addr u\<rparr>) (d_ups d)"

fun interface_in :: "upstream list \<Rightarrow> string \<Rightarrow> string" where
  "interface_in [] name = []"
| "interface_in (u # us) name = (if up_name u = name then device_name u else interface_in us name)"

definition candidates :: "'e daemon \<Rightarrow> pol_upstream list" where
  "candidates d =
     map (\<lambda>u. \<lparr>pu_cfg = up_cfg u, pu_healthy = (t_state (up_tracker u) = Up),
               pu_latency = t_latency (up_tracker u)\<rparr>) (d_ups d)"

section \<open>Routes\<close>

definition lift_err :: "('e \<Rightarrow> 'e daemon_error) \<Rightarrow> 'e option \<Rightarrow> 'e daemon_error list" where
  "lift_err f r = (case r of None \<Rightarrow> [] | Some e \<Rightarrow> [f e])"

definition unroute :: "('w, 'e) host \<Rightarrow> addr \<Rightarrow> ('w, 'e) dstate \<Rightarrow> 'e daemon_error list \<times> ('w, 'e) dstate" where
  "unroute host ip st =
     (let (d, w) = st
      in case dp_unroute (hs_dp host) ip w of
           (Some e, w') \<Rightarrow> ([HostError e], (d\<lparr>d_unroutePending := mput ip True (d_unroutePending d)\<rparr>, w'))
         | (None, w') \<Rightarrow>
             ([], (d\<lparr>d_unroutePending := mdel ip (d_unroutePending d),
                     d_assignments := mdel ip (d_assignments d)\<rparr>, w')))"

text \<open>The part of \<open>route\<close> after pending cleanup: choose, then block, keep or move.\<close>

definition assign :: "('w, 'e) host \<Rightarrow> addr \<Rightarrow> profile \<Rightarrow> ('w, 'e) dstate \<Rightarrow> 'e daemon_error list \<times> ('w, 'e) dstate" where
  "assign host ip prof st =
     (let (d, w) = st; current = mget (d_assignments d) ip []
      in case select_upstream prof (candidates d) current of
           None \<Rightarrow> if current \<noteq> [] then unroute host ip st else ([], st)
         | Some want \<Rightarrow>
             if want = current then ([], st)
             else case dp_route (hs_dp host) ip (interface_in (d_ups d) want) w of
                    (Some e, w') \<Rightarrow> ([HostError e], (d, w'))
                  | (None, w') \<Rightarrow>
                      ([], (d\<lparr>d_assignments := mput ip want (d_assignments d),
                              d_reroutes := mput want (mget (d_reroutes d) want 0 + 1) (d_reroutes d)\<rparr>, w')))"

definition route_peer ::
  "('w, 'e) host \<Rightarrow> store_peer \<Rightarrow> ('w, 'e) dstate \<Rightarrow> 'e daemon_error list \<times> ('w, 'e) dstate" where
  "route_peer host p st =
     (case config_profile (d_cfg (fst st)) (sp_profile p) of
        None \<Rightarrow> (let (es, st') = unroute host (sp_ip p) st in (UnknownProfile (sp_profile p) # es, st'))
      | Some prof \<Rightarrow>
          if mget (d_unroutePending (fst st)) (sp_ip p) False then
            (let (es, st') = unroute host (sp_ip p) st
             in if es \<noteq> [] then (es, st') else assign host (sp_ip p) prof st')
          else assign host (sp_ip p) prof st)"

section \<open>Reconcile\<close>

definition remove_peer_text :: "key \<Rightarrow> string" where
  "remove_peer_text pub = uapi_line ''public_key'' (key_hex pub) @ uapi_line ''remove'' ''true''"

definition remove_peer :: "('w, 'e) host \<Rightarrow> key \<Rightarrow> ('w, 'e) dstate \<Rightarrow> 'e daemon_error list \<times> ('w, 'e) dstate" where
  "remove_peer host key st =
     (let (d, w) = st; (r, w') = hs_configure host DownstreamInterface (remove_peer_text key) w
      in (lift_err HostError r, (d, w')))"

definition device_peer :: "store_peer \<Rightarrow> awg_peer" where
  "device_peer p = zero_peer\<lparr>p_pub := sp_public p, p_allowed := [prefix_from (sp_ip p) 32]\<rparr>"

definition add_device_peer ::
  "('w, 'e) host \<Rightarrow> store_peer \<Rightarrow> ('w, 'e) dstate \<Rightarrow> 'e daemon_error list \<times> ('w, 'e) dstate" where
  "add_device_peer host p st =
     (let (d, w) = st; (r, w') = hs_configure host DownstreamInterface (peer_uapi (device_peer p)) w
      in case r of
           Some e \<Rightarrow> ([HostError e], (d, w'))
         | None \<Rightarrow> ([], (d\<lparr>d_devicePeers := mput (sp_public p) p (d_devicePeers d)\<rparr>, w')))"

fun revoke_loop ::
  "('w, 'e) host \<Rightarrow> key set \<Rightarrow> (key \<times> store_peer) list \<Rightarrow> ('w, 'e) dstate \<Rightarrow>
   'e daemon_error list \<times> ('w, 'e) dstate" where
  "revoke_loop host wanted [] st = ([], st)"
| "revoke_loop host wanted ((key, p) # rest) st =
     (if key \<in> wanted then revoke_loop host wanted rest st
      else
        let (e1, st1) = remove_peer host key st;
            (e2, st2) = unroute host (sp_ip p) st1
        in if e1 @ e2 \<noteq> [] then
             (let (es, st') = revoke_loop host wanted rest st2 in (e1 @ e2 @ es, st'))
           else
             revoke_loop host wanted rest
               ((fst st2)\<lparr>d_devicePeers := mdel key (d_devicePeers (fst st2))\<rparr>, snd st2))"

fun admit_loop ::
  "('w, 'e) host \<Rightarrow> addr set \<Rightarrow> store_peer list \<Rightarrow> ('w, 'e) dstate \<Rightarrow>
   'e daemon_error list \<times> ('w, 'e) dstate" where
  "admit_loop host held [] st = ([], st)"
| "admit_loop host held (p # ps) st =
     (if sp_public p \<in> keys (d_devicePeers (fst st)) then
        (let (e1, st1) = route_peer host p st; (es, st') = admit_loop host held ps st1 in (e1 @ es, st'))
      else if sp_ip p \<in> held then admit_loop host held ps st
      else
        (let (e0, st0) = add_device_peer host p st
         in if e0 \<noteq> [] then (let (es, st') = admit_loop host held ps st0 in (e0 @ es, st'))
            else
              (let (e1, st1) = route_peer host p st0; (es, st') = admit_loop host held ps st1
               in (e1 @ es, st'))))"

definition reconcile :: "('w, 'e) host \<Rightarrow> ('w, 'e) dstate \<Rightarrow> 'e daemon_error list \<times> ('w, 'e) dstate" where
  "reconcile host st =
     (case hs_list_peers host (snd st) of
        Inl e \<Rightarrow> ([StoreError e], st)
      | Inr peers \<Rightarrow>
          (let wanted = set (map sp_public peers);
               (e1, st1) = revoke_loop host wanted (d_devicePeers (fst st)) st;
               held = set (map (\<lambda>(_, p). sp_ip p) (d_devicePeers (fst st1)));
               (e2, st2) = admit_loop host held peers st1
           in (e1 @ e2, st2)))"

section \<open>Probes\<close>

definition apply_alive :: "('w, 'e) host \<Rightarrow> upstream \<Rightarrow> ('w, 'e) dstate \<Rightarrow> 'e daemon_error list \<times> ('w, 'e) dstate" where
  "apply_alive host u st =
     (let (d, w) = st
      in case dp_set_alive (hs_dp host) (device_name u) (t_state (up_tracker u) = Up) w of
           (None, w') \<Rightarrow> ([], (d\<lparr>d_aliveFailed := mdel (up_name u) (d_aliveFailed d)\<rparr>, w'))
         | (Some e, w') \<Rightarrow> ([HostError e], (d\<lparr>d_aliveFailed := mput (up_name u) e (d_aliveFailed d)\<rparr>, w')))"

definition countProbe :: "string \<Rightarrow> bool \<Rightarrow> 'e daemon \<Rightarrow> 'e daemon" where
  "countProbe name ok d =
     (let (a, b) = mget (d_probes d) name (0, 0)
      in d\<lparr>d_probes := mput name (if ok then (a + 1, b) else (a, b + 1)) (d_probes d)\<rparr>)"

text \<open>The end of one probe of \<open>probeAll\<close>, for the upstream it was started with: \<open>None\<close> is a failure, \<open>Some\<close> the latency. The
  upstream returned is that object afterwards.\<close>

definition probe_observed ::
  "('w, 'e) host \<Rightarrow> int option \<Rightarrow> upstream \<Rightarrow> ('w, 'e) dstate \<Rightarrow> upstream \<times> ('w, 'e) dstate" where
  "probe_observed host result u st =
     (let ok = (result \<noteq> None);
          d1 = countProbe (up_name u) ok (fst st);
          (t, changed) = observe (up_tracker u) ok (case result of None \<Rightarrow> 0 | Some l \<Rightarrow> l);
          u1 = u\<lparr>up_tracker := t\<rparr>
      in (u1, if changed \<or> up_name u \<in> keys (d_aliveFailed d1) then snd (apply_alive host u1 (d1, snd st))
              else (d1, snd st)))"

definition probe_result ::
  "('w, 'e) host \<Rightarrow> int option \<Rightarrow> upstream \<Rightarrow> ('w, 'e) dstate \<Rightarrow> upstream \<times> ('w, 'e) dstate" where
  "probe_result host result u st =
     (let (u1, d1, w1) = probe_observed host result u st
      in if result \<noteq> None then (u1, (d1, w1))
         else (let (u2, _, w2) = refresh_endpoint (hs_lookup host w1) (hs_configure host (device_name u1)) u1 w1
               in (u2, (d1, w2))))"

definition probe_upstream :: "('w, 'e) host \<Rightarrow> int option \<Rightarrow> nat \<Rightarrow> ('w, 'e) dstate \<Rightarrow> ('w, 'e) dstate" where
  "probe_upstream host result i st =
     (let (u, d, w) = probe_result host result (d_ups (fst st) ! i) st
      in (d\<lparr>d_ups := (d_ups d)[i := u]\<rparr>, w))"

section \<open>Start and stop\<close>

definition open_upstream ::
  "('w, 'e) host \<Rightarrow> cfg_upstream \<Rightarrow> health_cfg \<Rightarrow> 'w \<Rightarrow> ('e daemon_error + upstream) \<times> 'w" where
  "open_upstream host u h w =
     (case load_upstream (hs_read_file host w) (hs_lookup host w) u h of
        Inl e \<Rightarrow> (Inl (LoadError e), w)
      | Inr up \<Rightarrow>
          (case hs_new_tun host (interface_name u) (up_mtu up) w of
             (Some e, w1) \<Rightarrow> (Inl (HostError e), w1)
           | (None, w1) \<Rightarrow>
               (case hs_configure host (interface_name u) (config_uapi (up_conf up)) w1 of
                  (Some e, w2) \<Rightarrow> (Inl (HostError e), hs_close host (interface_name u) w2)
                | (None, w2) \<Rightarrow> (Inr up, w2))))"

fun open_all ::
  "('w, 'e) host \<Rightarrow> cfg_upstream list \<Rightarrow> ('w, 'e) dstate \<Rightarrow> 'e daemon_error option \<times> ('w, 'e) dstate" where
  "open_all host [] st = (None, st)"
| "open_all host (u # us) st =
     (case open_upstream host u (cf_health (d_cfg (fst st))) (snd st) of
        (Inl e, w') \<Rightarrow> (Some e, (fst st, w'))
      | (Inr up, w') \<Rightarrow> open_all host us ((fst st)\<lparr>d_ups := d_ups (fst st) @ [up]\<rparr>, w'))"

fun bring_up :: "('w, 'e) host \<Rightarrow> string list \<Rightarrow> 'w \<Rightarrow> 'e option \<times> 'w" where
  "bring_up host [] w = (None, w)"
| "bring_up host (n # ns) w =
     (case hs_up host n w of (Some e, w') \<Rightarrow> (Some e, w') | (None, w') \<Rightarrow> bring_up host ns w')"

definition down_config :: "identity \<Rightarrow> u16 \<Rightarrow> awg_config" where
  "down_config idn port =
     \<lparr>c_iface = zero_iface\<lparr>i_priv := id_private idn, i_port := port, i_params := id_params idn\<rparr>, c_peers = []\<rparr>"

definition start :: "('w, 'e) host \<Rightarrow> ('w, 'e) dstate \<Rightarrow> 'e daemon_error option \<times> ('w, 'e) dstate" where
  "start host st =
     (let (d, w) = st
      in case parse_addr_port (cf_listen (d_cfg d)) of
        None \<Rightarrow> (Some ListenError, st)
      | Some listen \<Rightarrow>
     (case hs_new_tun host DownstreamInterface DefaultWireGuard w of
        (Some e, w1) \<Rightarrow> (Some (HostError e), (d, w1))
      | (None, w1) \<Rightarrow>
     (let d1 = d\<lparr>d_down := True\<rparr>
      in case hs_configure host DownstreamInterface (config_uapi (down_config (d_id d) (ap_port listen))) w1 of
        (Some e, w2) \<Rightarrow> (Some (HostError e), (d1, w2))
      | (None, w2) \<Rightarrow>
     (case open_all host (cf_upstreams (d_cfg d)) (d1, w2) of
        (Some e, st3) \<Rightarrow> (Some e, st3)
      | (None, (d3, w3)) \<Rightarrow>
     (case dp_setup (hs_dp host) \<lparr>di_name = DownstreamInterface, di_addr = gateway (d_cfg d3)\<rparr> (interfaces d3)
             (daemon_mtu d3) w3 of
        (Some e, w4) \<Rightarrow> (Some (SetupError e), (d3, w4))
      | (None, w4) \<Rightarrow>
          (let (r, w5) = bring_up host (map device_name (d_ups d3) @ [DownstreamInterface]) w4
           in (map_option HostError r, (d3, w5))))))))"

definition close_all :: "('w, 'e) host \<Rightarrow> upstream list \<Rightarrow> 'w \<Rightarrow> 'w" where
  "close_all host us w = foldl (\<lambda>w u. hs_close host (device_name u) w) w us"

definition stop :: "('w, 'e) host \<Rightarrow> ('w, 'e) dstate \<Rightarrow> ('w, 'e) dstate" where
  "stop host st =
     (let (d, w) = st;
          (r, w1) = dp_teardown (hs_dp host) w;
          w2 = (if d_down d then hs_close host DownstreamInterface w1 else w1);
          w3 = (if r \<noteq> None then snd (dp_teardown (hs_dp host) w2) else w2)
      in (d, close_all host (d_ups d) w3))"

section \<open>Reload\<close>

definition restartRequired :: "config \<Rightarrow> config \<Rightarrow> string list" where
  "restartRequired old cfg =
     (if cf_listen old \<noteq> cf_listen cfg then [''listen''] else []) @
     (if cf_subnet old \<noteq> cf_subnet cfg then [''subnet''] else []) @
     (if cf_state_dir old \<noteq> cf_state_dir cfg then [''state_dir''] else []) @
     (if cf_metrics old \<noteq> cf_metrics cfg then [''metrics.listen''] else [])"

fun unroute_named :: "('w, 'e) host \<Rightarrow> string \<Rightarrow> (addr \<times> string) list \<Rightarrow> ('w, 'e) dstate \<Rightarrow> ('w, 'e) dstate" where
  "unroute_named host name [] st = st"
| "unroute_named host name ((ip, n) # rest) st =
     unroute_named host name rest (if n = name then snd (unroute host ip st) else st)"

definition dropUpstream :: "('w, 'e) host \<Rightarrow> upstream \<Rightarrow> ('w, 'e) dstate \<Rightarrow> ('w, 'e) dstate" where
  "dropUpstream host u st =
     (let (d, w) = unroute_named host (up_name u) (d_assignments (fst st)) st
      in (d\<lparr>d_aliveFailed := mdel (up_name u) (d_aliveFailed d)\<rparr>, hs_close host (device_name u) w))"

definition fileContent :: "(string \<Rightarrow> string option) \<Rightarrow> string \<Rightarrow> string" where
  "fileContent read_file path = (case read_file path of None \<Rightarrow> [] | Some b \<Rightarrow> b)"

text \<open>The loop over the new configuration: the upstreams not met yet, the ones kept or opened, the errors.\<close>

fun reload_loop ::
  "('w, 'e) host \<Rightarrow> health_cfg \<Rightarrow> cfg_upstream list \<Rightarrow> (string \<times> upstream) list \<Rightarrow> upstream list \<Rightarrow>
   'e daemon_error list \<Rightarrow> ('w, 'e) dstate \<Rightarrow>
   (string \<times> upstream) list \<times> upstream list \<times> 'e daemon_error list \<times> ('w, 'e) dstate" where
  "reload_loop host h [] current acc errs st = (current, acc, errs, st)"
| "reload_loop host h (u # us) current acc errs st =
     (let old = map_of current (u_name u); current' = mdel (u_name u) current;
          kept = (case old of None \<Rightarrow> None
                  | Some o' \<Rightarrow> if up_source o' = fileContent (hs_read_file host (snd st)) (u_conf u) then Some o' else None)
      in case kept of
           Some o' \<Rightarrow>
             reload_loop host h us current'
               (acc @ [o'\<lparr>up_cfg := u, up_tracker := set_thresholds (h_downAfter h) (h_upAfter h) (up_tracker o')\<rparr>]) errs st
         | None \<Rightarrow>
             (let st1 = (case old of None \<Rightarrow> st | Some o' \<Rightarrow> dropUpstream host o' st)
              in case open_upstream host u h (snd st1) of
                   (Inl e, w') \<Rightarrow> reload_loop host h us current' acc (errs @ [e]) (fst st1, w')
                 | (Inr up, w') \<Rightarrow> reload_loop host h us current' (acc @ [up]) errs (fst st1, w')))"

fun drop_all :: "('w, 'e) host \<Rightarrow> (string \<times> upstream) list \<Rightarrow> ('w, 'e) dstate \<Rightarrow> ('w, 'e) dstate" where
  "drop_all host [] st = st"
| "drop_all host ((_, u) # rest) st = drop_all host rest (dropUpstream host u st)"

fun revive :: "('w, 'e) host \<Rightarrow> upstream list \<Rightarrow> ('w, 'e) dstate \<Rightarrow> 'e daemon_error list \<times> ('w, 'e) dstate" where
  "revive host [] st = ([], st)"
| "revive host (u # us) st =
     (let (r, w1) = hs_up host (device_name u) (snd st);
          (e1, st1) = apply_alive host u (fst st, w1);
          (es, st') = revive host us st1
      in (lift_err HostError r @ e1 @ es, st'))"

definition reload :: "('w, 'e) host \<Rightarrow> config \<Rightarrow> ('w, 'e) dstate \<Rightarrow> 'e daemon_error list \<times> ('w, 'e) dstate" where
  "reload host cfg st =
     (let d = fst st; (good, bad) = d_reloads d
      in if restartRequired (d_cfg d) cfg \<noteq> [] then
           ([RestartRequired (restartRequired (d_cfg d) cfg)], (d\<lparr>d_reloads := (good, bad + 1)\<rparr>, snd st))
         else
           let current = foldl (\<lambda>m u. mput (up_name u) u m) [] (d_ups d);
               (left, ups, errs, st1) = reload_loop host (cf_health cfg) (cf_upstreams cfg) current [] [] st;
               (d2, w2) = drop_all host left st1;
               d3 = d2\<lparr>d_ups := ups, d_cfg := cfg\<rparr>
           in case dp_set_upstreams (hs_dp host) (interfaces d3) (daemon_mtu d3) w2 of
                (Some e, w3) \<Rightarrow> ([DataplaneError e], (d3, w3))
              | (None, w3) \<Rightarrow>
                  (let (es, (d4, w4)) = revive host ups (d3, w3);
                       all = errs @ es
                   in (all, (d4\<lparr>d_wake := True,
                                d_reloads := (if all = [] then (good + 1, bad) else (good, bad + 1))\<rparr>, w4))))"

end
