(* ===== verification/Daemon_Safety.thy ===== *)
theory Daemon_Safety
  imports Daemon
begin

text \<open>
  The safety of the daemon over any dataplane that keeps the contract of its interface: nothing is forwarded for a
  peer the daemon neither assigned nor still has to clean up, and every address it assigned or has to clean up belongs to a peer on the
  device. The host's other operations (devices, files, resolver) forward nothing by themselves.
\<close>

locale daemon_calls = dataplane_calls "hs_dp host" fwd
  for host :: "('w, 'e) host" and fwd :: "'w \<Rightarrow> addr \<Rightarrow> string option" +
  assumes new_tun_fwd: "hs_new_tun host n m w = (r, w') \<Longrightarrow> fwd w' = fwd w"
    and configure_fwd: "hs_configure host n t w = (r, w') \<Longrightarrow> fwd w' = fwd w"
    and up_fwd: "hs_up host n w = (r, w') \<Longrightarrow> fwd w' = fwd w"
    and close_fwd: "fwd (hs_close host n w) = fwd w"

locale daemon_host = daemon_calls host fwd + dataplane_safety "hs_dp host" fwd
  for host :: "('w, 'e) host" and fwd :: "'w \<Rightarrow> addr \<Rightarrow> string option"

text \<open>The two invariants of the state.\<close>

definition tracked :: "'e daemon \<Rightarrow> addr set" where
  "tracked d = {a. map_of (d_assignments d) a \<noteq> None \<or> mget (d_unroutePending d) a False}"

definition device_addrs :: "'e daemon \<Rightarrow> addr set" where
  "device_addrs d = sp_ip ` snd ` set (d_devicePeers d)"

definition fail_closed :: "('w \<Rightarrow> addr \<Rightarrow> string option) \<Rightarrow> ('w, 'e) dstate \<Rightarrow> bool" where
  "fail_closed fwd st \<longleftrightarrow> (\<forall>a. fwd (snd st) a \<noteq> None \<longrightarrow> a \<in> tracked (fst st))"

definition accounted :: "'e daemon \<Rightarrow> bool" where
  "accounted d \<longleftrightarrow> distinct (map fst (d_devicePeers d)) \<and> tracked d \<subseteq> device_addrs d"

text \<open>An assignment names an upstream in service, unless its cleanup is pending.\<close>

definition live_in :: "string set \<Rightarrow> 'e daemon \<Rightarrow> bool" where
  "live_in names d \<longleftrightarrow>
     (\<forall>a n. map_of (d_assignments d) a = Some n \<longrightarrow> n \<in> names \<or> mget (d_unroutePending d) a False)"

definition assigned_live :: "'e daemon \<Rightarrow> bool" where
  "assigned_live d \<longleftrightarrow> live_in (up_name ` set (d_ups d)) d"

section \<open>What unroute and route do to the state\<close>

lemma unroute_cases:
  assumes "unroute host ip (d, w) = (es, (d', w'))"
  obtains (failed) e where "dp_unroute (hs_dp host) ip w = (Some e, w')" "es = [HostError e]"
      "d' = d\<lparr>d_unroutePending := mput ip True (d_unroutePending d)\<rparr>"
    | (cleared) "dp_unroute (hs_dp host) ip w = (None, w')" "es = []"
      "d' = d\<lparr>d_unroutePending := mdel ip (d_unroutePending d), d_assignments := mdel ip (d_assignments d)\<rparr>"
  using assms by (auto simp: unroute_def split: prod.splits option.splits)

lemma unroute_frame [frame]:
  "unroute host ip st = (es, st') \<Longrightarrow>
   d_devicePeers (fst st') = d_devicePeers (fst st) \<and> d_ups (fst st') = d_ups (fst st) \<and> d_cfg (fst st') = d_cfg (fst st) \<and>
   d_reloads (fst st') = d_reloads (fst st) \<and> d_aliveFailed (fst st') = d_aliveFailed (fst st)"
  by (cases st; cases st') (auto elim: unroute_cases)

lemma unroute_tracked:
  "unroute host ip st = (es, st') \<Longrightarrow>
   tracked (fst st') = (if es = [] then tracked (fst st) - {ip} else insert ip (tracked (fst st)))"
  by (cases st; cases st') (auto elim!: unroute_cases simp: tracked_def split: if_split_asm)

lemma unroute_accounted:
  assumes "unroute host ip st = (es, st')" and "accounted (fst st)" and "ip \<in> device_addrs (fst st)"
  shows "accounted (fst st')"
  using assms unroute_frame [OF assms(1)] unroute_tracked [OF assms(1)]
  by (auto simp: accounted_def device_addrs_def)

lemma unroute_live_in:
  assumes "unroute host ip st = (es, st')" and live: "live_in names (fst st)"
  shows "live_in names (fst st')"
proof -
  obtain d w d' w' where st: "st = (d, w)" "st' = (d', w')" by (cases st; cases st') blast
  show "live_in names (fst st')" unfolding live_in_def
  proof (intro allI impI)
    fix a n assume a: "map_of (d_assignments (fst st')) a = Some n"
    from assms(1) [unfolded st] show "n \<in> names \<or> mget (d_unroutePending (fst st')) a False"
    proof (cases rule: unroute_cases)
      case (failed e)
      with a st live have "n \<in> names \<or> mget (d_unroutePending d) a False" by (simp add: live_in_def)
      with failed st show ?thesis by auto
    next
      case cleared
      with a st live have "a \<noteq> ip" "n \<in> names \<or> mget (d_unroutePending d) a False"
        by (auto simp: live_in_def split: if_split_asm)
      with cleared st show ?thesis by auto
    qed
  qed
qed

lemma unroute_assigned_live:
  "unroute host ip st = (es, st') \<Longrightarrow> assigned_live (fst st) \<Longrightarrow> assigned_live (fst st')"
  using unroute_live_in unroute_frame unfolding assigned_live_def by metis

lemma assign_cases:
  assumes eq: "assign host ip prof (d, w) = (es, (d', w'))"
  obtains (unrouted) "select_upstream prof (candidates d) (mget (d_assignments d) ip []) = None"
      "unroute host ip (d, w) = (es, (d', w'))"
    | (blocked) "es = []" "d' = d" "w' = w" "mget (d_assignments d) ip [] = []"
      "select_upstream prof (candidates d) [] = None"
    | (kept) "es = []" "d' = d" "w' = w"
      "select_upstream prof (candidates d) (mget (d_assignments d) ip []) = Some (mget (d_assignments d) ip [])"
    | (failed) e want where "select_upstream prof (candidates d) (mget (d_assignments d) ip []) = Some want"
      "dp_route (hs_dp host) ip (interface_in (d_ups d) want) w = (Some e, w')" "es = [HostError e]" "d' = d"
    | (moved) want where "select_upstream prof (candidates d) (mget (d_assignments d) ip []) = Some want"
      "dp_route (hs_dp host) ip (interface_in (d_ups d) want) w = (None, w')" "es = []"
      "d' = d\<lparr>d_assignments := mput ip want (d_assignments d),
              d_reroutes := mput want (mget (d_reroutes d) want 0 + 1) (d_reroutes d)\<rparr>"
proof (cases "select_upstream prof (candidates d) (mget (d_assignments d) ip [])")
  case None
  with eq show thesis
    by (cases "mget (d_assignments d) ip [] = []") (auto simp: assign_def intro: that)
next
  case (Some want)
  obtain r w1 where r: "dp_route (hs_dp host) ip (interface_in (d_ups d) want) w = (r, w1)" by (cases "dp_route (hs_dp host) ip (interface_in (d_ups d) want) w") blast
  show thesis
  proof (cases "want = mget (d_assignments d) ip []")
    case True
    with eq Some show thesis by (intro that(3)) (simp_all add: assign_def)
  next
    case moved: False
    with eq Some r show thesis
      by (cases r) (simp_all add: assign_def that(4) that(5))
  qed
qed

lemma candidate_names: "candidate prof (candidates d) u \<Longrightarrow> pu_name u \<in> up_name ` set (d_ups d)"
  by (auto simp: candidate_def candidates_def)

lemma assign_frame [frame]:
  "assign host ip prof st = (es, st') \<Longrightarrow>
   d_devicePeers (fst st') = d_devicePeers (fst st) \<and> d_ups (fst st') = d_ups (fst st) \<and> d_cfg (fst st') = d_cfg (fst st)"
  by (cases st; cases st') (auto elim!: assign_cases dest: unroute_frame)

lemma assign_tracked:
  assumes "assign host ip prof st = (es, st')"
  shows "tracked (fst st') \<subseteq> insert ip (tracked (fst st))"
proof -
  obtain d w d' w' where st: "st = (d, w)" "st' = (d', w')" by (cases st; cases st') blast
  from assms [unfolded st] show ?thesis
  proof (cases rule: assign_cases)
    case unrouted
    then show ?thesis using unroute_tracked [of host ip "(d, w)" es "(d', w')"] st by (auto split: if_splits)
  next
    case (moved want)
    with st show ?thesis by (auto simp: tracked_def)
  qed (use st in auto)
qed

lemma assign_assigned_live:
  "assign host ip prof st = (es, st') \<Longrightarrow> assigned_live (fst st) \<Longrightarrow> assigned_live (fst st')"
proof (cases st; cases st')
  fix d w d' w'
  assume a: "assign host ip prof st = (es, st')" and ok: "assigned_live (fst st)" and st: "st = (d, w)" "st' = (d', w')"
  from a [unfolded st] show "assigned_live (fst st')"
  proof (cases rule: assign_cases)
    case unrouted
    with ok st show ?thesis using unroute_assigned_live by blast
  next
    case (moved want)
    then have "want \<in> up_name ` set (d_ups d)" using select_candidate candidate_names by blast
    with moved ok st show ?thesis by (auto simp: assigned_live_def live_in_def split: if_split_asm)
  qed (use ok st in simp_all)
qed

lemma route_peer_via:
  assumes "route_peer host p st = (es, st')"
  obtains (unknown) es' where "config_profile (d_cfg (fst st)) (sp_profile p) = None" "unroute host (sp_ip p) st = (es', st')"
      "es = UnknownProfile (sp_profile p) # es'"
    | (stuck) prof where "config_profile (d_cfg (fst st)) (sp_profile p) = Some prof" "unroute host (sp_ip p) st = (es, st')"
      "es \<noteq> []" "mget (d_unroutePending (fst st)) (sp_ip p) False"
    | (cleaned) prof st1 where "config_profile (d_cfg (fst st)) (sp_profile p) = Some prof"
      "unroute host (sp_ip p) st = ([], st1)" "assign host (sp_ip p) prof st1 = (es, st')"
      "mget (d_unroutePending (fst st)) (sp_ip p) False"
    | (direct) prof where "config_profile (d_cfg (fst st)) (sp_profile p) = Some prof"
      "\<not> mget (d_unroutePending (fst st)) (sp_ip p) False" "assign host (sp_ip p) prof st = (es, st')"
  using assms by (auto simp: route_peer_def split: option.splits if_splits prod.splits)

lemma route_peer_frame [frame]:
  "route_peer host p st = (es, st') \<Longrightarrow>
   d_devicePeers (fst st') = d_devicePeers (fst st) \<and> d_ups (fst st') = d_ups (fst st) \<and> d_cfg (fst st') = d_cfg (fst st)"
  by (erule route_peer_via) (auto dest!: unroute_frame assign_frame)

lemma route_peer_tracked:
  "route_peer host p st = (es, st') \<Longrightarrow> tracked (fst st') \<subseteq> insert (sp_ip p) (tracked (fst st))"
  by (erule route_peer_via) (auto dest!: unroute_tracked assign_tracked split: if_splits)

lemma route_peer_assigned_live:
  "route_peer host p st = (es, st') \<Longrightarrow> assigned_live (fst st) \<Longrightarrow> assigned_live (fst st')"
  by (erule route_peer_via) (blast dest: unroute_assigned_live assign_assigned_live)+

lemma route_peer_accounted:
  assumes "route_peer host p st = (es, st')" and "accounted (fst st)" and "sp_ip p \<in> device_addrs (fst st)"
  shows "accounted (fst st')"
  using assms route_peer_frame [OF assms(1)] route_peer_tracked [OF assms(1)]
  by (auto simp: accounted_def device_addrs_def)

section \<open>Reconcile\<close>

lemma remove_peer_frame:
  assumes "remove_peer host key st = (es, st')" shows "fst st' = fst st"
  using assms by (auto simp: remove_peer_def split: prod.splits)

lemma add_device_peer_cases:
  assumes "add_device_peer host p st = (es, st')"
  obtains (failed) "es \<noteq> []" "fst st' = fst st"
    | (added) "es = []" "fst st' = (fst st)\<lparr>d_devicePeers := mput (sp_public p) p (d_devicePeers (fst st))\<rparr>"
  using assms by (auto simp: add_device_peer_def split: prod.splits option.splits)

lemma tracked_frame [simp]:
  "tracked (d\<lparr>d_devicePeers := m\<rparr>) = tracked d" "tracked (d\<lparr>d_ups := us\<rparr>) = tracked d"
  "tracked (d\<lparr>d_cfg := c\<rparr>) = tracked d" "tracked (d\<lparr>d_wake := b\<rparr>) = tracked d" "tracked (d\<lparr>d_reloads := r\<rparr>) = tracked d"
  "tracked (d\<lparr>d_probes := ps\<rparr>) = tracked d" "tracked (d\<lparr>d_aliveFailed := f\<rparr>) = tracked d" "tracked (d\<lparr>d_down := b\<rparr>) = tracked d"
  by (simp_all add: tracked_def)

lemma assigned_live_devicePeers [simp]: "assigned_live (d\<lparr>d_devicePeers := m\<rparr>) = assigned_live d"
  by (simp add: assigned_live_def live_in_def)

lemma device_addrs_mem: "distinct (map fst (d_devicePeers d)) \<Longrightarrow>
    a \<in> device_addrs d \<longleftrightarrow> (\<exists>k p. map_of (d_devicePeers d) k = Some p \<and> sp_ip p = a)"
  unfolding device_addrs_def using map_of_eq_Some_iff by force

lemma accounted_mput:
  assumes "accounted d" and "\<And>q. map_of (d_devicePeers d) k = Some q \<Longrightarrow> sp_ip q = sp_ip p"
  shows "accounted (d\<lparr>d_devicePeers := mput k p (d_devicePeers d)\<rparr>)"
proof -
  let ?d = "d\<lparr>d_devicePeers := mput k p (d_devicePeers d)\<rparr>"
  have dist: "distinct (map fst (d_devicePeers d))" "distinct (map fst (d_devicePeers ?d))"
    using assms(1) by (simp_all add: accounted_def)
  have "device_addrs d \<subseteq> device_addrs ?d"
  proof
    fix a assume "a \<in> device_addrs d"
    with dist(1) obtain k' q where "map_of (d_devicePeers d) k' = Some q" "sp_ip q = a"
      using device_addrs_mem by blast
    with assms(2) have "map_of (d_devicePeers ?d) k' = Some (if k' = k then p else q) \<and> sp_ip (if k' = k then p else q) = a"
      by auto
    with dist(2) show "a \<in> device_addrs ?d" using device_addrs_mem by blast
  qed
  with assms(1) dist show ?thesis by (auto simp: accounted_def)
qed

lemma accounted_mdel:
  assumes "accounted d" and "map_of (d_devicePeers d) k = Some p \<or> map_of (d_devicePeers d) k = None" and "sp_ip p \<notin> tracked d"
  shows "accounted (d\<lparr>d_devicePeers := mdel k (d_devicePeers d)\<rparr>)"
proof -
  let ?d = "d\<lparr>d_devicePeers := mdel k (d_devicePeers d)\<rparr>"
  have dist: "distinct (map fst (d_devicePeers d))" "distinct (map fst (d_devicePeers ?d))"
    using assms(1) by (simp_all add: accounted_def)
  have "tracked d \<subseteq> device_addrs ?d"
  proof
    fix a assume a: "a \<in> tracked d"
    with assms(1) have "a \<in> device_addrs d" by (auto simp: accounted_def)
    with dist(1) obtain k' q where q: "map_of (d_devicePeers d) k' = Some q" "sp_ip q = a"
      using device_addrs_mem by blast
    with assms(2,3) a have "k' \<noteq> k" by auto
    with q have "map_of (d_devicePeers ?d) k' = Some q" by simp
    with q dist(2) show "a \<in> device_addrs ?d" using device_addrs_mem by blast
  qed
  with dist show ?thesis by (simp add: accounted_def)
qed

text \<open>One revocation step of the loop, for an entry that leaves.\<close>

lemma revoke_cases:
  assumes "revoke_loop host wanted ((key, p) # rest) st = (es, st')"
  obtains (kept) "key \<in> wanted" "revoke_loop host wanted rest st = (es, st')"
    | (stuck) e1 st1 e2 st2 es' where "key \<notin> wanted" "remove_peer host key st = (e1, st1)" "unroute host (sp_ip p) st1 = (e2, st2)"
      "e1 @ e2 \<noteq> []" "revoke_loop host wanted rest st2 = (es', st')" "es = e1 @ e2 @ es'"
    | (gone) st1 st2 where "key \<notin> wanted" "remove_peer host key st = ([], st1)" "unroute host (sp_ip p) st1 = ([], st2)"
      "revoke_loop host wanted rest ((fst st2)\<lparr>d_devicePeers := mdel key (d_devicePeers (fst st2))\<rparr>, snd st2) = (es, st')"
  using assms by (auto simp: Let_def split: if_split_asm prod.split_asm)

lemma admit_cases:
  assumes "admit_loop host held (p # ps) st = (es, st')"
  obtains (known) e1 st1 es' where "sp_public p \<in> keys (d_devicePeers (fst st))" "route_peer host p st = (e1, st1)"
      "admit_loop host held ps st1 = (es', st')" "es = e1 @ es'"
    | (held) "sp_public p \<notin> keys (d_devicePeers (fst st))" "sp_ip p \<in> held" "admit_loop host held ps st = (es, st')"
    | (refused) e0 st0 es' where "sp_public p \<notin> keys (d_devicePeers (fst st))" "sp_ip p \<notin> held"
      "add_device_peer host p st = (e0, st0)" "e0 \<noteq> []" "admit_loop host held ps st0 = (es', st')" "es = e0 @ es'"
    | (added) st0 e1 st1 es' where "sp_public p \<notin> keys (d_devicePeers (fst st))" "sp_ip p \<notin> held"
      "add_device_peer host p st = ([], st0)" "route_peer host p st0 = (e1, st1)" "admit_loop host held ps st1 = (es', st')"
      "es = e1 @ es'"
  using assms by (auto split: if_split_asm prod.split_asm)

lemma device_addr_of: "map_of (d_devicePeers d) k = Some p \<Longrightarrow> sp_ip p \<in> device_addrs d"
  unfolding device_addrs_def using map_of_SomeD by force

lemma revoke_loop_inv:
  assumes "revoke_loop host wanted l st = (es, st')" and "accounted (fst st)" and "assigned_live (fst st)"
    and "\<forall>(k, p) \<in> set l. map_of (d_devicePeers (fst st)) k = Some p" and "distinct (map fst l)"
  shows "accounted (fst st') \<and> assigned_live (fst st') \<and> d_ups (fst st') = d_ups (fst st) \<and> d_cfg (fst st') = d_cfg (fst st) \<and>
    (\<forall>k. map_of (d_devicePeers (fst st')) k = map_of (d_devicePeers (fst st)) k \<or>
         k \<notin> wanted \<and> map_of (d_devicePeers (fst st')) k = None)"
  using assms
proof (induction l arbitrary: st es)
  case Nil
  then show ?case by simp
next
  case (Cons kp rest)
  obtain key p where kp: "kp = (key, p)" by (cases kp) blast
  have entry: "map_of (d_devicePeers (fst st)) key = Some p" using Cons.prems(4) kp by simp
  from Cons.prems(1) [unfolded kp] show ?case
  proof (cases rule: revoke_cases)
    case kept
    with Cons show ?thesis by simp
  next
    case (stuck e1 st1 e2 st2 es')
    have fr: "fst st1 = fst st" by (rule remove_peer_frame [OF stuck(2)])
    have "accounted (fst st2)" "assigned_live (fst st2)"
      using unroute_accounted [OF stuck(3)] unroute_assigned_live [OF stuck(3)] Cons.prems fr device_addr_of [OF entry] by simp_all
    with Cons.IH [OF stuck(5)] Cons.prems unroute_frame [OF stuck(3)] fr show ?thesis by auto
  next
    case (gone st1 st2)
    have fr: "fst st1 = fst st" by (rule remove_peer_frame [OF gone(2)])
    have un: "accounted (fst st2)" "assigned_live (fst st2)" "d_devicePeers (fst st2) = d_devicePeers (fst st)"
        "d_ups (fst st2) = d_ups (fst st)" "d_cfg (fst st2) = d_cfg (fst st)" "sp_ip p \<notin> tracked (fst st2)"
      using unroute_accounted [OF gone(3)] unroute_assigned_live [OF gone(3)] unroute_frame [OF gone(3)]
        unroute_tracked [OF gone(3)] Cons.prems fr device_addr_of [OF entry] by simp_all
    let ?st3 = "((fst st2)\<lparr>d_devicePeers := mdel key (d_devicePeers (fst st2))\<rparr>, snd st2)"
    have acc: "accounted (fst ?st3)" using accounted_mdel [OF un(1), of key p] un entry by simp
    have rest: "\<forall>(k, q) \<in> set rest. map_of (d_devicePeers (fst ?st3)) k = Some q"
      using Cons.prems(4,5) kp un(3) by (force simp: image_iff)
    have ih: "accounted (fst st') \<and> assigned_live (fst st') \<and> d_ups (fst st') = d_ups (fst st) \<and> d_cfg (fst st') = d_cfg (fst st)"
        and ik: "map_of (d_devicePeers (fst st')) k = map_of (d_devicePeers (fst ?st3)) k \<or>
             k \<notin> wanted \<and> map_of (d_devicePeers (fst st')) k = None" for k
      using Cons.IH [OF gone(4) acc _ rest] un Cons.prems(5) kp by auto
    have "map_of (d_devicePeers (fst st')) k = map_of (d_devicePeers (fst st)) k \<or>
          k \<notin> wanted \<and> map_of (d_devicePeers (fst st')) k = None" for k
      using ik [of k] gone(1) un(3) by (cases "k = key") auto
    with ih show ?thesis by blast
  qed
qed

text \<open>The listing gives every key on the device the address it was added with.\<close>

definition keys_stable :: "'e daemon \<Rightarrow> store_peer list \<Rightarrow> bool" where
  "keys_stable d ps \<longleftrightarrow>
     (\<forall>p \<in> set ps. case map_of (d_devicePeers d) (sp_public p) of None \<Rightarrow> True | Some q \<Rightarrow> sp_ip q = sp_ip p)"

lemma keys_stable_Cons: "keys_stable d (p # ps) \<Longrightarrow> keys_stable d ps"
  by (simp add: keys_stable_def)

lemma keys_stableD: "keys_stable d ps \<Longrightarrow> p \<in> set ps \<Longrightarrow> map_of (d_devicePeers d) (sp_public p) = Some q \<Longrightarrow> sp_ip q = sp_ip p"
  by (auto simp: keys_stable_def)

lemma keys_stable_cong: "d_devicePeers d' = d_devicePeers d \<Longrightarrow> keys_stable d' ps = keys_stable d ps"
  by (simp add: keys_stable_def)

lemma keys_stable_mput:
  "keys_stable d ps \<Longrightarrow> sp_public p \<notin> sp_public ` set ps \<Longrightarrow> d_devicePeers d' = mput (sp_public p) p (d_devicePeers d) \<Longrightarrow>
   keys_stable d' ps"
  unfolding keys_stable_def by (rule ballI, drule bspec, assumption) (auto simp: image_iff split: option.splits)

lemma admit_loop_inv:
  assumes "admit_loop host held ps st = (es, st')" and "accounted (fst st)" and "assigned_live (fst st)"
    and "keys_stable (fst st) ps" and "distinct (map sp_public ps)"
  shows "accounted (fst st') \<and> assigned_live (fst st') \<and> d_ups (fst st') = d_ups (fst st) \<and> d_cfg (fst st') = d_cfg (fst st) \<and>
    keys (d_devicePeers (fst st')) \<subseteq> keys (d_devicePeers (fst st)) \<union> sp_public ` set ps"
  using assms
proof (induction ps arbitrary: st es)
  case Nil
  then show ?case by simp
next
  case (Cons p ps)
  have stable: "keys_stable (fst st) ps" and dist: "distinct (map sp_public ps)" "sp_public p \<notin> sp_public ` set ps"
    using Cons.prems(4,5) keys_stable_Cons by auto
  from Cons.prems(1) show ?case
  proof (cases rule: admit_cases)
    case (known e1 st1 es')
    then obtain q where q: "map_of (d_devicePeers (fst st)) (sp_public p) = Some q"
      by (metis domD dom_map_of_conv_image_fst)
    have "sp_ip q = sp_ip p" using keys_stableD [OF Cons.prems(4) _ q] by simp
    with device_addr_of [OF q] have "sp_ip p \<in> device_addrs (fst st)" by simp
    then have st1: "accounted (fst st1)" "assigned_live (fst st1)" "d_devicePeers (fst st1) = d_devicePeers (fst st)"
        "d_ups (fst st1) = d_ups (fst st)" "d_cfg (fst st1) = d_cfg (fst st)"
      using route_peer_accounted [OF known(2)] route_peer_assigned_live [OF known(2)] route_peer_frame [OF known(2)] Cons.prems(2,3)
      by simp_all
    show ?thesis
      using Cons.IH [OF known(3) st1(1,2) _ dist(1)] stable keys_stable_cong [OF st1(3)] st1(3-5) by auto
  next
    case held
    from Cons.IH [OF held(3) Cons.prems(2,3) stable dist(1)] show ?thesis by auto
  next
    case (refused e0 st0 es')
    from refused(3,4) have st0: "fst st0 = fst st" by (auto elim: add_device_peer_cases)
    from Cons.IH [OF refused(5)] Cons.prems(2,3) stable dist(1) show ?thesis unfolding st0 by auto
  next
    case (added st0 e1 st1 es')
    from added(3) have st0: "fst st0 = (fst st)\<lparr>d_devicePeers := mput (sp_public p) p (d_devicePeers (fst st))\<rparr>"
      by (auto elim: add_device_peer_cases)
    have "map_of (d_devicePeers (fst st)) (sp_public p) = None" using added(1) by (simp add: map_of_eq_None_iff)
    with Cons.prems(2) have acc: "accounted (fst st0)" unfolding st0 by (intro accounted_mput) simp_all
    have live: "assigned_live (fst st0)" using Cons.prems(3) by (simp add: st0)
    have "map_of (d_devicePeers (fst st0)) (sp_public p) = Some p" by (simp add: st0)
    then have ip: "sp_ip p \<in> device_addrs (fst st0)" by (rule device_addr_of)
    note rp = route_peer_accounted [OF added(4) acc ip] route_peer_assigned_live [OF added(4) live] route_peer_frame [OF added(4)]
    have "d_devicePeers (fst st1) = mput (sp_public p) p (d_devicePeers (fst st))" using rp(3) by (simp add: st0)
    then have keep: "keys_stable (fst st1) ps" by (rule keys_stable_mput [OF stable dist(2)])
    from Cons.IH [OF added(5) rp(1,2) keep dist(1)] rp(3) show ?thesis by (auto simp: st0)
  qed
qed

lemma reconcile_inv:
  assumes "reconcile host st = (es, st')" and "accounted (fst st)" and "assigned_live (fst st)"
    and "\<And>ps. hs_list_peers host (snd st) = Inr ps \<Longrightarrow> keys_stable (fst st) ps \<and> distinct (map sp_public ps)"
  shows "accounted (fst st') \<and> assigned_live (fst st') \<and> d_ups (fst st') = d_ups (fst st) \<and> d_cfg (fst st') = d_cfg (fst st)"
proof (cases "hs_list_peers host (snd st)")
  case (Inl e)
  with assms show ?thesis by (simp add: reconcile_def)
next
  case (Inr ps)
  obtain e1 st1 where r: "revoke_loop host (set (map sp_public ps)) (d_devicePeers (fst st)) st = (e1, st1)"
    by (cases "revoke_loop host (set (map sp_public ps)) (d_devicePeers (fst st)) st") blast
  let ?held = "set (map (\<lambda>(_, p). sp_ip p) (d_devicePeers (fst st1)))"
  obtain e2 where a: "admit_loop host ?held ps st1 = (e2, st')"
    using assms(1) Inr r by (auto simp: reconcile_def split: prod.splits)
  have d: "distinct (map fst (d_devicePeers (fst st)))" using assms(2) by (simp add: accounted_def)
  then have all: "\<forall>(k, p) \<in> set (d_devicePeers (fst st)). map_of (d_devicePeers (fst st)) k = Some p" by auto
  note rv = revoke_loop_inv [OF r assms(2,3) all d]
  have "keys_stable (fst st1) ps" unfolding keys_stable_def
  proof
    fix p assume p: "p \<in> set ps"
    have "map_of (d_devicePeers (fst st1)) (sp_public p) = map_of (d_devicePeers (fst st)) (sp_public p) \<or>
          map_of (d_devicePeers (fst st1)) (sp_public p) = None" using rv by metis
    with assms(4) [OF Inr] p show "case map_of (d_devicePeers (fst st1)) (sp_public p) of None \<Rightarrow> True | Some q \<Rightarrow> sp_ip q = sp_ip p"
      by (auto simp: keys_stable_def)
  qed
  with admit_loop_inv [OF a] rv assms(4) [OF Inr] show ?thesis by simp
qed

text \<open>The three ways a reload ends.\<close>

abbreviation by_name :: "upstream list \<Rightarrow> (string \<times> upstream) list" where
  "by_name us \<equiv> foldl (\<lambda>m u. mput (up_name u) u m) [] us"

lemma reload_cases:
  assumes eq: "reload host cfg (d, w) = (es, st')"
  obtains (rejected) "restartRequired (d_cfg d) cfg \<noteq> []" "es = [RestartRequired (restartRequired (d_cfg d) cfg)]"
      "st' = (d\<lparr>d_reloads := (fst (d_reloads d), snd (d_reloads d) + 1)\<rparr>, w)"
    | (failed) left ups errs st1 d2 w2 e w3 where "restartRequired (d_cfg d) cfg = []"
      "reload_loop host (cf_health cfg) (cf_upstreams cfg) (by_name (d_ups d)) [] [] (d, w) = (left, ups, errs, st1)"
      "drop_all host left st1 = (d2, w2)"
      "dp_set_upstreams (hs_dp host) (interfaces (d2\<lparr>d_ups := ups, d_cfg := cfg\<rparr>)) (daemon_mtu (d2\<lparr>d_ups := ups, d_cfg := cfg\<rparr>)) w2 = (Some e, w3)"
      "es = [DataplaneError e]" "st' = (d2\<lparr>d_ups := ups, d_cfg := cfg\<rparr>, w3)"
    | (applied) left ups errs st1 d2 w2 w3 e4 d4 w4 where "restartRequired (d_cfg d) cfg = []"
      "reload_loop host (cf_health cfg) (cf_upstreams cfg) (by_name (d_ups d)) [] [] (d, w) = (left, ups, errs, st1)"
      "drop_all host left st1 = (d2, w2)"
      "dp_set_upstreams (hs_dp host) (interfaces (d2\<lparr>d_ups := ups, d_cfg := cfg\<rparr>)) (daemon_mtu (d2\<lparr>d_ups := ups, d_cfg := cfg\<rparr>)) w2 = (None, w3)"
      "revive host ups (d2\<lparr>d_ups := ups, d_cfg := cfg\<rparr>, w3) = (e4, (d4, w4))" "es = errs @ e4"
      "st' = (d4\<lparr>d_wake := True, d_reloads := (if es = [] then (fst (d_reloads d) + 1, snd (d_reloads d))
                                           else (fst (d_reloads d), snd (d_reloads d) + 1))\<rparr>, w4)"
proof (cases "restartRequired (d_cfg d) cfg = []")
  case False
  then show thesis using eq by (intro that(1)) (simp_all add: reload_def split: prod.splits)
next
  case True
  obtain left ups errs st1 where lp:
      "reload_loop host (cf_health cfg) (cf_upstreams cfg) (by_name (d_ups d)) [] [] (d, w) = (left, ups, errs, st1)"
    by (rule prod_cases4 [of "reload_loop host (cf_health cfg) (cf_upstreams cfg) (by_name (d_ups d)) [] [] (d, w)"]) blast
  obtain d2 w2 where dr: "drop_all host left st1 = (d2, w2)" by (cases "drop_all host left st1") blast
  let ?d3 = "d2\<lparr>d_ups := ups, d_cfg := cfg\<rparr>"
  obtain r w3 where su: "dp_set_upstreams (hs_dp host) (interfaces ?d3) (daemon_mtu ?d3) w2 = (r, w3)"
    by (cases "dp_set_upstreams (hs_dp host) (interfaces ?d3) (daemon_mtu ?d3) w2") blast
  obtain e4 d4 w4 where rv: "revive host ups (?d3, w3) = (e4, (d4, w4))" by (metis prod_cases3)
  obtain g b where gb: "d_reloads d = (g, b)" by (cases "d_reloads d") blast
  show thesis
  proof (cases r)
    case None
    show thesis
    proof (rule that(3) [OF True lp dr su [unfolded None] rv])
      show "es = errs @ e4" using eq True lp dr su rv gb None by (simp add: reload_def)
      then show "st' = (d4\<lparr>d_wake := True, d_reloads := (if es = [] then (fst (d_reloads d) + 1, snd (d_reloads d))
                                           else (fst (d_reloads d), snd (d_reloads d) + 1))\<rparr>, w4)"
        using eq True lp dr su rv gb None by (auto simp: reload_def)
    qed
  next
    case (Some e)
    show thesis
      by (rule that(2) [OF True lp dr su [unfolded Some]]) (use eq True lp dr su gb Some in \<open>simp_all add: reload_def\<close>)
  qed
qed

text \<open>The six ways \<open>start\<close> ends.\<close>

lemma start_cases:
  assumes eq: "start host (d, w) = (r, st')"
  obtains (unparsed) "st' = (d, w)" "r = Some ListenError"
    | (no_tun) e w1 where "r = Some (HostError e)" "hs_new_tun host DownstreamInterface DefaultWireGuard w = (Some e, w1)" "st' = (d, w1)"
    | (unconfigured) listen w1 e w2 where "r = Some (HostError e)"
      "hs_new_tun host DownstreamInterface DefaultWireGuard w = (None, w1)"
      "hs_configure host DownstreamInterface (config_uapi (down_config (d_id d) (ap_port listen))) w1 = (Some e, w2)"
      "st' = (d\<lparr>d_down := True\<rparr>, w2)"
    | (unopened) listen w1 w2 e where "r = Some e"
      "hs_new_tun host DownstreamInterface DefaultWireGuard w = (None, w1)"
      "hs_configure host DownstreamInterface (config_uapi (down_config (d_id d) (ap_port listen))) w1 = (None, w2)"
      "open_all host (cf_upstreams (d_cfg d)) (d\<lparr>d_down := True\<rparr>, w2) = (Some e, st')"
    | (unset) listen w1 w2 d3 w3 e w4 where "r = Some (SetupError e)"
      "hs_new_tun host DownstreamInterface DefaultWireGuard w = (None, w1)"
      "hs_configure host DownstreamInterface (config_uapi (down_config (d_id d) (ap_port listen))) w1 = (None, w2)"
      "open_all host (cf_upstreams (d_cfg d)) (d\<lparr>d_down := True\<rparr>, w2) = (None, (d3, w3))"
      "dp_setup (hs_dp host) \<lparr>di_name = DownstreamInterface, di_addr = gateway (d_cfg d3)\<rparr> (interfaces d3) (daemon_mtu d3) w3 = (Some e, w4)"
      "st' = (d3, w4)"
    | (up) listen w1 w2 d3 w3 w4 w5 r5 where "r = map_option HostError r5"
      "hs_new_tun host DownstreamInterface DefaultWireGuard w = (None, w1)"
      "hs_configure host DownstreamInterface (config_uapi (down_config (d_id d) (ap_port listen))) w1 = (None, w2)"
      "open_all host (cf_upstreams (d_cfg d)) (d\<lparr>d_down := True\<rparr>, w2) = (None, (d3, w3))"
      "dp_setup (hs_dp host) \<lparr>di_name = DownstreamInterface, di_addr = gateway (d_cfg d3)\<rparr> (interfaces d3) (daemon_mtu d3) w3 = (None, w4)"
      "bring_up host (map device_name (d_ups d3) @ [DownstreamInterface]) w4 = (r5, w5)"
      "st' = (d3, w5)"
proof (cases "parse_addr_port (cf_listen (d_cfg d))")
  case None
  with eq show thesis by (intro that(1)) (simp_all add: start_def)
next
  case (Some listen)
  obtain r1 w1 where t: "hs_new_tun host DownstreamInterface DefaultWireGuard w = (r1, w1)"
    by (cases "hs_new_tun host DownstreamInterface DefaultWireGuard w") blast
  let ?d1 = "d\<lparr>d_down := True\<rparr>"
  let ?text = "config_uapi (down_config (d_id d) (ap_port listen))"
  obtain r2 w2 where c: "hs_configure host DownstreamInterface ?text w1 = (r2, w2)"
    by (cases "hs_configure host DownstreamInterface ?text w1") blast
  obtain r3 d3 w3 where o: "open_all host (cf_upstreams (d_cfg d)) (?d1, w2) = (r3, (d3, w3))" by (metis prod_cases3)
  let ?down = "\<lparr>di_name = DownstreamInterface, di_addr = gateway (d_cfg d3)\<rparr>"
  obtain r4 w4 where s: "dp_setup (hs_dp host) ?down (interfaces d3) (daemon_mtu d3) w3 = (r4, w4)"
    by (cases "dp_setup (hs_dp host) ?down (interfaces d3) (daemon_mtu d3) w3") blast
  obtain r5 w5 where b: "bring_up host (map device_name (d_ups d3) @ [DownstreamInterface]) w4 = (r5, w5)"
    by (cases "bring_up host (map device_name (d_ups d3) @ [DownstreamInterface]) w4") blast
  note all = Some t c o s b
  show thesis
  proof (cases r1)
    case (Some e)
    with eq all show thesis by (intro that(2) [of e w1]) (simp_all add: start_def)
  next
    case r1: None
    show thesis
    proof (cases r2)
      case (Some e)
      with r1 eq all show thesis by (intro that(3) [of e w1 listen w2]) (simp_all add: start_def)
    next
      case r2: None
      show thesis
      proof (cases r3)
        case (Some e)
        with r1 r2 eq all show thesis by (intro that(4) [of e w1 listen w2]) (simp_all add: start_def)
      next
        case r3: None
        show thesis
        proof (cases r4)
          case (Some e)
          with r1 r2 r3 eq all show thesis by (intro that(5) [of e w1 listen w2 d3 w3 w4]) (simp_all add: start_def)
        next
          case None
          with r1 r2 r3 eq all show thesis by (intro that(6) [of r5 w1 listen w2 d3 w3 w4 w5]) (simp_all add: start_def)
        qed
      qed
    qed
  qed
qed

section \<open>Nothing is forwarded but what is tracked\<close>

lemma fail_closedD: "fail_closed fwd st \<Longrightarrow> a \<notin> tracked (fst st) \<Longrightarrow> fwd (snd st) a = None"
  by (auto simp: fail_closed_def)

lemma addr_outside: "finite A \<Longrightarrow> \<exists>b. b \<notin> (A :: addr set)"
proof -
  have "infinite (range (V6 0))" by (simp add: finite_image_iff inj_on_def infinite_UNIV_listI)
  then show "finite A \<Longrightarrow> \<exists>b. b \<notin> A" by (metis finite_subset subsetI)
qed

lemma finite_tracked: "finite (tracked d)"
proof -
  have "tracked d \<subseteq> keys (d_assignments d) \<union> keys (d_unroutePending d)"
    by (force simp: tracked_def mget_def map_of_eq_None_iff split: option.splits dest: map_of_SomeD)
  then show ?thesis by (rule finite_subset) simp
qed

lemma fail_closedI: "(\<And>a. a \<notin> tracked (fst st) \<Longrightarrow> fwd (snd st) a = None) \<Longrightarrow> fail_closed fwd st"
  unfolding fail_closed_def by (metis)

lemma fail_closed_mono:
  "fail_closed fwd st \<Longrightarrow> fwd (snd st') = fwd (snd st) \<Longrightarrow> tracked (fst st) \<subseteq> tracked (fst st') \<Longrightarrow> fail_closed fwd st'"
  unfolding fail_closed_def by auto

lemma fail_closed_blocked:
  "fail_closed fwd (d, w) \<Longrightarrow> (\<And>a. fwd w a = None \<Longrightarrow> fwd w' a = None) \<Longrightarrow> tracked d' = tracked d \<Longrightarrow> fail_closed fwd (d', w')"
  unfolding fail_closed_def by (metis fst_conv snd_conv)

context daemon_calls
begin

lemma unroute_closed:
  assumes "unroute host ip st = (es, st')" and "fail_closed fwd st"
  shows "fail_closed fwd st'"
proof (rule fail_closedI)
  fix a assume a: "a \<notin> tracked (fst st')"
  obtain d w d' w' where st: "st = (d, w)" "st' = (d', w')" by (cases st; cases st') blast
  from assms(1) [unfolded st] show "fwd (snd st') a = None"
  proof (cases rule: unroute_cases)
    case (failed e)
    with unroute_tracked [OF assms(1)] a have "a \<noteq> ip" "a \<notin> tracked (fst st)" by auto
    with fail_closedD [OF assms(2)] st have "fwd w a = None" by simp
    with unroute_keeps [OF failed(1)] st show ?thesis by simp
  next
    case cleared
    with unroute_tracked [OF assms(1)] a have "a = ip \<or> a \<notin> tracked (fst st)" by auto
    then show ?thesis
    proof
      assume "a = ip"
      obtain b where "b \<notin> tracked d" using addr_outside [OF finite_tracked] by blast
      with fail_closedD [OF assms(2)] st have "fwd w b = None" by simp
      with unroute_clears [OF cleared(1)] \<open>a = ip\<close> st show ?thesis by simp
    next
      assume "a \<notin> tracked (fst st)"
      with fail_closedD [OF assms(2)] st have "fwd w a = None" by simp
      with unroute_keeps [OF cleared(1)] st show ?thesis by simp
    qed
  qed
qed

lemma assign_closed:
  assumes "assign host ip prof st = (es, st')" and "fail_closed fwd st"
  shows "fail_closed fwd st'"
proof -
  obtain d w d' w' where st: "st = (d, w)" "st' = (d', w')" by (cases st; cases st') blast
  from assms(1) [unfolded st] show ?thesis
  proof (cases rule: assign_cases)
    case unrouted
    with assms(2) st unroute_closed show ?thesis by blast
  next
    case (failed e want)
    have "fwd w' a = None" if "a \<notin> tracked d" for a
    proof -
      have "fwd w a = None" using fail_closedD [OF assms(2)] that st by simp
      then show ?thesis using route_keeps [OF failed(2)] route_blocked [OF failed(2)] by (cases "a = ip") auto
    qed
    with failed st show ?thesis by (intro fail_closedI) simp
  next
    case (moved want)
    have "fwd w' a = None" if "a \<notin> tracked d'" for a
    proof -
      have "a \<noteq> ip" "a \<notin> tracked d" using that moved(4) by (auto simp: tracked_def split: if_split_asm)
      then show ?thesis using fail_closedD [OF assms(2)] route_keeps [OF moved(2)] st by simp
    qed
    with st show ?thesis by (intro fail_closedI) simp
  qed (use assms(2) st in simp_all)
qed

lemma route_peer_closed:
  "route_peer host p st = (es, st') \<Longrightarrow> fail_closed fwd st \<Longrightarrow> fail_closed fwd st'"
  by (erule route_peer_via) (blast dest: unroute_closed assign_closed)+

lemma remove_peer_closed:
  assumes "remove_peer host key st = (es, st')" and "fail_closed fwd st" shows "fail_closed fwd st'"
  using assms configure_fwd by (intro fail_closed_mono [OF assms(2)]) (auto simp: remove_peer_def split: prod.splits)

lemma add_device_peer_closed:
  assumes "add_device_peer host p st = (es, st')" and "fail_closed fwd st" shows "fail_closed fwd st'"
  using assms configure_fwd
  by (intro fail_closed_mono [OF assms(2)]) (auto simp: add_device_peer_def split: prod.splits option.splits)

lemma revoke_loop_closed:
  "revoke_loop host wanted l st = (es, st') \<Longrightarrow> fail_closed fwd st \<Longrightarrow> fail_closed fwd st'"
proof (induction l arbitrary: st es)
  case (Cons kp rest)
  obtain key p where kp: "kp = (key, p)" by (cases kp) blast
  from Cons.prems(1) [unfolded kp] show ?case
  proof (cases rule: revoke_cases)
    case (gone st1 st2)
    have "fail_closed fwd st2" using gone(2,3) Cons.prems(2) remove_peer_closed unroute_closed by blast
    then have "fail_closed fwd ((fst st2)\<lparr>d_devicePeers := mdel key (d_devicePeers (fst st2))\<rparr>, snd st2)"
      by (simp add: fail_closed_def)
    with gone(4) Cons.IH show ?thesis by blast
  qed (use Cons.IH Cons.prems(2) remove_peer_closed unroute_closed in blast)+
qed simp

lemma admit_loop_closed:
  "admit_loop host held ps st = (es, st') \<Longrightarrow> fail_closed fwd st \<Longrightarrow> fail_closed fwd st'"
proof (induction ps arbitrary: st es)
  case (Cons p ps)
  from Cons.prems(1) show ?case
    by (cases rule: admit_cases) (use Cons.IH Cons.prems(2) route_peer_closed add_device_peer_closed in blast)+
qed simp

lemma reconcile_closed:
  "reconcile host st = (es, st') \<Longrightarrow> fail_closed fwd st \<Longrightarrow> fail_closed fwd st'"
  by (auto simp: reconcile_def dest: revoke_loop_closed admit_loop_closed split: sum.splits prod.splits)

section \<open>Probes\<close>

lemma apply_alive_closed:
  assumes "apply_alive host u st = (es, st')" and "fail_closed fwd st" shows "fail_closed fwd st'"
proof -
  obtain d w d' w' where st: "st = (d, w)" "st' = (d', w')" by (cases st; cases st') blast
  obtain r w1 where sa: "dp_set_alive (hs_dp host) (device_name u) (t_state (up_tracker u) = Up) w = (r, w1)"
    by (cases "dp_set_alive (hs_dp host) (device_name u) (t_state (up_tracker u) = Up) w") blast
  have tr: "tracked d' = tracked d" "w' = w1"
    using assms(1) st sa by (auto simp: apply_alive_def tracked_def split: option.split_asm)
  from assms(2) have "fail_closed fwd (d, w)" by (simp only: st)
  then show ?thesis unfolding st by (rule fail_closed_blocked) (use set_alive_keeps [OF sa] tr in simp_all)
qed

lemma refresh_fwd:
  assumes "refresh_endpoint lookup (hs_configure host n) u w = (u', r, w')"
  shows "fwd w' = fwd w"
  using assms configure_fwd
  by (auto simp: refresh_endpoint_def split: if_split_asm sum.split_asm list.split_asm option.split_asm prod.split_asm)

lemma countProbe_closed: "fail_closed fwd st \<Longrightarrow> fail_closed fwd (countProbe n ok (fst st), snd st)"
  by (simp add: fail_closed_def countProbe_def split: prod.splits)

lemma probe_observed_closed:
  assumes "probe_observed host r u st = (u', st')" and "fail_closed fwd st"
  shows "fail_closed fwd st'"
proof -
  have al: "fail_closed fwd (snd (apply_alive host v (countProbe n ok (fst st), snd st)))" for v n ok
    by (rule apply_alive_closed [OF prod.collapse [symmetric] countProbe_closed [OF assms(2)]])
  show ?thesis
    using assms(1) al countProbe_closed [OF assms(2)] by (auto simp: probe_observed_def Let_def split: prod.splits if_split_asm)
qed

lemma probe_result_closed:
  assumes "probe_result host r u st = (u', st')" and "fail_closed fwd st"
  shows "fail_closed fwd st'"
proof -
  obtain u1 d1 w1 where ob: "probe_observed host r u st = (u1, (d1, w1))" by (metis prod_cases3)
  obtain u2 q w2 where rf: "refresh_endpoint (hs_lookup host w1) (hs_configure host (device_name u1)) u1 w1 = (u2, q, w2)"
    by (metis prod_cases3)
  have "st' = (d1, w1) \<or> st' = (d1, w2)"
    using assms(1) ob rf by (auto simp: probe_result_def split: if_split_asm)
  with probe_observed_closed [OF ob assms(2)] refresh_fwd [OF rf] show ?thesis by (elim disjE) (simp_all add: fail_closed_def)
qed

lemma probe_upstream_closed:
  assumes "fail_closed fwd st" shows "fail_closed fwd (probe_upstream host r i st)"
proof -
  obtain u d w where p: "probe_result host r (d_ups (fst st) ! i) st = (u, (d, w))" by (metis prod_cases3)
  from probe_result_closed [OF p assms] show ?thesis by (simp add: probe_upstream_def p fail_closed_def)
qed

section \<open>Reload\<close>

lemma unroute_named_closed: "fail_closed fwd st \<Longrightarrow> fail_closed fwd (unroute_named host name l st)"
proof (induction l arbitrary: st)
  case (Cons e l)
  obtain ip n where e: "e = (ip, n)" by (cases e) blast
  obtain es st1 where u: "unroute host ip st = (es, st1)" by (cases "unroute host ip st") blast
  from Cons.IH [OF unroute_closed [OF u Cons.prems]] Cons.IH [OF Cons.prems] u e show ?case by simp
qed simp

lemma dropUpstream_closed:
  assumes "fail_closed fwd st" shows "fail_closed fwd (dropUpstream host u st)"
proof -
  obtain d w where n: "unroute_named host (up_name u) (d_assignments (fst st)) st = (d, w)"
    by (cases "unroute_named host (up_name u) (d_assignments (fst st)) st") blast
  from unroute_named_closed [OF assms, of "up_name u" "d_assignments (fst st)"] show ?thesis
    by (simp add: dropUpstream_def n fail_closed_def close_fwd)
qed

lemma open_upstream_fwd:
  assumes "open_upstream host u h w = (r, w')" shows "fwd w' = fwd w"
  using assms new_tun_fwd configure_fwd close_fwd
  by (auto simp: open_upstream_def split: sum.split_asm prod.split_asm option.split_asm)

lemma reload_loop_closed:
  "reload_loop host h us current acc errs st = (left, ups, errs', st') \<Longrightarrow> fail_closed fwd st \<Longrightarrow> fail_closed fwd st'"
proof (induction us arbitrary: current acc errs st)
  case (Cons u us)
  let ?old = "map_of current (u_name u)"
  let ?st1 = "case ?old of None \<Rightarrow> st | Some o' \<Rightarrow> dropUpstream host o' st"
  obtain r w where op: "open_upstream host u h (snd ?st1) = (r, w)" by (cases "open_upstream host u h (snd ?st1)") blast
  have "fail_closed fwd ?st1" using Cons.prems(2) dropUpstream_closed by (simp split: option.split)
  then have "fail_closed fwd (fst ?st1, w)" by (rule fail_closed_mono) (simp_all add: open_upstream_fwd [OF op])
  with Cons op show ?case by (auto simp: Let_def split: option.splits if_splits sum.splits)
qed simp

lemma drop_all_closed: "fail_closed fwd st \<Longrightarrow> fail_closed fwd (drop_all host l st)"
proof (induction l arbitrary: st)
  case (Cons e l)
  then show ?case by (cases e) (simp add: dropUpstream_closed)
qed simp

lemma revive_closed: "revive host us st = (es, st') \<Longrightarrow> fail_closed fwd st \<Longrightarrow> fail_closed fwd st'"
proof (induction us arbitrary: st es)
  case (Cons u us)
  obtain r w1 where up: "hs_up host (device_name u) (snd st) = (r, w1)" by (cases "hs_up host (device_name u) (snd st)") blast
  obtain e1 st1 where al: "apply_alive host u (fst st, w1) = (e1, st1)" by (cases "apply_alive host u (fst st, w1)") blast
  have "fail_closed fwd (fst st, w1)" by (rule fail_closed_mono [OF Cons.prems(2)]) (simp_all add: up_fwd [OF up])
  then have "fail_closed fwd st1" by (rule apply_alive_closed [OF al])
  with Cons up al show ?case by (auto simp: Let_def split: prod.splits)
qed simp

lemma reload_closed:
  assumes eq: "reload host cfg (d, w) = (es, st')" and "fail_closed fwd (d, w)"
  shows "fail_closed fwd st'"
  using eq
proof (cases rule: reload_cases)
  case rejected
  with assms(2) show ?thesis by (simp add: fail_closed_def)
next
  case (failed left ups errs st1 d2 w2 e w3)
  have "fail_closed fwd (d2, w2)" using drop_all_closed [OF reload_loop_closed [OF failed(2) assms(2)]] failed(3) by metis
  then have "fail_closed fwd (d2\<lparr>d_ups := ups, d_cfg := cfg\<rparr>, w3)"
    by (rule fail_closed_blocked) (simp_all add: set_upstreams_keeps [OF failed(4)])
  with failed show ?thesis by simp
next
  case (applied left ups errs st1 d2 w2 w3 e4 d4 w4)
  have "fail_closed fwd (d2, w2)" using drop_all_closed [OF reload_loop_closed [OF applied(2) assms(2)]] applied(3) by metis
  then have "fail_closed fwd (d2\<lparr>d_ups := ups, d_cfg := cfg\<rparr>, w3)"
    by (rule fail_closed_blocked) (simp_all add: set_upstreams_keeps [OF applied(4)])
  then have "fail_closed fwd (d4, w4)" by (rule revive_closed [OF applied(5)])
  with applied show ?thesis by (simp add: fail_closed_def)
qed

section \<open>Start\<close>

lemma open_all_closed:
  "open_all host us st = (r, st') \<Longrightarrow> fail_closed fwd st \<Longrightarrow> fail_closed fwd st'"
proof (induction us arbitrary: st)
  case (Cons u us)
  obtain q w where op: "open_upstream host u (cf_health (d_cfg (fst st))) (snd st) = (q, w)"
    by (cases "open_upstream host u (cf_health (d_cfg (fst st))) (snd st)") blast
  have w: "fwd w = fwd (snd st)" by (rule open_upstream_fwd [OF op])
  show ?case
  proof (cases q)
    case (Inl e)
    with Cons.prems op w show ?thesis by (auto simp: fail_closed_def)
  next
    case (Inr up)
    have "fail_closed fwd ((fst st)\<lparr>d_ups := d_ups (fst st) @ [up]\<rparr>, w)"
      using Cons.prems(2) w by (simp add: fail_closed_def)
    with Cons.IH Cons.prems(1) op Inr show ?thesis by simp
  qed
qed simp

lemma bring_up_fwd: "bring_up host ns w = (r, w') \<Longrightarrow> fwd w' = fwd w"
proof (induction ns arbitrary: w)
  case (Cons n ns)
  obtain q w1 where "hs_up host n w = (q, w1)" by (cases "hs_up host n w") blast
  with Cons up_fwd [of n w q w1] show ?case by (cases q) auto
qed simp

lemma close_all_fwd: "fwd (close_all host us w) = fwd w"
  unfolding close_all_def by (induction us arbitrary: w) (simp_all add: close_fwd)

text \<open>A start that succeeds leaves everything blocked when \<open>Setup\<close> does, whatever the host was like before.\<close>

lemma start_fresh:
  assumes "start host (d, w) = (None, st')"
    and "\<And>down ups m w w' a. di_name down = DownstreamInterface \<Longrightarrow> dp_setup (hs_dp host) down ups m w = (None, w') \<Longrightarrow> fwd w' a = None"
  shows "fwd (snd st') a = None"
  using assms(1)
proof (cases rule: start_cases)
  case (up listen w1 w2 d3 w3 w4 w5 r5)
  have "fwd w4 a = None" by (rule assms(2) [OF _ up(5)]) simp
  with bring_up_fwd [OF up(6)] up(7) show ?thesis by simp
qed simp_all

end

context daemon_host
begin

lemma start_closed:
  assumes eq: "start host (d, w) = (r, st')" and "fail_closed fwd (d, w)"
  shows "fail_closed fwd st'"
proof -
  have opened: "fail_closed fwd (d3, w3)"
    if "hs_new_tun host DownstreamInterface DefaultWireGuard w = (None, w1)"
      and "hs_configure host DownstreamInterface t w1 = (None, w2)"
      and "open_all host us (d\<lparr>d_down := True\<rparr>, w2) = (r3, (d3, w3))" for t us w1 w2 r3 d3 w3
    using open_all_closed [OF that(3)] new_tun_fwd [OF that(1)] configure_fwd [OF that(2)] assms(2) by (simp add: fail_closed_def)
  from eq show ?thesis
  proof (cases rule: start_cases)
    case (no_tun e w1)
    with assms(2) new_tun_fwd [OF no_tun(2)] show ?thesis by (simp add: fail_closed_def)
  next
    case (unconfigured listen w1 e w2)
    with assms(2) new_tun_fwd [OF unconfigured(2)] configure_fwd [OF unconfigured(3)] show ?thesis by (simp add: fail_closed_def)
  next
    case (unopened listen w1 w2 e)
    with opened [OF unopened(2,3), of _ "Some e" "fst st'" "snd st'"] show ?thesis by simp
  next
    case (unset listen w1 w2 d3 w3 e w4)
    have "fail_closed fwd (d3, w4)" by (rule fail_closed_blocked [OF opened [OF unset(2-4)]]) (simp_all add: setup_keeps [OF unset(5)])
    with unset show ?thesis by simp
  next
    case (up listen w1 w2 d3 w3 w4 w5 r5)
    have "fail_closed fwd (d3, w4)" by (rule fail_closed_blocked [OF opened [OF up(2-4)]]) (simp_all add: setup_keeps [OF up(5)])
    with up bring_up_fwd [OF up(6)] show ?thesis by (simp add: fail_closed_def)
  qed (use assms(2) in simp)
qed

text \<open>After \<open>stop\<close> nothing is forwarded, unless both attempts at the dataplane's teardown failed.\<close>

lemma stop_blocks:
  assumes "stop host (d, w) = st'"
    and "fst (dp_teardown (hs_dp host) w) = None \<or>
         fst (dp_teardown (hs_dp host)
           (if d_down d then hs_close host DownstreamInterface (snd (dp_teardown (hs_dp host) w))
            else snd (dp_teardown (hs_dp host) w))) = None"
  shows "fwd (snd st') a = None"
proof -
  obtain r w1 where t: "dp_teardown (hs_dp host) w = (r, w1)" by (cases "dp_teardown (hs_dp host) w") blast
  let ?w2 = "if d_down d then hs_close host DownstreamInterface w1 else w1"
  have w2: "fwd ?w2 = fwd w1" by (simp add: close_fwd)
  show ?thesis
  proof (cases r)
    case None
    with teardown_clears [of w w1 a] t w2 assms(1) show ?thesis
      by (auto simp: stop_def close_all_fwd split: if_split_asm)
  next
    case (Some e)
    obtain r' w3 where t': "dp_teardown (hs_dp host) ?w2 = (r', w3)" by (cases "dp_teardown (hs_dp host) ?w2") blast
    with assms(2) t Some have "r' = None" by (simp split: if_split_asm)
    then have "fwd w3 a = None" using teardown_clears t' by blast
    with assms(1) t t' Some show ?thesis by (auto simp: stop_def close_all_fwd Let_def)
  qed
qed

end

end
