(* ===== verification/Daemon_Runs.thy ===== *)
theory Daemon_Runs
  imports Daemon_Safety Dataplane_Fake
begin

text \<open>
  Runs of the daemon: \<open>daemon_step\<close> interleaves the operations that take the mutex (the end of a probe, also of an upstream a
  reload has replaced since, \<open>Reconcile\<close>, \<open>Reload\<close>) with changes of the world by others, and the invariants of
  every state a run reaches. The theory ends with the interpretation on a world made of the in-memory dataplane and the store.
\<close>

section \<open>Reload keeps the invariants\<close>

definition intact :: "string set \<Rightarrow> 'e daemon \<Rightarrow> bool" where
  "intact names d \<longleftrightarrow> accounted d \<and> live_in names d"

lemma live_in_mono: "live_in names d \<Longrightarrow> names \<subseteq> names' \<Longrightarrow> live_in names' d"
  by (auto simp: live_in_def)

lemma intact_mono: "intact names d \<Longrightarrow> names \<subseteq> names' \<Longrightarrow> intact names' d"
  using live_in_mono by (auto simp: intact_def)

lemma live_in_frame [simp]:
  "live_in N (d\<lparr>d_ups := us\<rparr>) = live_in N d" "live_in N (d\<lparr>d_cfg := c\<rparr>) = live_in N d"
  "live_in N (d\<lparr>d_wake := b\<rparr>) = live_in N d" "live_in N (d\<lparr>d_reloads := r\<rparr>) = live_in N d"
  "live_in N (d\<lparr>d_probes := ps\<rparr>) = live_in N d" "live_in N (d\<lparr>d_aliveFailed := f\<rparr>) = live_in N d"
  "live_in N (d\<lparr>d_down := b\<rparr>) = live_in N d"
  by (simp_all add: live_in_def)

lemma accounted_frame [simp]:
  "accounted (d\<lparr>d_ups := us\<rparr>) = accounted d" "accounted (d\<lparr>d_cfg := c\<rparr>) = accounted d"
  "accounted (d\<lparr>d_wake := b\<rparr>) = accounted d" "accounted (d\<lparr>d_reloads := r\<rparr>) = accounted d"
  "accounted (d\<lparr>d_probes := ps\<rparr>) = accounted d" "accounted (d\<lparr>d_aliveFailed := f\<rparr>) = accounted d"
  "accounted (d\<lparr>d_down := b\<rparr>) = accounted d"
  by (simp_all add: accounted_def device_addrs_def)

lemma intact_frame [simp]:
  "intact N (d\<lparr>d_ups := us\<rparr>) = intact N d" "intact N (d\<lparr>d_cfg := c\<rparr>) = intact N d"
  "intact N (d\<lparr>d_wake := b\<rparr>) = intact N d" "intact N (d\<lparr>d_reloads := r\<rparr>) = intact N d"
  "intact N (d\<lparr>d_probes := ps\<rparr>) = intact N d" "intact N (d\<lparr>d_aliveFailed := f\<rparr>) = intact N d"
  "intact N (d\<lparr>d_down := b\<rparr>) = intact N d"
  by (simp_all add: intact_def)

lemma apply_alive_intact: "apply_alive host u st = (es, st') \<Longrightarrow> intact N (fst st') = intact N (fst st)"
  by (auto simp: apply_alive_def split: prod.splits option.splits)

lemma apply_alive_ups: "apply_alive host u st = (es, st') \<Longrightarrow>
    d_ups (fst st') = d_ups (fst st) \<and> d_cfg (fst st') = d_cfg (fst st) \<and> d_devicePeers (fst st') = d_devicePeers (fst st)"
  by (auto simp: apply_alive_def split: prod.splits option.splits)

text \<open>After \<open>unroute_named\<close> nothing is assigned to the name unless its cleanup is pending.\<close>

lemma unroute_settles:
  assumes "unroute host ip st = (es, st')" and "map_of (d_assignments (fst st')) ip = Some n"
  shows "mget (d_unroutePending (fst st')) ip False"
proof -
  obtain d w d' w' where st: "st = (d, w)" "st' = (d', w')" by (cases st; cases st') blast
  from assms(1) [unfolded st] show ?thesis by (cases rule: unroute_cases) (use assms(2) st in auto)
qed

lemma unroute_assignments:
  assumes "unroute host ip st = (es, st')" and "map_of (d_assignments (fst st')) a = Some n"
  shows "map_of (d_assignments (fst st)) a = Some n"
proof -
  obtain d w d' w' where st: "st = (d, w)" "st' = (d', w')" by (cases st; cases st') blast
  from assms(1) [unfolded st] show ?thesis
    by (cases rule: unroute_cases) (use assms(2) st in \<open>auto split: if_split_asm\<close>)
qed

lemma unroute_named_inv:
  assumes "accounted (fst st)" and "\<forall>(ip, n) \<in> set l. ip \<in> device_addrs (fst st)"
  shows "accounted (fst (unroute_named host name l st)) \<and>
    d_ups (fst (unroute_named host name l st)) = d_ups (fst st) \<and> d_cfg (fst (unroute_named host name l st)) = d_cfg (fst st) \<and>
    d_devicePeers (fst (unroute_named host name l st)) = d_devicePeers (fst st)"
  using assms
proof (induction l arbitrary: st)
  case (Cons e l)
  obtain ip n where e: "e = (ip, n)" by (cases e) blast
  obtain es st1 where u: "unroute host ip st = (es, st1)" by (cases "unroute host ip st") blast
  have ip: "ip \<in> device_addrs (fst st)" and rest: "\<forall>(ip, n) \<in> set l. ip \<in> device_addrs (fst st)" using Cons.prems(2) e by auto
  have st1: "accounted (fst st1)" by (rule unroute_accounted [OF u Cons.prems(1) ip])
  have fr: "d_devicePeers (fst st1) = d_devicePeers (fst st)" "d_ups (fst st1) = d_ups (fst st)" "d_cfg (fst st1) = d_cfg (fst st)"
    using unroute_frame [OF u] by simp_all
  then have "\<forall>(ip, n) \<in> set l. ip \<in> device_addrs (fst st1)" using rest by (simp add: device_addrs_def)
  from Cons.IH [OF st1 this] Cons.IH [OF Cons.prems(1) rest] show ?case by (simp add: e u fr)
qed simp

lemma unroute_named_live:
  assumes "live_in (insert name N) (fst st)"
    and "\<And>a. map_of (d_assignments (fst st)) a = Some name \<Longrightarrow> (a, name) \<in> set l \<or> mget (d_unroutePending (fst st)) a False"
  shows "live_in N (fst (unroute_named host name l st))"
  using assms
proof (induction l arbitrary: st)
  case Nil
  then show ?case by (force simp: live_in_def)
next
  case (Cons e l)
  obtain ip n where e: "e = (ip, n)" by (cases e) blast
  show ?case
  proof (cases "n = name")
    case False
    with Cons e show ?thesis by auto
  next
    case True
    obtain es st1 where u: "unroute host ip st = (es, st1)" by (cases "unroute host ip st") blast
    have live: "live_in (insert name N) (fst st1)" by (rule unroute_live_in [OF u Cons.prems(1)])
    have "(a, name) \<in> set l \<or> mget (d_unroutePending (fst st1)) a False"
      if a: "map_of (d_assignments (fst st1)) a = Some name" for a
    proof (cases "a = ip")
      case True
      with a unroute_settles [OF u] show ?thesis by blast
    next
      case False
      have "(a, name) \<in> set (e # l) \<or> mget (d_unroutePending (fst st)) a False"
        using Cons.prems(2) unroute_assignments [OF u a] by blast
      moreover have "mget (d_unroutePending (fst st1)) a False = mget (d_unroutePending (fst st)) a False"
        using u False by (cases st; cases st1) (auto elim!: unroute_cases)
      ultimately show ?thesis using False e by auto
    qed
    from Cons.IH [OF live this] show ?thesis by (simp add: e True u)
  qed
qed

lemma assigned_addrs: "accounted d \<Longrightarrow> \<forall>(ip, n) \<in> set (d_assignments d). ip \<in> device_addrs d"
proof (clarify)
  fix a b assume acc: "accounted d" and "(a, b) \<in> set (d_assignments d)"
  then have "map_of (d_assignments d) a \<noteq> None" by (metis map_of_eq_None_iff fst_conv image_eqI)
  with acc show "a \<in> device_addrs d" by (auto simp: accounted_def tracked_def)
qed

lemma dropUpstream_intact:
  assumes "intact (insert (up_name u) N) (fst st)"
  shows "intact N (fst (dropUpstream host u st)) \<and> d_devicePeers (fst (dropUpstream host u st)) = d_devicePeers (fst st)"
proof -
  have acc: "accounted (fst st)" and live: "live_in (insert (up_name u) N) (fst st)" using assms by (auto simp: intact_def)
  have m: "(a, up_name u) \<in> set (d_assignments (fst st)) \<or> mget (d_unroutePending (fst st)) a False"
    if "map_of (d_assignments (fst st)) a = Some (up_name u)" for a using that map_of_SomeD by force
  note unroute_named_inv [OF acc assigned_addrs [OF acc], of host "up_name u"] unroute_named_live [OF live m, of host]
  then show ?thesis by (cases "unroute_named host (up_name u) (d_assignments (fst st)) st") (simp add: dropUpstream_def intact_def)
qed

definition named_map :: "(string \<times> upstream) list \<Rightarrow> bool" where
  "named_map m \<longleftrightarrow> (\<forall>(n, u) \<in> set m. up_name u = n)"

lemma named_mapD: "named_map m \<Longrightarrow> map_of m n = Some u \<Longrightarrow> up_name u = n"
  using map_of_SomeD by (fastforce simp: named_map_def)

lemma named_map_mdel: "named_map m \<Longrightarrow> named_map (mdel n m)"
  by (auto simp: named_map_def AList.delete_eq)

lemma by_name_map: "named_map (by_name us) \<and> keys (by_name us) = up_name ` set us"
proof (induction us rule: rev_induct)
  case Nil
  show ?case by (simp add: named_map_def)
next
  case (snoc u us)
  have "named_map (mput (up_name u) u m)" if "named_map m" for m :: "(string \<times> upstream) list"
    using that by (induction m) (auto simp: named_map_def)
  with snoc show ?case by (simp add: keys_mput)
qed

lemma reload_loop_intact:
  assumes "reload_loop host h us current acc errs st = (left, ups, errs', st')"
    and "named_map current" and "intact (keys current \<union> up_name ` set acc) (fst st)"
  shows "named_map left \<and> intact (keys left \<union> up_name ` set ups) (fst st') \<and> d_devicePeers (fst st') = d_devicePeers (fst st)"
  using assms
proof (induction us arbitrary: current acc errs st)
  case (Cons u us)
  let ?n = "u_name u"
  let ?m = "mdel ?n current"
  have nm: "named_map ?m" using Cons.prems(2) by (rule named_map_mdel)
  show ?case
  proof (cases "\<exists>o'. map_of current ?n = Some o' \<and> up_source o' = fileContent (hs_read_file host (snd st)) (u_conf u)")
    case True
    then obtain o' where o': "map_of current ?n = Some o'" "up_source o' = fileContent (hs_read_file host (snd st)) (u_conf u)" by blast
    let ?o = "o'\<lparr>up_cfg := u, up_tracker := set_thresholds (h_downAfter h) (h_upAfter h) (up_tracker o')\<rparr>"
    have "intact (keys ?m \<union> up_name ` set (acc @ [?o])) (fst st)"
      by (rule intact_mono [OF Cons.prems(3)]) auto
    with Cons.IH [of ?m "acc @ [?o]" errs st] Cons.prems(1) nm o' show ?thesis by (simp add: Let_def)
  next
    case False
    let ?st1 = "case map_of current ?n of None \<Rightarrow> st | Some o' \<Rightarrow> dropUpstream host o' st"
    obtain r w where op: "open_upstream host u h (snd ?st1) = (r, w)" by (cases "open_upstream host u h (snd ?st1)") blast
    have st1: "intact (keys ?m \<union> up_name ` set acc) (fst ?st1) \<and> d_devicePeers (fst ?st1) = d_devicePeers (fst st)"
    proof (cases "map_of current ?n")
      case None
      then have "?n \<notin> keys current" by (simp add: map_of_eq_None_iff)
      with None Cons.prems(3) show ?thesis by (simp add: keys_mdel)
    next
      case (Some o')
      with named_mapD [OF Cons.prems(2)] have "up_name o' = ?n" by simp
      then have "intact (insert (up_name o') (keys ?m \<union> up_name ` set acc)) (fst st)"
        by (intro intact_mono [OF Cons.prems(3)]) (auto simp: keys_mdel)
      with Some dropUpstream_intact show ?thesis by simp
    qed
    have ne: "(case map_of current ?n of None \<Rightarrow> None
                | Some o' \<Rightarrow> if up_source o' = fileContent (hs_read_file host (snd st)) (u_conf u) then Some o' else None) = None"
      using False by (auto split: option.split)
    have eq: "reload_loop host h (u # us) current acc errs st =
        (case r of Inl e \<Rightarrow> reload_loop host h us ?m acc (errs @ [e]) (fst ?st1, w)
         | Inr up \<Rightarrow> reload_loop host h us ?m (acc @ [up]) errs (fst ?st1, w))"
      by (simp only: reload_loop.simps Let_def ne op option.case prod.case)
    show ?thesis
    proof (cases r)
      case (Inl e)
      with Cons.IH [of ?m acc "errs @ [e]" "(fst ?st1, w)"] Cons.prems(1) eq nm st1 show ?thesis by simp
    next
      case (Inr up)
      have "intact (keys ?m \<union> up_name ` set (acc @ [up])) (fst ?st1)" using st1 by (auto intro: intact_mono)
      with Inr Cons.IH [of ?m "acc @ [up]" errs "(fst ?st1, w)"] Cons.prems(1) eq nm st1 show ?thesis by simp
    qed
  qed
qed simp

lemma drop_all_intact:
  assumes "named_map l" and "intact (keys l \<union> N) (fst st)"
  shows "intact N (fst (drop_all host l st)) \<and> d_devicePeers (fst (drop_all host l st)) = d_devicePeers (fst st)"
  using assms
proof (induction l arbitrary: st)
  case (Cons e l)
  obtain n u where e: "e = (n, u)" by (cases e) blast
  with Cons.prems(1) have n: "up_name u = n" "named_map l" by (auto simp: named_map_def)
  then have "intact (insert (up_name u) (keys l \<union> N)) (fst st)" using Cons.prems(2) e by simp
  then have d: "intact (keys l \<union> N) (fst (dropUpstream host u st)) \<and> d_devicePeers (fst (dropUpstream host u st)) = d_devicePeers (fst st)"
    by (rule dropUpstream_intact)
  with Cons.IH [OF n(2), of "dropUpstream host u st"] show ?case by (simp add: e)
qed simp

lemma revive_intact:
  "revive host us st = (es, st') \<Longrightarrow>
   intact N (fst st') = intact N (fst st) \<and> d_ups (fst st') = d_ups (fst st) \<and> d_cfg (fst st') = d_cfg (fst st) \<and>
   d_devicePeers (fst st') = d_devicePeers (fst st)"
proof (induction us arbitrary: st es)
  case (Cons u us)
  obtain r w1 where up: "hs_up host (device_name u) (snd st) = (r, w1)" by (cases "hs_up host (device_name u) (snd st)") blast
  obtain e1 st1 where al: "apply_alive host u (fst st, w1) = (e1, st1)" by (cases "apply_alive host u (fst st, w1)") blast
  obtain e2 where rv: "revive host us st1 = (e2, st')" using Cons.prems up al by (auto simp: Let_def split: prod.splits)
  from Cons.IH [OF rv] apply_alive_intact [OF al, of N] apply_alive_ups [OF al] show ?case by simp
qed simp

lemma intact_live: "intact (up_name ` set (d_ups d)) d \<longleftrightarrow> accounted d \<and> assigned_live d"
  by (simp add: intact_def assigned_live_def)

lemma reload_inv:
  assumes eq: "reload host cfg (d, w) = (es, st')" and "accounted d" and "assigned_live d"
  shows "accounted (fst st') \<and> assigned_live (fst st') \<and> d_devicePeers (fst st') = d_devicePeers d"
proof -
  have loop: "intact (up_name ` set ups) d2 \<and> d_devicePeers d2 = d_devicePeers d"
    if "reload_loop host (cf_health cfg) (cf_upstreams cfg) (by_name (d_ups d)) [] [] (d, w) = (left, ups, errs, st1)"
      and "drop_all host left st1 = (d2, w2)" for left ups errs st1 d2 w2
  proof -
    have "intact (keys (by_name (d_ups d)) \<union> up_name ` set []) (fst (d, w))"
      using assms(2,3) by (simp add: by_name_map intact_def assigned_live_def)
    from reload_loop_intact [OF that(1) conjunct1 [OF by_name_map] this]
    show ?thesis using drop_all_intact [where l = left and N = "up_name ` set ups" and st = st1 and host = host] that(2) by simp
  qed
  from eq show ?thesis
  proof (cases rule: reload_cases)
    case rejected
    with assms show ?thesis by (simp add: assigned_live_def)
  next
    case (failed left ups errs st1 d2 w2 e w3)
    with loop [OF failed(2,3)] show ?thesis by (simp add: intact_def assigned_live_def)
  next
    case (applied left ups errs st1 d2 w2 w3 e4 d4 w4)
    have "intact (up_name ` set ups) d4" "d_ups d4 = ups" "d_devicePeers d4 = d_devicePeers d"
      using loop [OF applied(2,3)] revive_intact [OF applied(5), of "up_name ` set ups"] by simp_all
    with applied(7) show ?thesis by (simp add: intact_def assigned_live_def)
  qed
qed

section \<open>Probes keep the invariants\<close>

lemma countProbe_intact [simp]: "intact N (countProbe n ok d) = intact N d"
  by (simp add: countProbe_def split: prod.splits)

lemma countProbe_frame [simp]:
  "d_ups (countProbe n ok d) = d_ups d" "d_cfg (countProbe n ok d) = d_cfg d" "d_devicePeers (countProbe n ok d) = d_devicePeers d"
  by (simp_all add: countProbe_def split: prod.splits)

lemma probe_observed_intact:
  assumes "probe_observed host r u st = (u', st')"
  shows "intact N (fst st') = intact N (fst st) \<and> d_ups (fst st') = d_ups (fst st) \<and> d_cfg (fst st') = d_cfg (fst st) \<and>
    d_devicePeers (fst st') = d_devicePeers (fst st) \<and> up_cfg u' = up_cfg u"
proof -
  have al: "intact N (fst (snd (apply_alive host v (countProbe n ok (fst st), snd st)))) = intact N (fst st) \<and>
        d_ups (fst (snd (apply_alive host v (countProbe n ok (fst st), snd st)))) = d_ups (fst st) \<and>
        d_cfg (fst (snd (apply_alive host v (countProbe n ok (fst st), snd st)))) = d_cfg (fst st) \<and>
        d_devicePeers (fst (snd (apply_alive host v (countProbe n ok (fst st), snd st)))) = d_devicePeers (fst st)" for v n ok
    using apply_alive_intact [OF prod.collapse [symmetric], where host = host and u = v and st = "(countProbe n ok (fst st), snd st)" and N = N]
      apply_alive_ups [OF prod.collapse [symmetric], where host = host and u = v and st = "(countProbe n ok (fst st), snd st)"] by simp
  show ?thesis using assms al by (auto simp: probe_observed_def Let_def split: prod.splits if_split_asm)
qed

lemma refresh_cfg:
  "refresh_endpoint lookup configure u w = (u', r, w') \<Longrightarrow> up_cfg u' = up_cfg u"
  by (auto simp: refresh_endpoint_def split: if_split_asm sum.split_asm list.split_asm option.split_asm prod.split_asm)

lemma probe_result_intact:
  assumes "probe_result host r u st = (u', st')"
  shows "intact N (fst st') = intact N (fst st) \<and> d_ups (fst st') = d_ups (fst st) \<and> d_cfg (fst st') = d_cfg (fst st) \<and>
    d_devicePeers (fst st') = d_devicePeers (fst st) \<and> up_cfg u' = up_cfg u"
proof -
  obtain u1 d1 w1 where ob: "probe_observed host r u st = (u1, (d1, w1))" by (metis prod_cases3)
  obtain u2 q w2 where rf: "refresh_endpoint (hs_lookup host w1) (hs_configure host (device_name u1)) u1 w1 = (u2, q, w2)"
    by (metis prod_cases3)
  have "(u', st') = (u1, (d1, w1)) \<or> (u', st') = (u2, (d1, w2))"
    using assms ob rf by (auto simp: probe_result_def split: if_split_asm)
  with probe_observed_intact [OF ob, of N] refresh_cfg [OF rf] show ?thesis by auto
qed

lemma probe_upstream_inv:
  assumes "accounted (fst st)" and "assigned_live (fst st)" and "i < length (d_ups (fst st))"
  shows "accounted (fst (probe_upstream host r i st)) \<and> assigned_live (fst (probe_upstream host r i st)) \<and>
    d_devicePeers (fst (probe_upstream host r i st)) = d_devicePeers (fst st)"
proof -
  let ?us = "d_ups (fst st)"
  obtain u d w where p: "probe_result host r (?us ! i) st = (u, (d, w))" by (metis prod_cases3)
  note pr = probe_result_intact [OF p, of "up_name ` set ?us"]
  have "map up_name (?us[i := u]) = map up_name ?us"
    using pr assms(3) by (simp add: map_update list_update_same_conv)
  then have "up_name ` set (?us[i := u]) = up_name ` set ?us" by (metis list.set_map)
  moreover have "intact (up_name ` set ?us) d" using pr assms(1,2) by (simp add: intact_def assigned_live_def)
  ultimately show ?thesis using pr by (simp add: probe_upstream_def p intact_def assigned_live_def)
qed

section \<open>Runs\<close>

inductive daemon_step :: "('w, 'e) host \<Rightarrow> ('w \<Rightarrow> addr \<Rightarrow> string option) \<Rightarrow> ('w, 'e) dstate \<Rightarrow> ('w, 'e) dstate \<Rightarrow> bool"
  for host fwd where
  Probed: "i < length (d_ups (fst st)) \<Longrightarrow> daemon_step host fwd st (probe_upstream host r i st)"
| Late: "probe_result host r u st = (u', st') \<Longrightarrow> daemon_step host fwd st st'"
| Reconciled: "(\<And>ps. hs_list_peers host (snd st) = Inr ps \<Longrightarrow> keys_stable (fst st) ps \<and> distinct (map sp_public ps)) \<Longrightarrow>
    reconcile host st = (es, st') \<Longrightarrow> daemon_step host fwd st st'"
| Reloaded: "reload host cfg (d, w) = (es, st') \<Longrightarrow> daemon_step host fwd (d, w) st'"
| World: "fwd w' = fwd w \<Longrightarrow> daemon_step host fwd (d, w) (d, w')"

inductive_cases daemon_stepE: "daemon_step host fwd st st'"

definition daemon_ok :: "('w \<Rightarrow> addr \<Rightarrow> string option) \<Rightarrow> ('w, 'e) dstate \<Rightarrow> bool" where
  "daemon_ok fwd st \<longleftrightarrow> fail_closed fwd st \<and> accounted (fst st) \<and> assigned_live (fst st)"

lemma daemon_okI: "fail_closed fwd st \<Longrightarrow> accounted (fst st) \<Longrightarrow> assigned_live (fst st) \<Longrightarrow> daemon_ok fwd st"
  by (simp add: daemon_ok_def)

text \<open>What an address that is forwarded stands for: a peer on the device, assigned to an upstream in service or waiting for cleanup.\<close>

lemma daemon_okD:
  assumes "daemon_ok fwd st" and "fwd (snd st) a = Some i"
  shows "(\<exists>(k, p) \<in> set (d_devicePeers (fst st)). sp_ip p = a) \<and>
    (mget (d_unroutePending (fst st)) a False \<or>
     (\<exists>u \<in> set (d_ups (fst st)). map_of (d_assignments (fst st)) a = Some (up_name u)))"
proof -
  have "a \<in> tracked (fst st)" using assms by (auto simp: daemon_ok_def fail_closed_def)
  moreover from this assms(1) have "a \<in> device_addrs (fst st)" by (auto simp: daemon_ok_def accounted_def)
  ultimately show ?thesis using assms(1)
    by (force simp: daemon_ok_def tracked_def device_addrs_def assigned_live_def live_in_def)
qed

context daemon_calls
begin

lemma daemon_step_ok:
  assumes "daemon_step host fwd st st'" and ok: "daemon_ok fwd st"
  shows "daemon_ok fwd st'"
  using assms(1)
proof (cases rule: daemon_step.cases)
  case (Probed i r)
  with ok probe_upstream_inv [of st i host r] show ?thesis by (simp add: daemon_ok_def probe_upstream_closed)
next
  case (Late r u u')
  note pr = probe_result_intact [OF Late, of "up_name ` set (d_ups (fst st))"]
  have "fail_closed fwd st'" using ok by (intro probe_result_closed [OF Late]) (simp add: daemon_ok_def)
  with pr ok show ?thesis by (simp add: daemon_ok_def intact_def assigned_live_def)
next
  case (Reconciled es)
  have "fail_closed fwd st'" using ok by (intro reconcile_closed [OF Reconciled(2)]) (simp add: daemon_ok_def)
  with reconcile_inv [OF Reconciled(2)] Reconciled(1) ok show ?thesis by (simp add: daemon_ok_def)
next
  case (Reloaded cfg d w es)
  with ok reload_closed [OF Reloaded(2)] reload_inv [OF Reloaded(2)] show ?thesis by (simp add: daemon_ok_def)
next
  case (World w' w d)
  with ok show ?thesis by (simp add: daemon_ok_def fail_closed_def)
qed

lemma open_all_frame:
  "open_all host us st = (r, st') \<Longrightarrow> \<exists>ups. fst st' = (fst st)\<lparr>d_ups := d_ups (fst st) @ ups\<rparr>"
proof (induction us arbitrary: st)
  case Nil
  then show ?case by (auto intro: exI [of _ "[]"])
next
  case (Cons u us)
  obtain q w where op: "open_upstream host u (cf_health (d_cfg (fst st))) (snd st) = (q, w)"
    by (cases "open_upstream host u (cf_health (d_cfg (fst st))) (snd st)") blast
  show ?case
  proof (cases q)
    case (Inl e)
    with Cons.prems op show ?thesis by (auto intro: exI [of _ "[]"])
  next
    case (Inr up)
    with Cons.prems op Cons.IH [of "((fst st)\<lparr>d_ups := d_ups (fst st) @ [up]\<rparr>, w)"] show ?thesis by auto
  qed
qed

lemma start_frame:
  assumes eq: "start host (d, w) = (r, st')"
  shows "\<exists>b ups. fst st' = d\<lparr>d_down := b, d_ups := ups\<rparr>"
proof -
  have oa: "\<exists>b ups. d3 = d\<lparr>d_down := b, d_ups := ups\<rparr>"
    if "open_all host us (d\<lparr>d_down := True\<rparr>, w2) = (q, (d3, w3))" for us w2 q d3 w3
    using open_all_frame [OF that] by auto
  have same: "\<exists>b ups. d = d\<lparr>d_down := b, d_ups := ups\<rparr>" by (intro exI [of _ "d_down d"] exI [of _ "d_ups d"]) simp
  have up: "\<exists>b ups. d\<lparr>d_down := True\<rparr> = d\<lparr>d_down := b, d_ups := ups\<rparr>" by (intro exI [of _ True] exI [of _ "d_ups d"]) simp
  from eq show ?thesis
  proof (cases rule: start_cases)
    case (unopened listen w1 w2 e)
    with oa [of _ w2 "Some e" "fst st'" "snd st'"] show ?thesis by simp
  next
    case (unset listen w1 w2 d3 w3 e w4)
    with oa [OF unset(4)] show ?thesis by simp
  next
    case (up listen w1 w2 d3 w3 w4 w5 r5)
    with oa [OF up(4)] show ?thesis by simp
  qed (use same up in simp_all)
qed

lemma fresh_ok:
  assumes "start host (new_daemon cfg idn, w) = (r, st)" and "fail_closed fwd st"
  shows "daemon_ok fwd st"
proof -
  obtain b ups where st: "fst st = (new_daemon cfg idn)\<lparr>d_down := b, d_ups := ups\<rparr>" using start_frame [OF assms(1)] by blast
  show ?thesis
    by (rule daemon_okI [OF assms(2)])
      (simp_all add: st new_daemon_def accounted_def assigned_live_def live_in_def tracked_def mget_def)
qed

lemma steps_ok: "(daemon_step host fwd)\<^sup>*\<^sup>* st0 st \<Longrightarrow> daemon_ok fwd st0 \<Longrightarrow> daemon_ok fwd st"
  by (induction rule: rtranclp_induct) (use daemon_step_ok in blast)+

end

context daemon_host
begin

lemma daemon_run_ok:
  assumes "start host (new_daemon cfg idn, w) = (r, st0)" and "\<And>a. fwd w a = None" and "(daemon_step host fwd)\<^sup>*\<^sup>* st0 st"
  shows "daemon_ok fwd st"
proof (rule steps_ok [OF assms(3) fresh_ok [OF assms(1)]])
  show "fail_closed fwd st0" by (rule start_closed [OF assms(1)]) (simp add: fail_closed_def assms(2))
qed

end

end
