(* ===== verification/Daemon_World.thy ===== *)
theory Daemon_World
  imports Daemon_Runs
begin

text \<open>
  The daemon over a whole world: the in-memory dataplane, the store's database, the files, the resolver and the AmneziaWG devices. The
  devices are third-party; they are the operations \<open>dv\<close> on a device state of any type. The world keeps the
  contract the invariants of the daemon rest on, so they hold of every run.
\<close>

record ('v, 'x) device_ops =
  dv_new_tun :: "string \<Rightarrow> int \<Rightarrow> 'v \<Rightarrow> 'x option \<times> 'v"
  dv_configure :: "string \<Rightarrow> string \<Rightarrow> 'v \<Rightarrow> 'x option \<times> 'v"
  dv_up :: "string \<Rightarrow> 'v \<Rightarrow> 'x option \<times> 'v"
  dv_close :: "string \<Rightarrow> 'v \<Rightarrow> 'v"

record 'v world =
  wd_dp :: fake_dp
  wd_dev :: 'v
  wd_db :: store_db
  wd_files :: "string \<Rightarrow> string option"
  wd_dns :: "string \<Rightarrow> addr list option"

definition on_dp :: "(fake_dp \<Rightarrow> fake_error option \<times> fake_dp) \<Rightarrow> 'v world \<Rightarrow> (fake_error + 'x) option \<times> 'v world" where
  "on_dp f w = (let (r, dp) = f (wd_dp w) in (map_option Inl r, w\<lparr>wd_dp := dp\<rparr>))"

definition on_dev :: "('v \<Rightarrow> 'x option \<times> 'v) \<Rightarrow> 'v world \<Rightarrow> (fake_error + 'x) option \<times> 'v world" where
  "on_dev f w = (let (r, v) = f (wd_dev w) in (map_option Inr r, w\<lparr>wd_dev := v\<rparr>))"

definition world_dp :: "('v world, fake_error + 'x) dataplane" where
  "world_dp = \<lparr>dp_setup = \<lambda>down ups m. on_dp (dp_setup fake_ops down ups m),
     dp_set_upstreams = \<lambda>ups m. on_dp (dp_set_upstreams fake_ops ups m),
     dp_route = \<lambda>ip i. on_dp (dp_route fake_ops ip i), dp_unroute = \<lambda>ip. on_dp (dp_unroute fake_ops ip),
     dp_set_alive = \<lambda>i b. on_dp (dp_set_alive fake_ops i b), dp_teardown = on_dp (dp_teardown fake_ops)\<rparr>"

definition world_host :: "('v, 'x) device_ops \<Rightarrow> ('v world, fake_error + 'x) host" where
  "world_host dv = \<lparr>hs_dp = world_dp, hs_new_tun = \<lambda>n m. on_dev (dv_new_tun dv n m),
     hs_configure = \<lambda>n t. on_dev (dv_configure dv n t), hs_up = \<lambda>n. on_dev (dv_up dv n),
     hs_close = \<lambda>n w. w\<lparr>wd_dev := dv_close dv n (wd_dev w)\<rparr>, hs_list_peers = \<lambda>w. list_peers (wd_db w),
     hs_read_file = wd_files, hs_lookup = wd_dns\<rparr>"

definition world_fwd :: "'v world \<Rightarrow> addr \<Rightarrow> string option" where
  "world_fwd w = fake_fwd (wd_dp w)"

lemma on_dev_fwd: "on_dev f w = (r, w') \<Longrightarrow> world_fwd w' = world_fwd w"
  by (auto simp: on_dev_def world_fwd_def split: prod.splits)

lemma on_dp_None: "on_dp f w = (None, w') \<Longrightarrow> f (wd_dp w) = (None, wd_dp w')"
  and on_dp_Some: "on_dp f w = (Some e, w') \<Longrightarrow> \<exists>e'. f (wd_dp w) = (Some e', wd_dp w')"
  and on_dp_any: "on_dp f w = (r, w') \<Longrightarrow> \<exists>r'. f (wd_dp w) = (r', wd_dp w')"
  by (auto simp: on_dp_def split: prod.splits)

lemma world_dp_ops:
  "dp_route (hs_dp (world_host dv)) ip i = on_dp (dp_route fake_ops ip i)"
  "dp_unroute (hs_dp (world_host dv)) ip = on_dp (dp_unroute fake_ops ip)"
  "dp_set_alive (hs_dp (world_host dv)) i b = on_dp (dp_set_alive fake_ops i b)"
  "dp_setup (hs_dp (world_host dv)) down ups m = on_dp (dp_setup fake_ops down ups m)"
  "dp_set_upstreams (hs_dp (world_host dv)) ups m = on_dp (dp_set_upstreams fake_ops ups m)"
  "dp_teardown (hs_dp (world_host dv)) = on_dp (dp_teardown fake_ops)"
  by (simp_all add: world_host_def world_dp_def)

interpretation world: daemon_host "world_host dv" world_fwd for dv
proof (unfold_locales, unfold world_dp_ops world_fwd_def)
  fix ip w w' b show "on_dp (dp_unroute fake_ops ip) w = (None, w') \<Longrightarrow> fake_fwd (wd_dp w') ip = None"
    by (drule on_dp_None) (simp add: fake.unroute_ok)
next
  fix ip i w e w' show "on_dp (dp_route fake_ops ip i) w = (Some e, w') \<Longrightarrow> fake_fwd (wd_dp w) ip = None \<Longrightarrow> fake_fwd (wd_dp w') ip = None"
    by (drule on_dp_Some) (blast dest: fake.route_blocked)
next
  fix w w' a show "on_dp (dp_teardown fake_ops) w = (None, w') \<Longrightarrow> fake_fwd (wd_dp w') a = None"
    by (drule on_dp_None) (rule fake.teardown_ok)
qed (auto simp: world_host_def on_dev_def split: prod.splits
    dest!: on_dp_any dest: fake.route_keeps fake.unroute_keeps fake.set_alive_keeps
      fake.setup_keeps fake.set_upstreams_keeps fake.teardown_keeps)

section \<open>A run\<close>

text \<open>One upstream, one profile that matches everything, one peer; devices that never fail.\<close>

abbreviation run_devices :: "(unit, unit) device_ops" where
  "run_devices \<equiv> \<lparr>dv_new_tun = \<lambda>_ _ v. (None, v), dv_configure = \<lambda>_ _ v. (None, v), dv_up = \<lambda>_ v. (None, v),
     dv_close = \<lambda>_ v. v\<rparr>"

definition run_upstream :: cfg_upstream where
  "run_upstream = \<lparr>u_name = ''de1'', u_conf = ''de1.conf'', u_geo = ''de'', u_provider = []\<rparr>"

definition run_settings :: config where
  "run_settings = sample_settings\<lparr>cf_upstreams := [run_upstream],
     cf_profiles := [\<lparr>pr_name = ''main'', pr_prefer = []\<rparr>]\<rparr>"

definition run_world :: "store_db \<Rightarrow> unit world" where
  "run_world db = \<lparr>wd_dp = fake_new, wd_dev = (), wd_db = db, wd_files = \<lambda>_. Some (config_string sample_config),
     wd_dns = \<lambda>_. Some [V4 1]\<rparr>"

lemma run_load:
  obtains up where "load_upstream (\<lambda>_. Some (config_string sample_config)) (\<lambda>_. Some [V4 1]) run_upstream (cf_health run_settings) = Inr up"
    "up_cfg up = run_upstream"
proof -
  obtain up where up: "load_upstream (\<lambda>_. Some (config_string sample_config)) (\<lambda>_. Some [V4 1]) run_upstream (cf_health run_settings) = Inr up"
    using sample_loads by (auto simp: run_settings_def sample_settings_def run_upstream_def)
  moreover have "up_cfg up = run_upstream" using load_upstream_ok [OF up] by (simp add: upstream_ok_def answers_v4_def)
  ultimately show thesis by (rule that)
qed

lemma run_start:
  assumes "load_upstream (\<lambda>_. Some (config_string sample_config)) (\<lambda>_. Some [V4 1]) run_upstream (cf_health run_settings) = Inr up"
  shows "\<exists>w. start (world_host run_devices) (new_daemon run_settings idn, run_world db) =
      (None, ((new_daemon run_settings idn)\<lparr>d_down := True, d_ups := [up]\<rparr>, w)) \<and>
    wd_db w = db \<and> fk_ups (wd_dp w) = [\<lparr>di_name = device_name up, di_addr = up_addr up\<rparr>] \<and> fk_routes (wd_dp w) = []"
proof -
  have "cf_upstreams run_settings = [run_upstream]" "cf_listen run_settings = ''0.0.0.0:51820''"
    by (simp_all add: run_settings_def sample_settings_def default_config_def)
  with assms show ?thesis
    by (simp add: start_def sample_parts new_daemon_def world_host_def world_dp_def on_dev_def on_dp_def open_upstream_def
        run_world_def fake_ops_def fake_setup_def fake_log_def interfaces_def fake_new_def)
qed

lemma run_probe:
  assumes "d_ups d = [up]" and "t_state (up_tracker up) = Unknown"
  shows "\<exists>u d' w'. probe_upstream (world_host run_devices) (Some 5) 0 (d, w) = (d', w') \<and> d_ups d' = [u] \<and>
    up_cfg u = up_cfg up \<and> t_state (up_tracker u) = Up \<and> d_cfg d' = d_cfg d \<and> d_assignments d' = d_assignments d \<and>
    d_unroutePending d' = d_unroutePending d \<and> d_devicePeers d' = d_devicePeers d \<and>
    wd_db w' = wd_db w \<and> fk_ups (wd_dp w') = fk_ups (wd_dp w) \<and> fk_routes (wd_dp w') = fk_routes (wd_dp w)"
  using assms
  by (simp add: probe_upstream_def probe_result_def probe_observed_def observe_def Let_def countProbe_def apply_alive_def
      world_host_def world_dp_def on_dp_def fake_ops_def fake_set_alive_def split: prod.splits)

lemma run_select:
  assumes "d_ups d = [u]" and "up_cfg u = run_upstream" and "t_state (up_tracker u) = Up"
  shows "select_upstream \<lparr>pr_name = ''main'', pr_prefer = []\<rparr> (candidates d) [] = Some ''de1''"
  using assms by (simp add: select_upstream_def candidates_def collect_def collect_step_def tier_of_def run_upstream_def)

lemma run_reconcile:
  assumes d: "d_ups d = [u]" "up_cfg u = run_upstream" "t_state (up_tracker u) = Up" "d_cfg d = run_settings"
    "d_assignments d = []" "d_unroutePending d = []" "d_devicePeers d = []"
    and w: "list_peers (wd_db w) = Inr [sp]" "sp_profile sp = ''main''" "fk_ups (wd_dp w) = [\<lparr>di_name = device_name u, di_addr = a\<rparr>]"
  shows "\<exists>st'. reconcile (world_host run_devices) (d, w) = ([], st') \<and>
    fake_route_of (sp_ip sp) (wd_dp (snd st')) = Some ''lm-up-de1'' \<and> wd_db (snd st') = wd_db w"
proof -
  have n: "device_name u = ''lm-up-de1''" "up_name u = ''de1''" using d(2) by (simp_all add: device_name_def interface_name_def run_upstream_def)
  have prof: "config_profile run_settings ''main'' = Some \<lparr>pr_name = ''main'', pr_prefer = []\<rparr>"
    by (simp add: run_settings_def config_profile_def)
  have sel: "select_upstream \<lparr>pr_name = ''main'', pr_prefer = []\<rparr> (candidates (d\<lparr>d_devicePeers := m\<rparr>)) [] = Some ''de1''" for m
    by (rule run_select [of _ u]) (use d in simp_all)
  show ?thesis
    using d w n
    by (simp add: reconcile_def world_host_def add_device_peer_def on_dev_def route_peer_def prof mget_def assign_def sel
        world_dp_def on_dp_def fake_ops_def fake_route_def fake_route_of_def)
qed

lemma run_peers:
  obtains sp db where "sample_add sample_db = Inr (sp, db)" "list_peers db = Inr [sp]" "sp_profile sp = ''main''" "is4 (sp_ip sp)"
proof -
  obtain sp db where a: "sample_add sample_db = Inr (sp, db)" using sample_add_Inr by blast
  have S: "is4 (paddr (Prefix (V4 0x0A4D0000) 16))" by simp
  have ok: "db_ok (key_public (\<lambda>k. k)) db" by (rule sqlite.add_peer_ok [OF sample_db_ok _ S a]) simp
  have look: "find_peer n d p db = (if n = ''anna'' \<and> d = DefaultDevice \<and> p = ''main'' then Inr sp else Inl ErrNotFound)" for n d p
    using sqlite.add_peer_lookup [OF sample_db_ok _ S a]
    by (simp add: find_peer_def queryPeers_def joined_def sample_db_def)
  have sp: "sp_user sp = ''anna''" "sp_device sp = DefaultDevice" "sp_profile sp = ''main''"
    using a by (auto simp: add_peer_def Let_def split: sum.splits option.splits if_splits)
  have "first_free (Prefix (V4 0x0A4D0000) 16) [] = Some (V4 0x0A4D0002)"
    by (simp add: first_free_def first_free_from.simps contains_def valid_prefix_def is_broadcast_def)
  with a have "sp_ip sp = V4 0x0A4D0002"
    by (auto simp: add_peer_def sample_db_def GeneratePrivateKey_value usedAddresses_def Let_def split: sum.splits option.splits if_splits)
  then have v4: "is4 (sp_ip sp)" by simp
  obtain ps where ps: "list_peers db = Inr ps"
    using sqlite.queryPeers_total [OF ok, of "\<lambda>_. True"] by (auto simp: list_peers_def)
  note spec = list_peers_spec [OF ok ps]
  have "set ps = {sp}" using spec look sp by (auto split: if_split_asm)
  moreover have "distinct ps" using spec distinct_map by blast
  ultimately have "ps = [sp]" by (cases ps; cases "tl ps") auto
  with a ps sp v4 show thesis using that by blast
qed

section \<open>Properties\<close>



end
