(* ===== verification/Daemon_Converge.thy ===== *)
theory Daemon_Converge
  imports Daemon_World
begin

text \<open>
  What a reconciliation without errors leaves behind: the peers on the device are those of the store, each is routed as its
  profile says, and a second one changes nothing.
\<close>

section \<open>Routing one peer\<close>

definition no_name :: "string \<Rightarrow> string option" where
  "no_name n = (if n = [] then None else Some n)"

definition settled :: "'e daemon \<Rightarrow> store_peer \<Rightarrow> bool" where
  "settled d p \<longleftrightarrow>
     sp_public p \<in> keys (d_devicePeers d) \<and> \<not> mget (d_unroutePending d) (sp_ip p) False \<and>
     (\<exists>prof. config_profile (d_cfg d) (sp_profile p) = Some prof \<and>
        select_upstream prof (candidates d) (mget (d_assignments d) (sp_ip p) []) =
          no_name (mget (d_assignments d) (sp_ip p) []))"

definition named :: "'e daemon \<Rightarrow> bool" where
  "named d \<longleftrightarrow> (\<forall>u \<in> set (d_ups d). up_name u \<noteq> [])"

lemma select_named: "named d \<Longrightarrow> select_upstream prof (candidates d) cur = Some n \<Longrightarrow> n \<noteq> []"
  using select_candidate candidate_names by (fastforce simp: named_def)

text \<open>The choice is stable: once made it is made again.\<close>

lemma select_again: "select_upstream prof ups cur = Some n \<Longrightarrow> select_upstream prof ups n = Some n"
  unfolding select_iff chosen_def by (auto split: if_splits)

lemma select_blocked: "select_upstream prof ups cur = None \<Longrightarrow> select_upstream prof ups cur' = None"
  by (simp add: select_None)

lemma candidates_cong: "d_ups d' = d_ups d \<Longrightarrow> candidates d' = candidates d"
  by (simp add: candidates_def)

lemma unroute_other_addr:
  assumes "unroute host ip st = (es, st')" and "a \<noteq> ip"
  shows "mget (d_assignments (fst st')) a x = mget (d_assignments (fst st)) a x \<and>
    mget (d_unroutePending (fst st')) a y = mget (d_unroutePending (fst st)) a y"
proof -
  obtain d w d' w' where st: "st = (d, w)" "st' = (d', w')" by (cases st; cases st') blast
  from assms(1) [unfolded st] show ?thesis by (cases rule: unroute_cases) (use assms(2) st in auto)
qed

lemma unroute_done:
  assumes "unroute host ip st = ([], st')"
  shows "mget (d_assignments (fst st')) ip x = x \<and> mget (d_unroutePending (fst st')) ip y = y"
proof -
  obtain d w d' w' where st: "st = (d, w)" "st' = (d', w')" by (cases st; cases st') blast
  from assms [unfolded st] show ?thesis by (cases rule: unroute_cases) (use st in auto)
qed

lemma assign_other_addr:
  assumes "assign host ip prof st = (es, st')" and "a \<noteq> ip"
  shows "mget (d_assignments (fst st')) a x = mget (d_assignments (fst st)) a x \<and>
    mget (d_unroutePending (fst st')) a y = mget (d_unroutePending (fst st)) a y"
proof -
  obtain d w d' w' where st: "st = (d, w)" "st' = (d', w')" by (cases st; cases st') blast
  from assms(1) [unfolded st] show ?thesis
  proof (cases rule: assign_cases)
    case unrouted
    from unroute_other_addr [OF this(2) assms(2), of x y] st show ?thesis by simp
  qed (use assms(2) st in auto)
qed

lemma assign_settles:
  assumes "assign host ip prof st = ([], st')" and "named (fst st)" and "\<not> mget (d_unroutePending (fst st)) ip False"
  shows "\<not> mget (d_unroutePending (fst st')) ip False \<and>
    select_upstream prof (candidates (fst st')) (mget (d_assignments (fst st')) ip []) =
      no_name (mget (d_assignments (fst st')) ip [])"
proof -
  obtain d w d' w' where st: "st = (d, w)" "st' = (d', w')" by (cases st; cases st') blast
  from assms(1) [unfolded st] show ?thesis
  proof (cases rule: assign_cases)
    case unrouted
    have "candidates d' = candidates d" by (rule candidates_cong) (use unroute_frame [OF unrouted(2)] in simp)
    with unroute_done [OF unrouted(2)] select_blocked [OF unrouted(1)] st show ?thesis by (simp add: no_name_def)
  next
    case blocked
    with assms(3) st show ?thesis by (simp add: no_name_def)
  next
    case kept
    with assms(3) select_named [OF assms(2), of prof] st show ?thesis by (auto simp: no_name_def)
  next
    case (moved want)
    have "want \<noteq> []" using select_named assms(2) moved(1) st by fastforce
    moreover have "candidates d' = candidates d" by (rule candidates_cong) (simp add: moved(4))
    ultimately show ?thesis using moved assms(3) select_again [OF moved(1)] st by (simp add: no_name_def)
  qed (use st in simp_all)
qed

lemma route_peer_settles:
  assumes "route_peer host p st = ([], st')" and "named (fst st)" and "sp_public p \<in> keys (d_devicePeers (fst st))"
  shows "settled (fst st') p"
proof -
  note fr = route_peer_frame [OF assms(1)]
  from assms(1) show ?thesis
  proof (cases rule: route_peer_via)
    case (cleaned prof st1)
    have "named (fst st1)" using unroute_frame [OF cleaned(2)] assms(2) by (simp add: named_def)
    from assign_settles [OF cleaned(3) this] unroute_done [OF cleaned(2)] cleaned(1) fr assms(3) show ?thesis
      by (simp add: settled_def)
  next
    case (direct prof)
    from assign_settles [OF direct(3) assms(2) direct(2)] direct(1) fr assms(3) show ?thesis by (simp add: settled_def)
  qed simp_all
qed

lemma route_peer_other_addr:
  assumes "route_peer host p st = (es, st')" and "a \<noteq> sp_ip p"
  shows "mget (d_assignments (fst st')) a x = mget (d_assignments (fst st)) a x \<and>
    mget (d_unroutePending (fst st')) a y = mget (d_unroutePending (fst st)) a y"
  using assms(1)
proof (cases rule: route_peer_via)
  case (cleaned prof st1)
  from assign_other_addr [OF cleaned(3) assms(2), of x y] unroute_other_addr [OF cleaned(2) assms(2), of x y] show ?thesis by simp
qed (use unroute_other_addr assign_other_addr assms(2) in fast)+

lemma route_peer_keeps_settled:
  assumes "route_peer host p st = (es, st')" and "settled (fst st) q" and "sp_ip q \<noteq> sp_ip p"
  shows "settled (fst st') q"
proof -
  note fr = route_peer_frame [OF assms(1)]
  have "candidates (fst st') = candidates (fst st)" using fr candidates_cong by blast
  with fr route_peer_other_addr [OF assms(1,3), of "[]" False] assms(2) show ?thesis by (simp add: settled_def)
qed

text \<open>A settled peer is left alone.\<close>

lemma route_peer_settled:
  assumes "settled (fst st) p" shows "route_peer host p st = ([], st)"
  using assms by (cases st) (auto simp: settled_def route_peer_def assign_def no_name_def split: if_split_asm)

section \<open>Reconcile\<close>

lemma revoke_loop_clean:
  assumes "revoke_loop host wanted l st = ([], st')"
  shows "keys (d_devicePeers (fst st')) = keys (d_devicePeers (fst st)) - (keys l - wanted) \<and>
    d_ups (fst st') = d_ups (fst st) \<and> d_cfg (fst st') = d_cfg (fst st)"
  using assms
proof (induction l arbitrary: st)
  case (Cons kp rest)
  obtain key p where kp: "kp = (key, p)" by (cases kp) blast
  from Cons.prems [unfolded kp] show ?case
  proof (cases rule: revoke_cases)
    case kept
    from Cons.IH [OF kept(2)] kept(1) show ?thesis by (auto simp: kp)
  next
    case (gone st1 st2)
    have "fst st1 = fst st" by (rule remove_peer_frame [OF gone(2)])
    with unroute_frame [OF gone(3)] Cons.IH [OF gone(4)] gone(1) show ?thesis by (auto simp: kp keys_mdel)
  qed simp
qed simp

lemma admit_loop_settles:
  assumes "admit_loop host held ps st = ([], st')" and "named (fst st)"
    and "\<forall>p \<in> set ps. sp_ip p \<in> held \<longrightarrow> sp_public p \<in> keys (d_devicePeers (fst st))" and "distinct (map sp_ip ps)"
  shows "(\<forall>p \<in> set ps. settled (fst st') p) \<and> keys (d_devicePeers (fst st')) = keys (d_devicePeers (fst st)) \<union> sp_public ` set ps \<and>
    d_ups (fst st') = d_ups (fst st) \<and> d_cfg (fst st') = d_cfg (fst st) \<and>
    (\<forall>q. settled (fst st) q \<longrightarrow> sp_ip q \<notin> sp_ip ` set ps \<longrightarrow> settled (fst st') q)"
  using assms
proof (induction ps arbitrary: st)
  case (Cons p ps)
  have ih: "(\<forall>p \<in> set ps. settled (fst st') p) \<and>
      keys (d_devicePeers (fst st')) = keys (d_devicePeers (fst st1)) \<union> sp_public ` set ps \<and>
      d_ups (fst st') = d_ups (fst st1) \<and> d_cfg (fst st') = d_cfg (fst st1) \<and>
      (\<forall>q. settled (fst st1) q \<longrightarrow> sp_ip q \<notin> sp_ip ` set ps \<longrightarrow> settled (fst st') q)"
    if "admit_loop host held ps st1 = ([], st')" and "d_ups (fst st1) = d_ups (fst st)"
      and "keys (d_devicePeers (fst st)) \<subseteq> keys (d_devicePeers (fst st1))" for st1
    by (rule Cons.IH [OF that(1)]) (use that(2,3) Cons.prems(2-4) in \<open>auto simp: named_def\<close>)
  have new: "sp_ip p \<notin> sp_ip ` set ps" using Cons.prems(4) by auto
  have routed: ?case
    if rp: "route_peer host p st0 = ([], st1)" and al: "admit_loop host held ps st1 = ([], st')"
      and st0: "d_ups (fst st0) = d_ups (fst st)" "d_cfg (fst st0) = d_cfg (fst st)"
        "keys (d_devicePeers (fst st0)) = insert (sp_public p) (keys (d_devicePeers (fst st)))"
        "\<And>q. settled (fst st) q \<Longrightarrow> settled (fst st0) q" for st0 st1
  proof -
    note fr = route_peer_frame [OF rp]
    have "named (fst st0)" using Cons.prems(2) st0(1) by (simp add: named_def)
    then have p: "settled (fst st1) p" by (rule route_peer_settles [OF rp]) (simp add: st0(3))
    have keep: "settled (fst st1) q" if "settled (fst st) q" "sp_ip q \<noteq> sp_ip p" for q
      using route_peer_keeps_settled [OF rp st0(4) [OF that(1)] that(2)] .
    have "d_ups (fst st1) = d_ups (fst st)" "keys (d_devicePeers (fst st)) \<subseteq> keys (d_devicePeers (fst st1))"
      using fr st0 by auto
    note rest = ih [OF al this]
    then have "settled (fst st') p" using p new by blast
    with rest fr st0 keep show ?thesis by auto
  qed
  from Cons.prems(1) show ?case
  proof (cases rule: admit_cases)
    case (known e1 st1 es')
    then show ?thesis by (intro routed [of st st1]) auto
  next
    case held
    with Cons.prems(3) show ?thesis by simp
  next
    case (refused e0 st0 es')
    then show ?thesis by simp
  next
    case (added st0 e1 st1 es')
    have st0: "fst st0 = (fst st)\<lparr>d_devicePeers := mput (sp_public p) p (d_devicePeers (fst st))\<rparr>"
      using added(3) by (auto elim: add_device_peer_cases)
    have "settled (fst st0) q" if "settled (fst st) q" for q
      using that by (auto simp: st0 settled_def candidates_def keys_mput)
    with added st0 show ?thesis by (intro routed [of st0 st1]) (auto simp: keys_mput)
  qed
qed simp

lemma admit_loop_settled:
  "\<forall>p \<in> set ps. settled (fst st) p \<Longrightarrow> admit_loop host held ps st = ([], st)"
  by (induction ps) (simp_all add: route_peer_settled settled_def)

lemma revoke_loop_wanted: "keys l \<subseteq> wanted \<Longrightarrow> revoke_loop host wanted l st = ([], st)"
  by (induction l) auto

lemma reconcile_settled:
  assumes "hs_list_peers host (snd st) = Inr ps" and "\<forall>p \<in> set ps. settled (fst st) p"
    and "keys (d_devicePeers (fst st)) \<subseteq> sp_public ` set ps"
  shows "reconcile host st = ([], st)"
  using assms by (simp add: reconcile_def revoke_loop_wanted admit_loop_settled)

lemma reconcile_settles:
  assumes rec: "reconcile host st = ([], st')" and ps: "hs_list_peers host (snd st) = Inr ps" and "named (fst st)"
    and stable: "keys_stable (fst st) ps" and dist: "distinct (map sp_ip ps)" and acc: "accounted (fst st)" "assigned_live (fst st)"
  shows "(\<forall>p \<in> set ps. settled (fst st') p) \<and> keys (d_devicePeers (fst st')) = sp_public ` set ps \<and>
    d_ups (fst st') = d_ups (fst st) \<and> d_cfg (fst st') = d_cfg (fst st)"
proof -
  let ?W = "set (map sp_public ps)"
  let ?held = "\<lambda>st1. set (map (\<lambda>(_, p). sp_ip p) (d_devicePeers (fst st1)))"
  obtain st1 where rv: "revoke_loop host ?W (d_devicePeers (fst st)) st = ([], st1)"
    and ad: "admit_loop host (?held st1) ps st1 = ([], st')"
    using rec ps by (auto simp: reconcile_def split: prod.splits)
  note clean = revoke_loop_clean [OF rv]
  have d: "distinct (map fst (d_devicePeers (fst st)))" using acc(1) by (simp add: accounted_def)
  have "\<forall>(k, p) \<in> set (d_devicePeers (fst st)). map_of (d_devicePeers (fst st)) k = Some p" using d by auto
  note inv = revoke_loop_inv [OF rv acc this d]
  have d1: "distinct (map fst (d_devicePeers (fst st1)))" using inv by (simp add: accounted_def)
  have "sp_public p \<in> keys (d_devicePeers (fst st1))" if p: "p \<in> set ps" and h: "sp_ip p \<in> ?held st1" for p
  proof -
    from h obtain k q where q: "(k, q) \<in> set (d_devicePeers (fst st1))" "sp_ip q = sp_ip p" by auto
    then have "k \<in> ?W" using clean by force
    then obtain p' where p': "p' \<in> set ps" "sp_public p' = k" by auto
    have "map_of (d_devicePeers (fst st1)) k = Some q" using q(1) d1 by simp
    with inv have "map_of (d_devicePeers (fst st)) k = Some q" by (metis option.distinct(1))
    with keys_stableD [OF stable p'(1)] p'(2) q(2) have "sp_ip p' = sp_ip p" by simp
    with dist p'(1) p have "p' = p" by (auto simp: distinct_map inj_on_def)
    with p'(2) q(1) show ?thesis by force
  qed
  moreover have "named (fst st1)" using assms(3) clean by (simp add: named_def)
  ultimately have "(\<forall>p \<in> set ps. settled (fst st') p) \<and> keys (d_devicePeers (fst st')) = keys (d_devicePeers (fst st1)) \<union> sp_public ` set ps \<and>
    d_ups (fst st') = d_ups (fst st1) \<and> d_cfg (fst st') = d_cfg (fst st1)"
    using admit_loop_settles [OF ad _ _ dist] by blast
  with clean show ?thesis by auto
qed

section \<open>When no call fails\<close>

definition answering :: "('w, 'e) host \<Rightarrow> bool" where
  "answering host \<longleftrightarrow>
     (\<forall>ip i w. fst (dp_route (hs_dp host) ip i w) = None) \<and> (\<forall>ip w. fst (dp_unroute (hs_dp host) ip w) = None) \<and>
     (\<forall>n t w. fst (hs_configure host n t w) = None)"

lemma answering_unroute: "answering host \<Longrightarrow> fst (unroute host ip st) = []"
  by (cases st) (auto simp: answering_def unroute_def split: prod.splits option.splits, metis fst_conv option.distinct(1))

lemma answering_assign:
  assumes "answering host" shows "fst (assign host ip prof st) = []"
proof -
  obtain d w where st: "st = (d, w)" by (cases st) blast
  obtain es d' w' where a: "assign host ip prof (d, w) = (es, (d', w'))" by (metis prod_cases3)
  from a have "es = []"
  proof (cases rule: assign_cases)
    case unrouted
    with answering_unroute [OF assms, of ip "(d, w)"] show ?thesis by simp
  next
    case (failed e want)
    with assms show ?thesis by (metis answering_def fst_conv option.distinct(1))
  qed simp_all
  with a st show ?thesis by simp
qed

lemma answering_route:
  assumes "answering host" and "config_profile (d_cfg (fst st)) (sp_profile p) \<noteq> None"
  shows "fst (route_peer host p st) = []"
proof -
  obtain es st' where r: "route_peer host p st = (es, st')" by (cases "route_peer host p st") blast
  from r have "es = []"
  proof (cases rule: route_peer_via)
    case (stuck prof)
    with answering_unroute [OF assms(1), of "sp_ip p" st] show ?thesis by simp
  next
    case (cleaned prof st1)
    with answering_assign [OF assms(1), of "sp_ip p" prof st1] show ?thesis by simp
  next
    case (direct prof)
    with answering_assign [OF assms(1), of "sp_ip p" prof st] show ?thesis by simp
  qed (use assms(2) in simp)
  with r show ?thesis by simp
qed

lemma answering_remove: "answering host \<Longrightarrow> fst (remove_peer host key st) = []"
  by (auto simp: answering_def remove_peer_def lift_err_def split: prod.splits option.splits) (metis fst_conv option.distinct(1))

lemma answering_add: "answering host \<Longrightarrow> fst (add_device_peer host p st) = []"
  by (auto simp: answering_def add_device_peer_def split: prod.splits option.splits) (metis fst_conv option.distinct(1))

lemma answering_revoke: "answering host \<Longrightarrow> revoke_loop host W l st = (es, st') \<Longrightarrow> es = []"
proof (induction l arbitrary: st es)
  case (Cons kp rest)
  obtain key p where kp: "kp = (key, p)" by (cases kp) blast
  from Cons.prems(2) [unfolded kp] show ?case
  proof (cases rule: revoke_cases)
    case (stuck e1 st1 e2 st2 es')
    with answering_remove [OF Cons.prems(1), of key st] answering_unroute [OF Cons.prems(1), of "sp_ip p" st1] show ?thesis by simp
  qed (use Cons.IH [OF Cons.prems(1)] in blast)+
qed simp

lemma answering_admit:
  "answering host \<Longrightarrow> \<forall>p \<in> set ps. config_profile (d_cfg (fst st)) (sp_profile p) \<noteq> None \<Longrightarrow>
   admit_loop host held ps st = (es, st') \<Longrightarrow> es = []"
proof (induction ps arbitrary: st es)
  case (Cons p ps)
  have ih: "es' = []" if "admit_loop host held ps st1 = (es', st')" and "d_cfg (fst st1) = d_cfg (fst st)" for es' st1
    by (rule Cons.IH [OF Cons.prems(1) _ that(1)]) (use Cons.prems(2) that(2) in simp)
  have rt: "e1 = []" if "route_peer host p st1 = (e1, st2)" and "d_cfg (fst st1) = d_cfg (fst st)" for e1 st1 st2
    using answering_route [OF Cons.prems(1), of st1 p] Cons.prems(2) that by simp
  from Cons.prems(3) show ?case
  proof (cases rule: admit_cases)
    case (known e1 st1 es')
    with ih [of st1 es'] rt [of st e1 st1] route_peer_frame [OF known(2)] show ?thesis by simp
  next
    case held
    with ih show ?thesis by simp
  next
    case (refused e0 st0 es')
    with answering_add [OF Cons.prems(1), of p st] show ?thesis by simp
  next
    case (added st0 e1 st1 es')
    then have "d_cfg (fst st0) = d_cfg (fst st)" by (auto elim: add_device_peer_cases)
    with ih [of st1 es'] rt [of st0 e1 st1] added route_peer_frame [OF added(4)] show ?thesis by simp
  qed
qed simp

lemma answering_reconcile:
  assumes "answering host" and "hs_list_peers host (snd st) = Inr ps" and "accounted (fst st)" "assigned_live (fst st)"
    and "\<forall>p \<in> set ps. config_profile (d_cfg (fst st)) (sp_profile p) \<noteq> None"
  shows "fst (reconcile host st) = []"
proof -
  let ?W = "set (map sp_public ps)"
  obtain e1 st1 where rv: "revoke_loop host ?W (d_devicePeers (fst st)) st = (e1, st1)"
    by (cases "revoke_loop host ?W (d_devicePeers (fst st)) st") blast
  have e1: "e1 = []" by (rule answering_revoke [OF assms(1) rv])
  have cfg: "d_cfg (fst st1) = d_cfg (fst st)" using revoke_loop_clean [OF rv [unfolded e1]] by blast
  obtain e2 st2 where ad: "admit_loop host (set (map (\<lambda>(_, p). sp_ip p) (d_devicePeers (fst st1)))) ps st1 = (e2, st2)"
    by (cases "admit_loop host (set (map (\<lambda>(_, p). sp_ip p) (d_devicePeers (fst st1)))) ps st1") blast
  have "e2 = []" by (rule answering_admit [OF assms(1) _ ad]) (use assms(5) cfg in simp)
  with e1 rv ad assms(2) show ?thesis by (simp add: reconcile_def)
qed

section \<open>Properties\<close>

text \<open>C5. A reconciliation without errors converges: the device holds exactly the peers of the store; each has no cleanup pending and is
  assigned the upstream its profile selects now, or none if no healthy upstream matches; and reconciling again, in any world whose store
  lists the same peers, changes nothing at all. It has no errors when no call of the dataplane or the device fails and the
  configuration knows every profile.\<close>

theorem reconcile_converges:
  assumes "reconcile host st = (es, st')" and "hs_list_peers host (snd st) = Inr ps"
    and "keys_stable (fst st) ps" and "distinct (map sp_ip ps)" and "\<forall>u \<in> set (d_ups (fst st)). up_name u \<noteq> []"
    and "accounted (fst st)" and "assigned_live (fst st)"
  shows "(es = [] \<longrightarrow>
      keys (d_devicePeers (fst st')) = sp_public ` set ps \<and>
      (\<forall>p \<in> set ps. \<not> mget (d_unroutePending (fst st')) (sp_ip p) False \<and>
        (\<exists>prof. config_profile (d_cfg (fst st')) (sp_profile p) = Some prof \<and>
          (let current = mget (d_assignments (fst st')) (sp_ip p) []
           in select_upstream prof (candidates (fst st')) current = (if current = [] then None else Some current)))) \<and>
      (\<forall>w. hs_list_peers host w = Inr ps \<longrightarrow> reconcile host (fst st', w) = ([], (fst st', w)))) \<and>
    (answering host \<and> (\<forall>p \<in> set ps. config_profile (d_cfg (fst st)) (sp_profile p) \<noteq> None) \<longrightarrow> es = [])"
proof -
  have named: "named (fst st)" using assms(5) by (simp add: named_def)
  have r: "(\<forall>p \<in> set ps. settled (fst st') p) \<and> keys (d_devicePeers (fst st')) = sp_public ` set ps" if "es = []"
    using reconcile_settles [OF assms(1) [unfolded that] assms(2) named assms(3,4,6,7)] by blast
  then have "reconcile host (fst st', w) = ([], (fst st', w))" if "es = []" "hs_list_peers host w = Inr ps" for w
    using reconcile_settled [of host "(fst st', w)" ps] that by auto
  moreover have "\<forall>p \<in> set ps. \<not> mget (d_unroutePending (fst st')) (sp_ip p) False \<and>
        (\<exists>prof. config_profile (d_cfg (fst st')) (sp_profile p) = Some prof \<and>
          (let current = mget (d_assignments (fst st')) (sp_ip p) []
           in select_upstream prof (candidates (fst st')) current = (if current = [] then None else Some current)))" if "es = []"
    using r [OF that] unfolding settled_def no_name_def Let_def by blast
  moreover have "es = []" if "answering host" "\<forall>p \<in> set ps. config_profile (d_cfg (fst st)) (sp_profile p) \<noteq> None"
    using answering_reconcile [OF that(1) assms(2,6,7) that(2)] assms(1) by simp
  ultimately show ?thesis using r by (intro conjI impI) simp_all
qed

theorem reconcile_converges_witness:
  "\<exists>(st :: (unit world, fake_error + unit) dstate) st' key. reconcile (world_host run_devices) st = ([], st') \<and>
     keys (d_devicePeers (fst st')) = {key} \<and> reconcile (world_host run_devices) st' = ([], st')"
proof -
  let ?host = "world_host run_devices"
  obtain sp db where db: "list_peers db = Inr [sp]" "sp_profile sp = ''main''" using run_peers by blast
  obtain up where "load_upstream (\<lambda>_. Some (config_string sample_config)) (\<lambda>_. Some [V4 1]) run_upstream (cf_health run_settings) = Inr up"
    "up_cfg up = run_upstream" using run_load by blast
  from this(2) have "up_cfg (up\<lparr>up_tracker := (NewTracker 1 1)\<lparr>t_state := Up\<rparr>\<rparr>) = run_upstream \<and>
      t_state (up_tracker (up\<lparr>up_tracker := (NewTracker 1 1)\<lparr>t_state := Up\<rparr>\<rparr>)) = Up" by simp
  then obtain u :: upstream where u: "up_cfg u = run_upstream" "t_state (up_tracker u) = Up" by blast
  let ?d = "(new_daemon run_settings \<lparr>id_private = zero_key, id_params = zero_params\<rparr>)\<lparr>d_ups := [u]\<rparr> :: (fake_error + unit) daemon"
  let ?w = "(run_world db)\<lparr>wd_dp := fake_new\<lparr>fk_ups := [\<lparr>di_name = device_name u, di_addr = up_addr u\<rparr>]\<rparr>\<rparr>"
  have "\<exists>st'. reconcile ?host (?d, ?w) = ([], st') \<and> fake_route_of (sp_ip sp) (wd_dp (snd st')) = Some ''lm-up-de1'' \<and> wd_db (snd st') = wd_db ?w"
    by (rule run_reconcile [where u = u and a = "up_addr u"]) (simp_all add: u db new_daemon_def run_world_def)
  then obtain st' where rec: "reconcile ?host (?d, ?w) = ([], st')" and wd: "wd_db (snd st') = db" by (auto simp: run_world_def)
  have lp: "hs_list_peers ?host (snd (?d, ?w)) = Inr [sp]" using db by (simp add: world_host_def run_world_def)
  have inv: "keys_stable (fst (?d, ?w)) [sp]" "accounted (fst (?d, ?w))" "assigned_live (fst (?d, ?w))" "\<forall>u \<in> set (d_ups (fst (?d, ?w))). up_name u \<noteq> []"
    by (simp_all add: new_daemon_def keys_stable_def accounted_def assigned_live_def live_in_def tracked_def mget_def u run_upstream_def)
  have "distinct (map sp_ip [sp])" by simp
  note c = reconcile_converges [OF rec lp inv(1) this inv(4,2,3)]
  have "hs_list_peers ?host (snd st') = Inr [sp]" using db wd by (simp add: world_host_def)
  with c have "keys (d_devicePeers (fst st')) = {sp_public sp}" "reconcile ?host st' = ([], st')" by auto
  with rec show ?thesis by (intro exI conjI)
qed

end
