(* ===== verification/Daemon_Reload.thy ===== *)
theory Daemon_Reload
  imports Daemon_World
begin

text \<open>
  What a reload does to the upstreams: one whose provider file has not changed keeps its device, its endpoint and its peers; a reload
  that needs a restart changes nothing. The last section is the probe that outlives its upstream.
\<close>

section \<open>Unchanged upstreams\<close>

definition kept_upstream :: "health_cfg \<Rightarrow> cfg_upstream \<Rightarrow> upstream \<Rightarrow> upstream" where
  "kept_upstream h u o' =
     o'\<lparr>up_cfg := u, up_tracker := set_thresholds (h_downAfter h) (h_upAfter h) (up_tracker o')\<rparr>"

definition unchanged_in :: "(string \<Rightarrow> string option) \<Rightarrow> (string \<times> upstream) list \<Rightarrow> cfg_upstream \<Rightarrow> bool" where
  "unchanged_in read_file m u \<longleftrightarrow>
     (case map_of m (u_name u) of None \<Rightarrow> False | Some o' \<Rightarrow> up_source o' = fileContent read_file (u_conf u))"

lemma reload_loop_unchanged:
  assumes "\<forall>u \<in> set us. unchanged_in (hs_read_file host (snd st)) current u" and "distinct (map u_name us)"
  shows "\<exists>left. reload_loop host h us current acc errs st =
      (left, acc @ map (\<lambda>u. kept_upstream h u (the (map_of current (u_name u)))) us, errs, st) \<and>
    keys left = keys current - u_name ` set us"
  using assms
proof (induction us arbitrary: current acc)
  case (Cons u us)
  let ?m = "mdel (u_name u) current"
  obtain o' where o': "map_of current (u_name u) = Some o'" "up_source o' = fileContent (hs_read_file host (snd st)) (u_conf u)"
    using Cons.prems(1) by (auto simp: unchanged_in_def split: option.splits)
  have same: "map_of ?m (u_name v) = map_of current (u_name v)" if "v \<in> set us" for v
    using that Cons.prems(2) by (cases "u_name v = u_name u") (force simp: image_iff)+
  then have "\<forall>v \<in> set us. unchanged_in (hs_read_file host (snd st)) ?m v"
    using Cons.prems(1) by (simp add: unchanged_in_def)
  from Cons.IH [OF this, of "acc @ [kept_upstream h u o']"] Cons.prems(2) obtain left where
    "reload_loop host h us ?m (acc @ [kept_upstream h u o']) errs st =
      (left, (acc @ [kept_upstream h u o']) @ map (\<lambda>v. kept_upstream h v (the (map_of ?m (u_name v)))) us, errs, st)"
    "keys left = keys ?m - u_name ` set us" by auto
  moreover have "map (\<lambda>v. kept_upstream h v (the (map_of ?m (u_name v)))) us =
      map (\<lambda>v. kept_upstream h v (the (map_of current (u_name v)))) us"
    using same by simp
  ultimately show ?case using o' by (auto simp: Let_def kept_upstream_def keys_mdel)
qed simp

lemma by_name_lookup:
  "distinct (map up_name us) \<Longrightarrow> o' \<in> set us \<Longrightarrow> map_of (by_name us) (up_name o') = Some o'"
  by (induction us rule: rev_induct) (auto simp: image_iff)

lemma revive_routes:
  "revive host us st = (es, st') \<Longrightarrow>
   d_assignments (fst st') = d_assignments (fst st) \<and> d_unroutePending (fst st') = d_unroutePending (fst st)"
proof (induction us arbitrary: st es)
  case (Cons u us)
  obtain r w1 where up: "hs_up host (device_name u) (snd st) = (r, w1)" by (cases "hs_up host (device_name u) (snd st)") blast
  obtain e1 st1 where al: "apply_alive host u (fst st, w1) = (e1, st1)" by (cases "apply_alive host u (fst st, w1)") blast
  obtain e2 where rv: "revive host us st1 = (e2, st')" using Cons.prems up al by (auto simp: Let_def split: prod.splits)
  from al have "d_assignments (fst st1) = d_assignments (fst st) \<and> d_unroutePending (fst st1) = d_unroutePending (fst st)"
    by (auto simp: apply_alive_def split: prod.splits option.splits)
  with Cons.IH [OF rv] show ?case by simp
qed simp

text \<open>The routes a reload keeps: every assignment, pending cleanup and peer on the device.\<close>

lemma reload_unchanged:
  assumes eq: "reload host cfg (d, w) = (es, st')" and ok: "restartRequired (d_cfg d) cfg = []"
    and names: "distinct (map up_name (d_ups d))" "distinct (map u_name (cf_upstreams cfg))"
      "up_name ` set (d_ups d) \<subseteq> u_name ` set (cf_upstreams cfg)"
    and same: "\<forall>u \<in> set (cf_upstreams cfg). \<exists>o' \<in> set (d_ups d).
      up_name o' = u_name u \<and> up_source o' = fileContent (hs_read_file host w) (u_conf u)"
  shows "map up_conf (d_ups (fst st')) = map (\<lambda>u. up_conf (the (map_of (by_name (d_ups d)) (u_name u)))) (cf_upstreams cfg) \<and>
    map up_cfg (d_ups (fst st')) = cf_upstreams cfg \<and>
    d_assignments (fst st') = d_assignments d \<and> d_unroutePending (fst st') = d_unroutePending d \<and>
    d_devicePeers (fst st') = d_devicePeers d"
proof -
  let ?m = "by_name (d_ups d)"
  let ?ups = "map (\<lambda>u. kept_upstream (cf_health cfg) u (the (map_of ?m (u_name u)))) (cf_upstreams cfg)"
  have "\<forall>u \<in> set (cf_upstreams cfg). unchanged_in (hs_read_file host (snd (d, w))) ?m u"
  proof
    fix u assume "u \<in> set (cf_upstreams cfg)"
    with same obtain o' where o': "o' \<in> set (d_ups d)" "up_name o' = u_name u" "up_source o' = fileContent (hs_read_file host w) (u_conf u)"
      by blast
    with by_name_lookup [OF names(1) o'(1)] show "unchanged_in (hs_read_file host (snd (d, w))) ?m u" by (simp add: unchanged_in_def)
  qed
  from reload_loop_unchanged [OF this names(2), of "cf_health cfg" "[]" "[]"] obtain left where
    loop: "reload_loop host (cf_health cfg) (cf_upstreams cfg) ?m [] [] (d, w) = (left, ?ups, [], (d, w))"
    and left: "keys left = keys ?m - u_name ` set (cf_upstreams cfg)" by auto
  have "left = []" using left names(3) by_name_map [of "d_ups d"] by (metis Diff_eq_empty_iff image_is_empty set_empty)
  note loop = loop [unfolded this]
  have ups: "map up_conf ?ups = map (\<lambda>u. up_conf (the (map_of ?m (u_name u)))) (cf_upstreams cfg)" "map up_cfg ?ups = cf_upstreams cfg"
    by (simp_all add: kept_upstream_def comp_def)
  from eq show ?thesis
  proof (cases rule: reload_cases)
    case rejected
    with ok show ?thesis by simp
  next
    case (failed left' ups' errs st1 d2 w2 e w3)
    with loop have "left' = []" "ups' = ?ups" "st1 = (d, w)" by simp_all
    with failed(3,6) ups show ?thesis by simp
  next
    case (applied left' ups' errs st1 d2 w2 w3 e4 d4 w4)
    with loop have "left' = []" "ups' = ?ups" "st1 = (d, w)" by simp_all
    with applied(3) have d2: "d2 = d" "ups' = ?ups" by simp_all
    from revive_routes [OF applied(5)] revive_intact [OF applied(5)] applied(7) d2 ups show ?thesis by simp
  qed
qed

section \<open>A probe that outlives its upstream\<close>

text \<open>\<open>probeAll\<close> holds the upstream object while it probes without the mutex; a reload may replace the upstream meanwhile. Here the
  probe of the replaced one succeeds after the reload.\<close>

definition replaced_state :: "upstream \<Rightarrow> (unit world, fake_error + unit) dstate" where
  "replaced_state u =
     ((new_daemon run_settings \<lparr>id_private = replicate 32 1, id_params = zero_params\<rparr>)\<lparr>d_ups := [u]\<rparr>,
      (run_world sample_db)\<lparr>wd_dp := fake_new\<lparr>fk_ups := [\<lparr>di_name = device_name u, di_addr = up_addr u\<rparr>],
                                         fk_alive := [(device_name u, False)]\<rparr>\<rparr>)"

section \<open>Properties\<close>



text \<open>A probe that was started before a reload replaced its upstream marks the replacement alive in the dataplane, although
  the replacement's health is still unknown: \<open>applyAlive\<close> goes by the interface name, which both share.\<close>

theorem late_probe_marks_replacement:
  "\<exists>old new (st' :: (unit world, fake_error + unit) dstate) old'.
     up_name old = up_name new \<and> old \<notin> set (d_ups (fst (replaced_state new))) \<and>
     probe_result (world_host run_devices) (Some 5) old (replaced_state new) = (old', st') \<and>
     d_ups (fst st') = [new] \<and> t_state (up_tracker new) = Unknown \<and>
     mget (fk_alive (wd_dp (snd (replaced_state new)))) (device_name new) True = False \<and>
     mget (fk_alive (wd_dp (snd st'))) (device_name new) False"
proof -
  let ?new = "\<lparr>up_cfg = run_upstream, up_conf = sample_config, up_source = ''new'', up_endpoint = ''192.0.2.1:51820'',
     up_addr = Prefix (V4 0x0A080002) 32, up_mtu = 1280, up_tracker = NewTracker 3 2\<rparr>"
  let ?old = "?new\<lparr>up_source := ''old''\<rparr>"
  have "\<exists>old' st'. probe_result (world_host run_devices) (Some 5) ?old (replaced_state ?new) = (old', st') \<and>
      d_ups (fst st') = [?new] \<and> mget (fk_alive (wd_dp (snd st'))) (device_name ?new) False"
    by (simp add: probe_result_def probe_observed_def observe_def Let_def countProbe_def apply_alive_def replaced_state_def new_daemon_def
        world_host_def world_dp_def on_dp_def fake_ops_def fake_set_alive_def fake_log_def mget_def device_name_def)
  moreover have "mget (fk_alive (wd_dp (snd (replaced_state ?new)))) (device_name ?new) True = False"
    by (simp add: replaced_state_def mget_def run_world_def)
  moreover have "?old \<notin> set (d_ups (fst (replaced_state ?new)))" by (simp add: replaced_state_def new_daemon_def)
  moreover have "up_name ?old = up_name ?new" "t_state (up_tracker ?new) = Unknown" by simp_all
  ultimately show ?thesis by blast
qed

end
