(* ===== verification/Linux_Rules.thy ===== *)
theory Linux_Rules
  imports Netip
begin

text \<open>
  \<open>internal/dataplane/linux/linux.go\<close>, the part without effects: the policy rules and routes Lotsman installs, and how it
  recognises its own among the host's. An \<open>ip_rule\<close> is a \<open>netlink.Rule\<close>: the selectors the code sets are fields, all others are
  together in \<open>rl_more\<close> (empty in \<open>NewRule\<close>), so comparing records is \<open>reflect.DeepEqual\<close>. A table map
  lists interfaces and table ids, a name map link indices and names.
\<close>

section \<open>Constants\<close>

definition tableBase :: int where "tableBase = 1000"
definition tableLimit :: int where "tableLimit = 1100"
definition pinRulePriority :: int where "pinRulePriority = 3000"
definition probeRulePriority :: int where "probeRulePriority = 4000"
definition peerRulePriority :: int where "peerRulePriority = 5000"
definition upstreamPrefix :: string where "upstreamPrefix = ''lm-up-''"

lemmas linux_consts = tableBase_def tableLimit_def pinRulePriority_def probeRulePriority_def peerRulePriority_def

section \<open>Addresses and masks\<close>

fun as_slice :: "addr \<Rightarrow> u8 list" where
  "as_slice NoAddr = []"
| "as_slice (V4 w) = map of_nat (octets w)"
| "as_slice (V6 w _) = concat (map (\<lambda>g. [of_nat (g div 256), of_nat (g mod 256)]) (groups w))"

record ip_net =
  net_ip :: "u8 list"
  net_mask :: "u8 list"

text \<open>\<open>IPMask.Size\<close>: the ones and the length of a mask of leading ones, \<open>(0, 0)\<close> for any other.\<close>

definition byte_bits :: "u8 \<Rightarrow> bool list" where
  "byte_bits b = map (bit b) [7, 6, 5, 4, 3, 2, 1, 0]"

definition mask_size :: "u8 list \<Rightarrow> nat \<times> nat" where
  "mask_size m =
     (let bits = concat (map byte_bits m); rest = dropWhile (\<lambda>b. b) bits
      in if True \<in> set rest then (0, 0) else (length (takeWhile (\<lambda>b. b) bits), length bits))"

definition hostNet :: "addr \<Rightarrow> ip_net" where
  "hostNet a = \<lparr>net_ip = as_slice a, net_mask = replicate (nat (bit_len a) div 8) 0xff\<rparr>"

text \<open>\<open>IP.Equal\<close>: an IPv4 address equals its 16-byte form.\<close>

definition v4_in_v6 :: "u8 list \<Rightarrow> u8 list" where
  "v4_in_v6 b = (if length b = 4 then replicate 10 0 @ [0xff, 0xff] @ b else b)"

definition ip_equal :: "u8 list \<Rightarrow> u8 list \<Rightarrow> bool" where
  "ip_equal a b \<longleftrightarrow> v4_in_v6 a = v4_in_v6 b"

section \<open>Rules\<close>

datatype family = FamilyAll | FamilyV4 | FamilyV6

record ip_rule =
  rl_family :: family
  rl_priority :: int
  rl_table :: int
  rl_src :: "ip_net option"
  rl_mark :: u32
  rl_mask :: "u32 option"
  rl_oif :: string
  rl_more :: "(string \<times> string) list"

text \<open>A \<open>NewRule\<close> with family, source, table and priority set.\<close>

definition new_rule :: "ip_net option \<Rightarrow> int \<Rightarrow> int \<Rightarrow> ip_rule" where
  "new_rule src table priority =
     \<lparr>rl_family = FamilyV4, rl_priority = priority, rl_table = table, rl_src = src, rl_mark = 0, rl_mask = None,
      rl_oif = [], rl_more = []\<rparr>"

definition peer_rule :: "addr \<Rightarrow> int \<Rightarrow> int \<Rightarrow> ip_rule" where
  "peer_rule src table priority = new_rule (Some (hostNet src)) table priority"

definition pin_rule :: "addr \<Rightarrow> int \<Rightarrow> ip_rule" where
  "pin_rule peer table =
     (new_rule (Some (hostNet peer)) table pinRulePriority)\<lparr>rl_mark := of_int table, rl_mask := Some 0xffffffff\<rparr>"

definition probe_rule :: "addr \<Rightarrow> int \<Rightarrow> string \<Rightarrow> ip_rule" where
  "probe_rule src table oif = (new_rule (Some (hostNet src)) table probeRulePriority)\<lparr>rl_oif := oif\<rparr>"

definition ours :: "ip_rule \<Rightarrow> bool" where
  "ours r \<longleftrightarrow>
     (case rl_src r of
        None \<Rightarrow> False
      | Some src \<Rightarrow>
          \<not> (rl_table r < tableBase \<or> rl_table r \<ge> tableLimit) \<and> mask_size (net_mask src) = (32, 32) \<and>
          (let want = new_rule (rl_src r) (rl_table r) (rl_priority r)
           in if rl_priority r = pinRulePriority then
                r = want\<lparr>rl_mark := of_int (rl_table r), rl_mask := Some 0xffffffff\<rparr>
              else if rl_priority r = probeRulePriority then
                (rl_oif r = [] \<or> has_prefix (rl_oif r) upstreamPrefix) \<and> r = want\<lparr>rl_oif := rl_oif r\<rparr>
              else if rl_priority r = peerRulePriority then r = want
              else False))"

definition probeDeletionAmbiguous :: "ip_rule \<Rightarrow> ip_rule list \<Rightarrow> bool" where
  "probeDeletionAmbiguous r all \<longleftrightarrow>
     rl_priority r = probeRulePriority \<and>
     (\<exists>other' \<in> set all. rl_priority other' = rl_priority r \<and> rl_table other' = rl_table r \<and>
        rl_family other' = rl_family r \<and> rl_src other' = rl_src r \<and>
        (rl_oif r = [] \<or> rl_oif other' = rl_oif r) \<and> other' \<noteq> r)"

section \<open>Routes and tables\<close>

record route =
  rt_link :: int
  rt_table :: int
  rt_dst :: "ip_net option"
  rt_gw :: "u8 list"
  rt_more :: "(string \<times> string) list"

definition isDefault :: "route \<Rightarrow> bool" where
  "isDefault r = (case rt_dst r of None \<Rightarrow> True | Some dst \<Rightarrow> fst (mask_size (net_mask dst)) = 0)"

definition ourRoute :: "route \<Rightarrow> (int \<times> string) list \<Rightarrow> bool" where
  "ourRoute r names \<longleftrightarrow> isDefault r \<and> length (rt_gw r) = 0 \<and> has_prefix (mget names (rt_link r) []) upstreamPrefix"

definition ownedTable :: "int \<Rightarrow> route list \<Rightarrow> (int \<times> string) list \<Rightarrow> bool" where
  "ownedTable table routes names \<longleftrightarrow>
     \<not> (table < tableBase \<or> table \<ge> tableLimit) \<and>
     (\<forall>r \<in> set routes. rt_table r = table \<longrightarrow> ourRoute r names)"

definition probeTableMatches :: "ip_rule \<Rightarrow> route list \<Rightarrow> (int \<times> string) list \<Rightarrow> bool" where
  "probeTableMatches r routes names \<longleftrightarrow>
     rl_oif r = [] \<or> (\<forall>route \<in> set routes. rt_table route = rl_table r \<longrightarrow> mget names (rt_link route) [] = rl_oif r)"

definition tableBusy :: "int \<Rightarrow> route list \<Rightarrow> ip_rule list \<Rightarrow> bool" where
  "tableBusy table routes rules \<longleftrightarrow>
     (\<exists>r \<in> set routes. rt_table r = table) \<or> (\<exists>r \<in> set rules. rl_table r = table)"

fun interfaceOfTable :: "(string \<times> int) list \<Rightarrow> int \<Rightarrow> string" where
  "interfaceOfTable [] table = []"
| "interfaceOfTable ((name, t) # rest) table = (if t = table then name else interfaceOfTable rest table)"

text \<open>The search of \<open>allocateTable\<close> from \<open>t\<close> on.\<close>

function allocate_from :: "(string \<times> int) list \<Rightarrow> route list \<Rightarrow> ip_rule list \<Rightarrow> int \<Rightarrow> int option" where
  "allocate_from tables routes rules t =
     (if t < tableLimit then
        (if interfaceOfTable tables t = [] \<and> \<not> tableBusy t routes rules then Some t
         else allocate_from tables routes rules (t + 1))
      else None)"
  by pat_completeness auto

termination
  by (relation "measure (\<lambda>(_, _, _, t). nat (tableLimit - t))") auto

declare allocate_from.simps [simp del]

section \<open>What the predicates recognise\<close>

lemma byte_bits_ff [simp]: "byte_bits 0xff = replicate 8 True"
proof -
  have "(0xff :: u8) = - 1" by simp
  then have "byte_bits 0xff = map (bit (- 1 :: u8)) [7, 6, 5, 4, 3, 2, 1, 0]" by (simp only: byte_bits_def)
  also have "\<dots> = replicate 8 True" by (simp add: numeral_eq_Suc)
  finally show ?thesis .
qed

lemma mask_size_ff: "mask_size (replicate n 0xff) = (8 * n, 8 * n)"
proof -
  have "concat (map byte_bits (replicate n 0xff)) = replicate (8 * n) True"
  proof (induction n)
    case (Suc n)
    have "replicate (8 * Suc n) True = replicate 8 True @ replicate (8 * n) True" by (simp only: mult_Suc_right replicate_add)
    with Suc show ?case by simp
  qed simp
  then show ?thesis by (simp add: mask_size_def)
qed

lemma mask_size_host: "mask_size (net_mask (hostNet a)) = (32, 32) \<longleftrightarrow> is4 a"
  using mask_size_ff [of 0] by (cases a) (simp_all add: hostNet_def mask_size_ff)

definition in_range :: "int \<Rightarrow> bool" where
  "in_range t \<longleftrightarrow> tableBase \<le> t \<and> t < tableLimit"

text \<open>The three shapes, and nothing else.\<close>

lemma ours_iff:
  "ours r \<longleftrightarrow>
     (\<exists>src table. in_range table \<and> mask_size (net_mask src) = (32, 32) \<and>
        (r = new_rule (Some src) table peerRulePriority \<or>
         r = (new_rule (Some src) table pinRulePriority)\<lparr>rl_mark := of_int table, rl_mask := Some 0xffffffff\<rparr> \<or>
         (\<exists>oif. (oif = [] \<or> has_prefix oif upstreamPrefix) \<and>
            r = (new_rule (Some src) table probeRulePriority)\<lparr>rl_oif := oif\<rparr>)))"
proof (cases "rl_src r")
  case None
  then show ?thesis by (auto simp: ours_def new_rule_def)
next
  case (Some src)
  show ?thesis
  proof
    assume "ours r"
    with Some show "\<exists>src table. in_range table \<and> mask_size (net_mask src) = (32, 32) \<and>
        (r = new_rule (Some src) table peerRulePriority \<or>
         r = (new_rule (Some src) table pinRulePriority)\<lparr>rl_mark := of_int table, rl_mask := Some 0xffffffff\<rparr> \<or>
         (\<exists>oif. (oif = [] \<or> has_prefix oif upstreamPrefix) \<and>
            r = (new_rule (Some src) table probeRulePriority)\<lparr>rl_oif := oif\<rparr>))"
      by (intro exI [of _ src] exI [of _ "rl_table r"])
        (auto simp: ours_def in_range_def Let_def split: if_split_asm)
  qed (auto simp: ours_def new_rule_def in_range_def Let_def linux_consts)
qed

lemma ours_peer: "in_range t \<Longrightarrow> is4 a \<Longrightarrow> ours (peer_rule a t peerRulePriority)"
  unfolding ours_iff peer_rule_def using mask_size_host by blast

lemma ours_pin: "in_range t \<Longrightarrow> is4 a \<Longrightarrow> ours (pin_rule a t)"
  unfolding ours_iff pin_rule_def using mask_size_host by blast

lemma ours_probe: "in_range t \<Longrightarrow> is4 a \<Longrightarrow> has_prefix oif upstreamPrefix \<Longrightarrow> ours (probe_rule a t oif)"
  unfolding ours_iff probe_rule_def using mask_size_host by blast

lemma as_slice_V4: "length (as_slice (V4 w)) = 4"
  by (simp add: octets_def)

lemma as_slice_inj: "as_slice (V4 v) = as_slice (V4 w) \<Longrightarrow> v = w"
proof -
  assume "as_slice (V4 v) = as_slice (V4 w)"
  then have eq: "map (unat :: u8 \<Rightarrow> nat) (map of_nat (octets v)) = map (unat :: u8 \<Rightarrow> nat) (map of_nat (octets w))"
    by (simp only: as_slice.simps)
  have undo: "map (unat :: u8 \<Rightarrow> nat) (map of_nat (octets x)) = octets x" for x
  proof -
    have "unat (of_nat n :: u8) = n" if "n \<in> set (octets x)" for n
      using octets_lt [OF that] by (simp add: unsigned_of_nat take_bit_eq_mod)
    then show ?thesis unfolding map_map by (intro map_idI) simp
  qed
  from eq have "octets v = octets w" unfolding undo .
  then show "v = w" using octets_value_octets by (metis unsigned_word_eqI)
qed

lemma ip_equal_V4: "ip_equal (as_slice (V4 v)) (as_slice (V4 w)) \<longleftrightarrow> v = w"
  unfolding ip_equal_def v4_in_v6_def using as_slice_V4 as_slice_inj by auto

lemma hostNet_inj: "hostNet (V4 v) = hostNet (V4 w) \<Longrightarrow> v = w"
  by (simp only: hostNet_def ip_net.ext_inject) (blast dest: as_slice_inj)

section \<open>Table allocation\<close>

lemma interfaceOfTable_None: "[] \<notin> fst ` set tables \<Longrightarrow> interfaceOfTable tables t = [] \<longleftrightarrow> t \<notin> snd ` set tables"
  by (induction tables t rule: interfaceOfTable.induct) auto

lemma allocate_from_Some:
  "allocate_from tables routes rules t = Some t' \<longleftrightarrow>
     t \<le> t' \<and> t' < tableLimit \<and> interfaceOfTable tables t' = [] \<and> \<not> tableBusy t' routes rules \<and>
     (\<forall>s. t \<le> s \<and> s < t' \<longrightarrow> interfaceOfTable tables s \<noteq> [] \<or> tableBusy s routes rules)"
proof (induction tables routes rules t rule: allocate_from.induct)
  case (1 tables routes rules t)
  let ?free = "\<lambda>t. interfaceOfTable tables t = [] \<and> \<not> tableBusy t routes rules"
  show ?case
  proof (cases "t < tableLimit \<and> ?free t")
    case True
    then show ?thesis by (subst allocate_from.simps) (force simp: order.order_iff_strict)
  next
    case False
    have "(t + 1 \<le> t' \<and> t' < tableLimit \<and> ?free t' \<and> (\<forall>s. t + 1 \<le> s \<and> s < t' \<longrightarrow> \<not> ?free s)) \<longleftrightarrow>
          (t \<le> t' \<and> t' < tableLimit \<and> ?free t' \<and> (\<forall>s. t \<le> s \<and> s < t' \<longrightarrow> \<not> ?free s))"
      using False by (smt (verit))
    with 1 False show ?thesis by (subst allocate_from.simps) auto
  qed
qed

end
