(* ===== verification/Linux_Nft.thy ===== *)
theory Linux_Nft
  imports Linux_Rules
begin

text \<open>
  The nftables side of \<open>internal/dataplane/linux/linux.go\<close>: the expressions and messages the code builds with
  \<open>github.com/google/nftables\<close>, in its order. An expression is a constructor with the fields the code sets (register 1 throughout);
  messages name objects of the \<open>lotsman\<close> table unless they carry a chain. \<open>apply_msg\<close> and \<open>eval_chain\<close> are the documented
  meaning of a transaction and of a chain; the kernel enters the later theories only through laws stated with them.
  \<open>native\<close> is \<open>binaryutil.NativeEndian.PutUint32\<close>.
\<close>

section \<open>Expressions\<close>

datatype meta_key = IIFNAME | OIFNAME | NFPROTO | L4PROTO | MARK
datatype ct_key = CtMARK | CtSTATE
datatype cmp_op = CmpEq | CmpNeq
datatype payload_base = NetworkHeader | TransportHeader

datatype nft_expr =
    Meta meta_key bool
  | Cmp cmp_op "u8 list"
  | Payload payload_base nat nat
  | Lookup string bool
  | Bitwise "u8 list" "u8 list"
  | Ct ct_key bool
  | RtTCPMSS
  | Byteorder
  | ExthdrMaxseg
  | Masq
  | VerdictAccept
  | VerdictDrop

definition ifname :: "string \<Rightarrow> u8 list" where
  "ifname n = take 16 (map of_char n @ replicate 16 0)"

definition accepting :: "nft_expr list" where "accepting = [VerdictAccept]"
definition dropping :: "nft_expr list" where "dropping = [VerdictDrop]"

definition tcpSyn :: "nft_expr list" where
  "tcpSyn = [Meta L4PROTO False, Cmp CmpEq [6], Payload TransportHeader 13 1, Bitwise [0x02] [0x00], Cmp CmpNeq [0x00]]"

definition clampMSS :: "nft_expr list" where
  "clampMSS = [RtTCPMSS, Byteorder, ExthdrMaxseg]"

definition ctEstablished :: "(u32 \<Rightarrow> u8 list) \<Rightarrow> nft_expr list" where
  "ctEstablished native = [Ct CtSTATE False, Bitwise (native 6) (native 0), Cmp CmpNeq [0, 0, 0, 0]]"

definition iifIs :: "string \<Rightarrow> nft_expr list" where
  "iifIs name = [Meta IIFNAME False, Cmp CmpEq (ifname name)]"

definition oifIs :: "string \<Rightarrow> nft_expr list" where
  "oifIs name = [Meta OIFNAME False, Cmp CmpEq (ifname name)]"

definition upstreamSetName :: string where "upstreamSetName = ''upstreams''"
definition pinMapName :: string where "pinMapName = ''pinmark''"
definition peerSetName :: string where "peerSetName = ''authorized_peers''"
definition nftTable :: string where "nftTable = ''lotsman''"

definition iifInUps :: "nft_expr list" where "iifInUps = [Meta IIFNAME False, Lookup upstreamSetName False]"
definition oifInUps :: "nft_expr list" where "oifInUps = [Meta OIFNAME False, Lookup upstreamSetName False]"

definition peerInSet :: "nat \<Rightarrow> nft_expr list" where
  "peerInSet offset = [Meta NFPROTO False, Cmp CmpEq [2], Payload NetworkHeader offset 4, Lookup peerSetName False]"

section \<open>Messages\<close>

datatype nft_hook = HookForward | HookPostrouting | HookPrerouting | HookOther
datatype nft_family = NftINet | NftIPv4 | NftOther
datatype chain_type = ChainFilter | ChainNAT
datatype chain_priority = PrioFilter | PrioNATSource | PrioMangle

record base_chain =
  bc_name :: string
  bc_type :: chain_type
  bc_hook :: nft_hook
  bc_priority :: chain_priority

record nft_chain =
  nc_table :: string
  nc_family :: nft_family
  nc_name :: string
  nc_hook :: "nft_hook option"

record nft_rule =
  nr_chain :: nft_chain
  nr_handle :: nat
  nr_comment :: "string option"
  nr_exprs :: "nft_expr list"

type_synonym set_elems = "(u8 list \<times> u8 list) list"

datatype nft_msg =
    MDelTable
  | MAddTable
  | MAddSet string set_elems
  | MAddElems string set_elems
  | MDelElems string set_elems
  | MFlushSet string
  | MAddChain base_chain
  | MAddRule string "nft_expr list"
  | MInsertRule nft_chain "nft_expr list" string
  | MDelRule nft_rule

definition upstreamElements :: "string list \<Rightarrow> set_elems" where
  "upstreamElements ups = map (\<lambda>n. (ifname n, [])) ups"

definition pinElements :: "(u32 \<Rightarrow> u8 list) \<Rightarrow> (string \<times> int) list \<Rightarrow> string list \<Rightarrow> set_elems" where
  "pinElements native tables ups = map (\<lambda>n. (ifname n, native (of_int (mget tables n 0)))) ups"

definition forward_rules :: "(u32 \<Rightarrow> u8 list) \<Rightarrow> string \<Rightarrow> nft_expr list list" where
  "forward_rules native down =
     [iifIs down @ oifInUps @ tcpSyn @ clampMSS,
      iifIs down @ oifInUps @ peerInSet 12 @ accepting,
      iifInUps @ oifIs down @ peerInSet 16 @ ctEstablished native @ accepting,
      iifIs down @ dropping,
      iifInUps @ dropping]"

definition install_messages :: "(u32 \<Rightarrow> u8 list) \<Rightarrow> string \<Rightarrow> (string \<times> int) list \<Rightarrow> string list \<Rightarrow> nft_msg list" where
  "install_messages native down tables ups =
     [MAddTable,
      MAddSet peerSetName [],
      MAddSet upstreamSetName (upstreamElements ups),
      MAddSet pinMapName (pinElements native tables ups),
      MAddChain \<lparr>bc_name = ''forward'', bc_type = ChainFilter, bc_hook = HookForward, bc_priority = PrioFilter\<rparr>,
      MAddChain \<lparr>bc_name = ''postrouting'', bc_type = ChainNAT, bc_hook = HookPostrouting, bc_priority = PrioNATSource\<rparr>,
      MAddChain \<lparr>bc_name = ''restore_mark'', bc_type = ChainFilter, bc_hook = HookPrerouting, bc_priority = PrioMangle\<rparr>,
      MAddChain \<lparr>bc_name = ''stamp_mark'', bc_type = ChainFilter, bc_hook = HookPostrouting, bc_priority = PrioMangle\<rparr>] @
     map (MAddRule ''forward'') (forward_rules native down) @
     [MAddRule ''postrouting'' (oifInUps @ [Masq]),
      MAddRule ''restore_mark'' (iifIs down @ [Ct CtMARK False, Cmp CmpNeq [0, 0, 0, 0], Meta MARK True]),
      MAddRule ''stamp_mark''
        (iifIs down @ [Ct CtMARK False, Cmp CmpEq [0, 0, 0, 0], Meta OIFNAME False, Lookup pinMapName True, Ct CtMARK True])]"

definition upstream_set_messages :: "(u32 \<Rightarrow> u8 list) \<Rightarrow> (string \<times> int) list \<Rightarrow> string list \<Rightarrow> nft_msg list" where
  "upstream_set_messages native tables ups =
     [MFlushSet upstreamSetName, MFlushSet pinMapName] @
     (if length ups > 0 then
        [MAddElems upstreamSetName (upstreamElements ups), MAddElems pinMapName (pinElements native tables ups)] else [])"

definition authorize_message :: "addr \<Rightarrow> bool \<Rightarrow> nft_msg" where
  "authorize_message peer allowed =
     (if allowed then MAddElems peerSetName [(as_slice peer, [])] else MDelElems peerSetName [(as_slice peer, [])])"

definition foreignRuleComment :: string where "foreignRuleComment = ''lotsman''"

definition foreignForwardChains :: "nft_chain list \<Rightarrow> nft_chain list" where
  "foreignForwardChains all =
     filter (\<lambda>ch. \<not> (nc_table ch = nftTable \<or> nc_hook ch \<noteq> Some HookForward) \<and>
                  (nc_family ch = NftIPv4 \<or> nc_family ch = NftINet)) all"

definition open_messages :: "(u32 \<Rightarrow> u8 list) \<Rightarrow> string \<Rightarrow> nft_chain list \<Rightarrow> nft_msg list" where
  "open_messages native down chs =
     concat (map (\<lambda>ch.
       [MInsertRule ch ([Meta IIFNAME False, Cmp CmpEq (map of_char upstreamPrefix)] @
                        [Meta OIFNAME False, Cmp CmpEq (ifname down)] @ ctEstablished native @ accepting) foreignRuleComment,
        MInsertRule ch ([Meta IIFNAME False, Cmp CmpEq (ifname down)] @
                        [Meta OIFNAME False, Cmp CmpEq (map of_char upstreamPrefix)] @ accepting) foreignRuleComment]) chs)"

section \<open>Transactions\<close>

record nft_table =
  tb_sets :: "(string \<times> set_elems) list"
  tb_rules :: "(string \<times> nft_expr list list) list"

definition put_elems :: "set_elems \<Rightarrow> set_elems \<Rightarrow> set_elems" where
  "put_elems es m = fold (\<lambda>(k, v). mput k v) es m"

definition drop_elems :: "set_elems \<Rightarrow> set_elems \<Rightarrow> set_elems" where
  "drop_elems es m = fold (\<lambda>(k, v). mdel k) es m"

fun apply_msg :: "nft_msg \<Rightarrow> nft_table option \<Rightarrow> nft_table option" where
  "apply_msg MDelTable _ = None"
| "apply_msg MAddTable None = Some \<lparr>tb_sets = [], tb_rules = []\<rparr>"
| "apply_msg MAddTable (Some t) = Some t"
| "apply_msg _ None = None"
| "apply_msg (MAddSet s es) (Some t) = Some (t\<lparr>tb_sets := mput s (put_elems es (mget (tb_sets t) s [])) (tb_sets t)\<rparr>)"
| "apply_msg (MAddElems s es) (Some t) = Some (t\<lparr>tb_sets := mput s (put_elems es (mget (tb_sets t) s [])) (tb_sets t)\<rparr>)"
| "apply_msg (MDelElems s es) (Some t) = Some (t\<lparr>tb_sets := mput s (drop_elems es (mget (tb_sets t) s [])) (tb_sets t)\<rparr>)"
| "apply_msg (MFlushSet s) (Some t) = Some (t\<lparr>tb_sets := mput s [] (tb_sets t)\<rparr>)"
| "apply_msg (MAddChain c) (Some t) = Some (t\<lparr>tb_rules := mput (bc_name c) (mget (tb_rules t) (bc_name c) []) (tb_rules t)\<rparr>)"
| "apply_msg (MAddRule c es) (Some t) = Some (t\<lparr>tb_rules := mput c (mget (tb_rules t) c [] @ [es]) (tb_rules t)\<rparr>)"
| "apply_msg (MInsertRule _ _ _) (Some t) = Some t"
| "apply_msg (MDelRule _) (Some t) = Some t"

definition apply_msgs :: "nft_msg list \<Rightarrow> nft_table option \<Rightarrow> nft_table option" where
  "apply_msgs = fold apply_msg"

definition set_of :: "nft_table option \<Rightarrow> string \<Rightarrow> set_elems" where
  "set_of t s = (case t of None \<Rightarrow> [] | Some t \<Rightarrow> mget (tb_sets t) s [])"

definition rules_of :: "nft_table option \<Rightarrow> string \<Rightarrow> nft_expr list list" where
  "rules_of t c = (case t of None \<Rightarrow> [] | Some t \<Rightarrow> mget (tb_rules t) c [])"

section \<open>Packets\<close>

record packet =
  pk_iif :: "u8 list"
  pk_oif :: "u8 list"
  pk_nfproto :: u8
  pk_l4proto :: u8
  pk_network :: "u8 list"
  pk_transport :: "u8 list"
  pk_ct_state :: "u8 list"
  pk_ct_mark :: "u8 list"
  pk_mark :: "u8 list"

datatype outcome = NoVerdict | Accepted | Dropped

fun meta_value :: "meta_key \<Rightarrow> packet \<Rightarrow> u8 list" where
  "meta_value IIFNAME p = pk_iif p"
| "meta_value OIFNAME p = pk_oif p"
| "meta_value NFPROTO p = [pk_nfproto p]"
| "meta_value L4PROTO p = [pk_l4proto p]"
| "meta_value MARK p = pk_mark p"

fun payload_of :: "payload_base \<Rightarrow> packet \<Rightarrow> u8 list" where
  "payload_of NetworkHeader p = pk_network p"
| "payload_of TransportHeader p = pk_transport p"

definition mask_bytes :: "u8 list \<Rightarrow> u8 list \<Rightarrow> u8 list \<Rightarrow> u8 list" where
  "mask_bytes m x reg = map2 (\<lambda>a (b, c). (a AND b) XOR c) reg (zip m x)"

text \<open>One rule on a packet, the register threaded through; only \<open>filter\<close> verdicts are an outcome.\<close>

fun eval_rule :: "nft_table option \<Rightarrow> packet \<Rightarrow> u8 list \<Rightarrow> nft_expr list \<Rightarrow> outcome" where
  "eval_rule t p reg [] = NoVerdict"
| "eval_rule t p reg (Meta k sets # es) = eval_rule t p (if sets then reg else meta_value k p) es"
| "eval_rule t p reg (Cmp CmpEq d # es) = (if take (length d) reg = d then eval_rule t p reg es else NoVerdict)"
| "eval_rule t p reg (Cmp CmpNeq d # es) = (if take (length d) reg \<noteq> d then eval_rule t p reg es else NoVerdict)"
| "eval_rule t p reg (Payload b off n # es) =
     (if off + n \<le> length (payload_of b p) then eval_rule t p (take n (drop off (payload_of b p))) es else NoVerdict)"
| "eval_rule t p reg (Lookup s mp # es) =
     (case map_of (set_of t s) reg of None \<Rightarrow> NoVerdict | Some v \<Rightarrow> eval_rule t p (if mp then v else reg) es)"
| "eval_rule t p reg (Bitwise m x # es) = eval_rule t p (mask_bytes m x reg) es"
| "eval_rule t p reg (Ct k sets # es) =
     eval_rule t p (if sets then reg else case k of CtMARK \<Rightarrow> pk_ct_mark p | CtSTATE \<Rightarrow> pk_ct_state p) es"
| "eval_rule t p reg (VerdictAccept # es) = Accepted"
| "eval_rule t p reg (VerdictDrop # es) = Dropped"
| "eval_rule t p reg (_ # es) = eval_rule t p reg es"

text \<open>A chain with policy accept.\<close>

fun eval_chain :: "nft_table option \<Rightarrow> packet \<Rightarrow> nft_expr list list \<Rightarrow> bool" where
  "eval_chain t p [] = True"
| "eval_chain t p (r # rs) =
     (case eval_rule t p [] r of NoVerdict \<Rightarrow> eval_chain t p rs | Accepted \<Rightarrow> True | Dropped \<Rightarrow> False)"

definition forwarded_by :: "nft_table option \<Rightarrow> packet \<Rightarrow> bool" where
  "forwarded_by t p \<longleftrightarrow> eval_chain t p (rules_of t ''forward'')"

section \<open>The forward chain\<close>

definition src_of :: "packet \<Rightarrow> u8 list" where "src_of p = take 4 (drop 12 (pk_network p))"
definition dst_of :: "packet \<Rightarrow> u8 list" where "dst_of p = take 4 (drop 16 (pk_network p))"

definition established :: "(u32 \<Rightarrow> u8 list) \<Rightarrow> packet \<Rightarrow> bool" where
  "established native p \<longleftrightarrow> take 4 (mask_bytes (native 6) (native 0) (pk_ct_state p)) \<noteq> [0, 0, 0, 0]"

text \<open>Interface names are padded and the IPv4 header is whole.\<close>

definition packet_ok :: "packet \<Rightarrow> bool" where
  "packet_ok p \<longleftrightarrow> length (pk_iif p) = 16 \<and> length (pk_oif p) = 16 \<and> (pk_nfproto p = 2 \<longrightarrow> 20 \<le> length (pk_network p))"

lemma length_ifname [simp]: "length (ifname n) = 16"
  by (simp add: ifname_def)

lemma map_of_key: "map_of m k \<noteq> None \<longleftrightarrow> k \<in> keys m"
  by (simp add: map_of_eq_None_iff)

lemma eval_clamp:
  "eval_rule t p reg (iifIs down @ oifInUps @ tcpSyn @ clampMSS) = NoVerdict"
  by (simp add: iifIs_def oifInUps_def tcpSyn_def clampMSS_def split: option.split)

lemma eval_out:
  assumes "packet_ok p"
  shows "eval_rule t p reg (iifIs down @ oifInUps @ peerInSet 12 @ accepting) =
    (if pk_iif p = ifname down \<and> pk_oif p \<in> keys (set_of t upstreamSetName) \<and> pk_nfproto p = 2 \<and>
        src_of p \<in> keys (set_of t peerSetName) then Accepted else NoVerdict)"
  using assms
  by (auto simp: iifIs_def oifInUps_def peerInSet_def accepting_def packet_ok_def src_of_def map_of_eq_None_iff
      dest: map_of_SomeD split: option.split) (force dest: map_of_SomeD)+

lemma four: "Suc (Suc (Suc (Suc 0))) = 4" by simp

lemma eval_in:
  assumes "packet_ok p"
  shows "eval_rule t p reg (iifInUps @ oifIs down @ peerInSet 16 @ ctEstablished native @ accepting) =
    (if pk_iif p \<in> keys (set_of t upstreamSetName) \<and> pk_oif p = ifname down \<and> pk_nfproto p = 2 \<and>
        dst_of p \<in> keys (set_of t peerSetName) \<and> established native p then Accepted else NoVerdict)"
  using assms
  by (auto simp: oifIs_def iifInUps_def peerInSet_def ctEstablished_def accepting_def packet_ok_def dst_of_def established_def
      four map_of_eq_None_iff dest: map_of_SomeD split: option.split) (force dest: map_of_SomeD)+

lemma eval_drops:
  "packet_ok p \<Longrightarrow> eval_rule t p reg (iifIs down @ dropping) = (if pk_iif p = ifname down then Dropped else NoVerdict)"
  "eval_rule t p reg (iifInUps @ dropping) = (if pk_iif p \<in> keys (set_of t upstreamSetName) then Dropped else NoVerdict)"
  by (auto simp: iifIs_def iifInUps_def dropping_def packet_ok_def map_of_eq_None_iff dest: map_of_SomeD split: option.split)
    (force dest: map_of_SomeD)+

lemma forward_exact:
  assumes "packet_ok p" and "rules_of t ''forward'' = forward_rules native down" and "ifname down \<notin> keys (set_of t upstreamSetName)"
  shows "forwarded_by t p \<longleftrightarrow>
    (if pk_iif p = ifname down then
       pk_oif p \<in> keys (set_of t upstreamSetName) \<and> pk_nfproto p = 2 \<and> src_of p \<in> keys (set_of t peerSetName)
     else if pk_iif p \<in> keys (set_of t upstreamSetName) then
       pk_oif p = ifname down \<and> pk_nfproto p = 2 \<and> dst_of p \<in> keys (set_of t peerSetName) \<and> established native p
     else True)"
  using assms(3)
  by (simp add: forwarded_by_def assms(2) forward_rules_def eval_clamp eval_out [OF assms(1)] eval_in [OF assms(1)]
      eval_drops(1) [OF assms(1)] eval_drops(2) split: outcome.split)

section \<open>What the transactions leave\<close>

lemma keys_put_elems [simp]: "keys (put_elems es m) = keys m \<union> keys es"
  unfolding put_elems_def
proof (induction es arbitrary: m)
  case (Cons e es)
  then show ?case by (cases e) (simp add: keys_mput)
qed simp

lemma keys_drop_elems [simp]: "keys (drop_elems es m) = keys m - keys es"
  unfolding drop_elems_def
proof (induction es arbitrary: m)
  case (Cons e es)
  then show ?case by (cases e) (simp only: fold_Cons comp_apply prod.case keys_mdel Cons.IH list.set image_insert fst_conv, blast)
qed simp

lemma set_names [simp]:
  "upstreamSetName \<noteq> peerSetName" "peerSetName \<noteq> upstreamSetName" "pinMapName \<noteq> peerSetName" "peerSetName \<noteq> pinMapName"
  "pinMapName \<noteq> upstreamSetName" "upstreamSetName \<noteq> pinMapName"
  by (simp_all add: upstreamSetName_def peerSetName_def pinMapName_def)

lemma keys_upstreamElements [simp]: "keys (upstreamElements ups) = ifname ` set ups"
  by (force simp: upstreamElements_def)

lemma keys_pinElements [simp]: "keys (pinElements native tables ups) = ifname ` set ups"
  by (force simp: pinElements_def)

lemma installed:
  "\<exists>t. apply_msgs (install_messages native down tables ups) None = Some t \<and>
     rules_of (Some t) ''forward'' = forward_rules native down \<and>
     set_of (Some t) peerSetName = [] \<and> keys (set_of (Some t) upstreamSetName) = ifname ` set ups"
  by (simp add: apply_msgs_def install_messages_def forward_rules_def rules_of_def set_of_def mget_def)
    (simp add: put_elems_def)

lemma upstream_sets_updated:
  "\<exists>t'. apply_msgs (upstream_set_messages native tables ups) (Some t) = Some t' \<and>
     rules_of (Some t') c = rules_of (Some t) c \<and> set_of (Some t') peerSetName = set_of (Some t) peerSetName \<and>
     keys (set_of (Some t') upstreamSetName) = ifname ` set ups"
  by (auto simp: apply_msgs_def upstream_set_messages_def rules_of_def set_of_def mget_def)

lemma authorized_updated:
  "\<exists>t'. apply_msg (authorize_message peer allowed) (Some t) = Some t' \<and>
     rules_of (Some t') c = rules_of (Some t) c \<and> set_of (Some t') upstreamSetName = set_of (Some t) upstreamSetName \<and>
     keys (set_of (Some t') peerSetName) =
       (if allowed then insert (as_slice peer) (keys (set_of (Some t) peerSetName))
        else keys (set_of (Some t) peerSetName) - {as_slice peer})"
  by (auto simp: authorize_message_def rules_of_def set_of_def mget_def)

text \<open>Messages that only touch chains of others leave the table alone.\<close>

lemma foreign_messages:
  "(\<And>m. m \<in> set ms \<Longrightarrow> (\<exists>r. m = MDelRule r) \<or> (\<exists>c es s. m = MInsertRule c es s)) \<Longrightarrow> apply_msgs ms t = t"
  unfolding apply_msgs_def
proof (induction ms arbitrary: t)
  case (Cons m ms)
  have "apply_msg m t = t" using Cons.prems [of m] by (cases t) auto
  with Cons show ?case by simp
qed simp

lemma open_messages_foreign: "apply_msgs (open_messages native down chs) t = t"
  by (rule foreign_messages) (auto simp: open_messages_def)

end
