(* ===== verification/Linux_Dataplane.thy ===== *)
theory Linux_Dataplane
  imports Linux_Nft Dataplane
begin

text \<open>
  \<open>internal/dataplane/linux/linux.go\<close>, the operations. What they call in the kernel, through netlink, nftables and
  \<open>/proc/sys\<close>, are the fields of \<open>kernel_api\<close> over a kernel state \<open>'k\<close>; any of them may fail. The state of an
  operation is the \<open>linux_dp\<close> record (the fields of \<open>Dataplane\<close>; \<open>None\<close> is the nil map) with the kernel. Loops over
  a map follow the order of its list.
\<close>

datatype kerr = KExist | KNoEnt | KNoLink | KOther string

record 'k kernel_api =
  ka_sysctl :: "string \<Rightarrow> 'k \<Rightarrow> string option"
  ka_sysctl_set :: "string \<Rightarrow> string \<Rightarrow> 'k \<Rightarrow> kerr option \<times> 'k"
  ka_link :: "string \<Rightarrow> 'k \<Rightarrow> kerr + int"
  ka_links :: "'k \<Rightarrow> kerr + (int \<times> string) list"
  ka_parse_addr :: "string \<Rightarrow> kerr option"
  ka_addr_replace :: "int \<Rightarrow> string \<Rightarrow> 'k \<Rightarrow> kerr option \<times> 'k"
  ka_set_mtu :: "int \<Rightarrow> int \<Rightarrow> 'k \<Rightarrow> kerr option \<times> 'k"
  ka_set_up :: "int \<Rightarrow> 'k \<Rightarrow> kerr option \<times> 'k"
  ka_set_down :: "int \<Rightarrow> 'k \<Rightarrow> kerr option \<times> 'k"
  ka_rules :: "'k \<Rightarrow> kerr + ip_rule list"
  ka_rule_add :: "ip_rule \<Rightarrow> 'k \<Rightarrow> kerr option \<times> 'k"
  ka_rule_del :: "ip_rule \<Rightarrow> 'k \<Rightarrow> kerr option \<times> 'k"
  ka_routes :: "'k \<Rightarrow> kerr + route list"
  ka_route_add :: "route \<Rightarrow> 'k \<Rightarrow> kerr option \<times> 'k"
  ka_route_del :: "route \<Rightarrow> 'k \<Rightarrow> kerr option \<times> 'k"
  ka_chains :: "'k \<Rightarrow> kerr + nft_chain list"
  ka_chain_rules :: "nft_chain \<Rightarrow> 'k \<Rightarrow> kerr + nft_rule list"
  ka_get_set :: "string \<Rightarrow> 'k \<Rightarrow> kerr option"
  ka_flush :: "nft_msg list \<Rightarrow> 'k \<Rightarrow> kerr option \<times> 'k"
  ka_native :: "u32 \<Rightarrow> u8 list"

datatype lin_error =
    Kernel kerr
  | UnknownLinuxUpstream string
  | NoFreeTable
  | DifferentRoute
  | AmbiguousProbe int
  | NilMapPanic
  | Joined "lin_error list"

record linux_dp =
  lx_down :: string
  lx_tables :: "(string \<times> int) list"
  lx_alive :: "(string \<times> bool) list"
  lx_allowed :: "(addr \<times> bool) list option"

type_synonym 'k lin_state = "linux_dp \<times> 'k"
type_synonym 'k lin_result = "lin_error option \<times> 'k lin_state"

definition linux_new :: linux_dp where
  "linux_new = \<lparr>lx_down = [], lx_tables = [], lx_alive = [], lx_allowed = None\<rparr>"

section \<open>Sequencing\<close>

text \<open>\<open>if err := a; err != nil { return err }; b\<close>, and the loop that returns the first error.\<close>

definition andThen :: "'e option \<times> 's \<Rightarrow> ('s \<Rightarrow> 'e option \<times> 's) \<Rightarrow> 'e option \<times> 's" where
  "andThen a f = (case a of (Some e, s) \<Rightarrow> (Some e, s) | (None, s) \<Rightarrow> f s)"

fun each :: "('a \<Rightarrow> 's \<Rightarrow> 'e option \<times> 's) \<Rightarrow> 'a list \<Rightarrow> 's \<Rightarrow> 'e option \<times> 's" where
  "each f [] s = (None, s)"
| "each f (x # xs) s = andThen (f x s) (each f xs)"

definition kern :: "('k \<Rightarrow> kerr option \<times> 'k) \<Rightarrow> 'k lin_state \<Rightarrow> 'k lin_result" where
  "kern f st = (let (r, k) = f (snd st) in (map_option Kernel r, (fst st, k)))"

text \<open>\<open>err != nil && !errors.Is(err, os.ErrExist)\<close>.\<close>

definition unless_exists :: "('k \<Rightarrow> kerr option \<times> 'k) \<Rightarrow> 'k \<Rightarrow> kerr option \<times> 'k" where
  "unless_exists f k = (case f k of (Some KExist, k') \<Rightarrow> (None, k') | res \<Rightarrow> res)"

text \<open>\<open>Conn.Flush\<close>: nothing to do without messages.\<close>

definition flush :: "'k kernel_api \<Rightarrow> nft_msg list \<Rightarrow> 'k \<Rightarrow> kerr option \<times> 'k" where
  "flush api msgs k = (if msgs = [] then (None, k) else ka_flush api msgs k)"

section \<open>Links\<close>

definition sysctl :: "'k kernel_api \<Rightarrow> string \<Rightarrow> string \<Rightarrow> 'k \<Rightarrow> kerr option \<times> 'k" where
  "sysctl api key value k =
     (let path = ''/proc/sys/'' @ key
      in case ka_sysctl api path k of
           Some current \<Rightarrow> if trim_space current = value then (None, k) else ka_sysctl_set api path value k
         | None \<Rightarrow> ka_sysctl_set api path value k)"

definition configureLink :: "'k kernel_api \<Rightarrow> dp_iface \<Rightarrow> int \<Rightarrow> 'k \<Rightarrow> kerr option \<times> 'k" where
  "configureLink api iface mtu k =
     (case ka_link api (di_name iface) k of
        Inl e \<Rightarrow> (Some e, k)
      | Inr link \<Rightarrow>
     (case ka_parse_addr api (show_prefix (di_addr iface)) of
        Some e \<Rightarrow> (Some e, k)
      | None \<Rightarrow>
          andThen (ka_addr_replace api link (show_prefix (di_addr iface)) k) (\<lambda>k.
          andThen (if mtu \<noteq> 0 then ka_set_mtu api link mtu k else (None, k)) (\<lambda>k.
          andThen (ka_set_up api link k)
            (sysctl api (''net/ipv4/conf/'' @ di_name iface @ ''/rp_filter'') ''2'')))))"

definition rangeRoutes :: "'k kernel_api \<Rightarrow> int \<Rightarrow> 'k \<Rightarrow> kerr + route list" where
  "rangeRoutes api table k =
     rmap (filter (\<lambda>r. rt_table r \<ge> tableBase \<and> rt_table r < tableLimit \<and> (table = 0 \<or> rt_table r = table))) (ka_routes api k)"

definition default_route :: "int \<Rightarrow> int \<Rightarrow> route" where
  "default_route link table =
     \<lparr>rt_link = link, rt_table = table, rt_dst = Some \<lparr>net_ip = [0, 0, 0, 0], net_mask = [0, 0, 0, 0]\<rparr>, rt_gw = [],
      rt_more = [(''scope'', ''link'')]\<rparr>"

definition addDefaultRoute :: "'k kernel_api \<Rightarrow> int \<Rightarrow> int \<Rightarrow> 'k lin_state \<Rightarrow> 'k lin_result" where
  "addDefaultRoute api link table st =
     (let (r, k) = ka_route_add api (default_route link table) (snd st)
      in if r \<noteq> Some KExist then (map_option Kernel r, (fst st, k))
         else case rangeRoutes api table k of
                Inl e \<Rightarrow> (Some (Kernel e), (fst st, k))
              | Inr routes \<Rightarrow>
                  if length routes = 1 \<and> rt_link (hd routes) = link \<and> isDefault (hd routes) then (None, (fst st, k))
                  else (Some DifferentRoute, (fst st, k)))"

definition allocateTable :: "'k kernel_api \<Rightarrow> 'k lin_state \<Rightarrow> lin_error + int" where
  "allocateTable api st =
     (case rangeRoutes api 0 (snd st) of
        Inl e \<Rightarrow> Inl (Kernel e)
      | Inr routes \<Rightarrow>
     (case ka_rules api (snd st) of
        Inl e \<Rightarrow> Inl (Kernel e)
      | Inr rules \<Rightarrow>
          (case allocate_from (lx_tables (fst st)) routes rules tableBase of
             None \<Rightarrow> Inl NoFreeTable
           | Some t \<Rightarrow> Inr t)))"

definition addRule :: "'k kernel_api \<Rightarrow> addr \<Rightarrow> int \<Rightarrow> int \<Rightarrow> 'k \<Rightarrow> kerr option \<times> 'k" where
  "addRule api src table priority = unless_exists (ka_rule_add api (peer_rule src table priority))"

definition addPinRule :: "'k kernel_api \<Rightarrow> addr \<Rightarrow> int \<Rightarrow> 'k \<Rightarrow> kerr option \<times> 'k" where
  "addPinRule api peer table = unless_exists (ka_rule_add api (pin_rule peer table))"

text \<open>The table of an upstream, allocated when it is new.\<close>

definition tableFor :: "'k kernel_api \<Rightarrow> string \<Rightarrow> 'k lin_state \<Rightarrow> (lin_error + int) \<times> 'k lin_state" where
  "tableFor api name st =
     (case map_of (lx_tables (fst st)) name of
        Some t \<Rightarrow> (Inr t, st)
      | None \<Rightarrow>
          (case allocateTable api st of
             Inl e \<Rightarrow> (Inl e, st)
           | Inr t \<Rightarrow> (Inr t, ((fst st)\<lparr>lx_tables := mput name t (lx_tables (fst st))\<rparr>, snd st))))"

definition addUpstream :: "'k kernel_api \<Rightarrow> dp_iface \<Rightarrow> 'k lin_state \<Rightarrow> 'k lin_result" where
  "addUpstream api up st =
     andThen (kern (configureLink api up 0) st) (\<lambda>st.
       case tableFor api (di_name up) st of
         (Inl e, st) \<Rightarrow> (Some e, st)
       | (Inr table, st) \<Rightarrow>
           (case ka_link api (di_name up) (snd st) of
              Inl e \<Rightarrow> (Some (Kernel e), st)
            | Inr link \<Rightarrow>
                andThen (addDefaultRoute api link table st)
                  (kern (unless_exists (ka_rule_add api (probe_rule (paddr (di_addr up)) table (di_name up)))))))"

section \<open>Lotsman's rules\<close>

definition ownRules :: "'k kernel_api \<Rightarrow> 'k lin_state \<Rightarrow> lin_error + ip_rule list" where
  "ownRules api st =
     (case ka_rules api (snd st) of
        Inl e \<Rightarrow> Inl (Kernel e)
      | Inr all \<Rightarrow>
          (let own = filter (\<lambda>r. let upstream = interfaceOfTable (lx_tables (fst st)) (rl_table r)
                             in ours r \<and> upstream \<noteq> [] \<and> (rl_oif r = [] \<or> rl_oif r = upstream)) all
           in case find (\<lambda>r. probeDeletionAmbiguous r all) own of
                Some r \<Rightarrow> Inl (AmbiguousProbe (rl_table r))
              | None \<Rightarrow> Inr own))"

definition rulesFor :: "'k kernel_api \<Rightarrow> addr \<Rightarrow> 'k lin_state \<Rightarrow> lin_error + ip_rule list" where
  "rulesFor api peer st =
     rmap (filter (\<lambda>r. (rl_priority r = peerRulePriority \<or> rl_priority r = pinRulePriority) \<and>
                       (case rl_src r of None \<Rightarrow> False | Some src \<Rightarrow> ip_equal (net_ip src) (as_slice peer)))) (ownRules api st)"

definition delRule :: "'k kernel_api \<Rightarrow> ip_rule \<Rightarrow> 'k lin_state \<Rightarrow> 'k lin_result" where
  "delRule api r = kern (ka_rule_del api r)"

definition flushTable :: "'k kernel_api \<Rightarrow> int \<Rightarrow> 'k lin_state \<Rightarrow> 'k lin_result" where
  "flushTable api table st =
     (case rangeRoutes api table (snd st) of
        Inl e \<Rightarrow> (Some (Kernel e), st)
      | Inr routes \<Rightarrow>
     (case ka_links api (snd st) of
        Inl e \<Rightarrow> (Some (Kernel e), st)
      | Inr names \<Rightarrow>
          each (\<lambda>r. kern (ka_route_del api r)) (filter (\<lambda>r. ourRoute r names) routes) st))"

definition removeUpstream :: "'k kernel_api \<Rightarrow> string \<Rightarrow> 'k lin_state \<Rightarrow> 'k lin_result" where
  "removeUpstream api name st =
     (let table = mget (lx_tables (fst st)) name 0
      in case ownRules api st of
           Inl e \<Rightarrow> (Some e, st)
         | Inr rules \<Rightarrow>
             andThen (each (delRule api) (filter (\<lambda>r. rl_table r = table) rules) st) (\<lambda>st.
             andThen (flushTable api table st) (\<lambda>(d, k).
               (None, (d\<lparr>lx_tables := mdel name (lx_tables d), lx_alive := mdel name (lx_alive d)\<rparr>, k)))))"

text \<open>Everything of Lotsman's shape, whatever instance made it.\<close>

definition removeLeftovers :: "'k kernel_api \<Rightarrow> 'k lin_state \<Rightarrow> 'k lin_result" where
  "removeLeftovers api st =
     (case rangeRoutes api 0 (snd st) of
        Inl e \<Rightarrow> (Some (Kernel e), st)
      | Inr routes \<Rightarrow>
     (case ka_links api (snd st) of
        Inl e \<Rightarrow> (Some (Kernel e), st)
      | Inr names \<Rightarrow>
     (case ka_rules api (snd st) of
        Inl e \<Rightarrow> (Some (Kernel e), st)
      | Inr rules \<Rightarrow>
          (let owned = filter (\<lambda>r. ours r \<and> ownedTable (rl_table r) routes names \<and> probeTableMatches r routes names) rules
           in case find (\<lambda>r. probeDeletionAmbiguous r rules) owned of
                Some r \<Rightarrow> (Some (AmbiguousProbe (rl_table r)), st)
              | None \<Rightarrow>
                  andThen (each (delRule api) owned st)
                    (each (\<lambda>r. kern (ka_route_del api r)) (filter (\<lambda>r. ownedTable (rt_table r) routes names) routes))))))"

section \<open>Authorization\<close>

definition authorize :: "'k kernel_api \<Rightarrow> addr \<Rightarrow> bool \<Rightarrow> 'k lin_state \<Rightarrow> 'k lin_result" where
  "authorize api peer allowed st =
     (let known = (case lx_allowed (fst st) of None \<Rightarrow> [] | Some m \<Rightarrow> m)
      in if mget known peer False = allowed then (None, st)
         else
           (let (r, k) = flush api [authorize_message peer allowed] (snd st)
            in case r of
                 Some e \<Rightarrow> (Some (Kernel e), (fst st, k))
               | None \<Rightarrow>
                   if allowed then
                     (case lx_allowed (fst st) of
                        None \<Rightarrow> (Some NilMapPanic, (fst st, k))
                      | Some m \<Rightarrow> (None, ((fst st)\<lparr>lx_allowed := Some (mput peer True m)\<rparr>, k)))
                   else (None, ((fst st)\<lparr>lx_allowed := map_option (mdel peer) (lx_allowed (fst st))\<rparr>, k))))"

section \<open>Route and Unroute\<close>

text \<open>The first loop of \<open>Route\<close>: \<open>Inr None\<close> when the peer has a plain rule to the table already, otherwise the plain rules to
  other tables.\<close>

fun routeScan ::
  "'k kernel_api \<Rightarrow> int \<Rightarrow> ip_rule list \<Rightarrow> ip_rule list \<Rightarrow> 'k lin_state \<Rightarrow>
   (lin_error + ip_rule list option) \<times> 'k lin_state" where
  "routeScan api table [] old st = (Inr (Some old), st)"
| "routeScan api table (r # rs) old st =
     (if rl_priority r = peerRulePriority \<and> rl_table r = table then (Inr None, st)
      else if rl_priority r = peerRulePriority then routeScan api table rs (old @ [r]) st
      else if rl_priority r = pinRulePriority \<and> rl_table r = table then
        (case delRule api r st of (Some e, st) \<Rightarrow> (Inl e, st) | (None, st) \<Rightarrow> routeScan api table rs old st)
      else routeScan api table rs old st)"

definition pinOld :: "'k kernel_api \<Rightarrow> addr \<Rightarrow> ip_rule \<Rightarrow> 'k lin_state \<Rightarrow> 'k lin_result" where
  "pinOld api peer r st =
     (if mget (lx_alive (fst st)) (interfaceOfTable (lx_tables (fst st)) (rl_table r)) False
      then kern (addPinRule api peer (rl_table r)) st else (None, st))"

definition linux_route :: "'k kernel_api \<Rightarrow> addr \<Rightarrow> string \<Rightarrow> 'k lin_state \<Rightarrow> 'k lin_result" where
  "linux_route api peer upstream st =
     (case map_of (lx_tables (fst st)) upstream of
        None \<Rightarrow> (Some (UnknownLinuxUpstream upstream), st)
      | Some table \<Rightarrow>
     (case rulesFor api peer st of
        Inl e \<Rightarrow> (Some e, st)
      | Inr rules \<Rightarrow>
     (case routeScan api table rules [] st of
        (Inl e, st) \<Rightarrow> (Some e, st)
      | (Inr None, st) \<Rightarrow> authorize api peer True st
      | (Inr (Some old), st) \<Rightarrow>
          andThen (each (pinOld api peer) old st) (\<lambda>st.
          andThen (kern (addRule api peer table peerRulePriority) st) (\<lambda>st.
          andThen (each (delRule api) old st)
            (authorize api peer True))))))"

definition linux_unroute :: "'k kernel_api \<Rightarrow> addr \<Rightarrow> 'k lin_state \<Rightarrow> 'k lin_result" where
  "linux_unroute api peer st =
     andThen (authorize api peer False st) (\<lambda>st.
       case rulesFor api peer st of
         Inl e \<Rightarrow> (Some e, st)
       | Inr rules \<Rightarrow> each (delRule api) rules st)"

definition linux_set_alive :: "'k kernel_api \<Rightarrow> string \<Rightarrow> bool \<Rightarrow> 'k lin_state \<Rightarrow> 'k lin_result" where
  "linux_set_alive api upstream alive st =
     (case map_of (lx_tables (fst st)) upstream of
        None \<Rightarrow> (Some (UnknownLinuxUpstream upstream), st)
      | Some table \<Rightarrow>
          (let st1 = ((fst st)\<lparr>lx_alive := mput upstream alive (lx_alive (fst st))\<rparr>, snd st)
           in if alive then (None, st1)
              else case ownRules api st1 of
                     Inl e \<Rightarrow> (Some e, st1)
                   | Inr all \<Rightarrow>
                       each (delRule api) (filter (\<lambda>r. rl_priority r = pinRulePriority \<and> rl_table r = table) all) st1))"

section \<open>Foreign chains\<close>

text \<open>The \<open>DelRule\<close> messages for the commented rules of each chain; an error leaves what was collected in the connection.\<close>

fun closeCollect :: "'k kernel_api \<Rightarrow> nft_chain list \<Rightarrow> 'k \<Rightarrow> kerr option \<times> nft_msg list" where
  "closeCollect api [] k = (None, [])"
| "closeCollect api (ch # chs) k =
     (case ka_chain_rules api ch k of
        Inl e \<Rightarrow> (Some e, [])
      | Inr rules \<Rightarrow>
          (let (r, msgs) = closeCollect api chs k
           in (r, map MDelRule (filter (\<lambda>r. nr_comment r = Some foreignRuleComment) rules) @ msgs)))"

text \<open>The result, the messages still in the connection and the kernel.\<close>

definition closeForeignForwardChains :: "'k kernel_api \<Rightarrow> 'k \<Rightarrow> kerr option \<times> nft_msg list \<times> 'k" where
  "closeForeignForwardChains api k =
     (case ka_chains api k of
        Inl e \<Rightarrow> (Some e, [], k)
      | Inr all \<Rightarrow>
          (case closeCollect api (foreignForwardChains all) k of
             (Some e, msgs) \<Rightarrow> (Some e, msgs, k)
           | (None, msgs) \<Rightarrow> (let (r, k') = flush api msgs k in (r, [], k'))))"

definition openForeignForwardChains :: "'k kernel_api \<Rightarrow> string \<Rightarrow> 'k \<Rightarrow> kerr option \<times> 'k" where
  "openForeignForwardChains api down k =
     (case ka_chains api k of
        Inl e \<Rightarrow> (Some e, k)
      | Inr all \<Rightarrow> flush api (open_messages (ka_native api) down (foreignForwardChains all)) k)"

section \<open>The firewall\<close>

text \<open>\<open>unix.ENOENT\<close> from the deletion of a table means there was none.\<close>

definition dropTable :: "'k kernel_api \<Rightarrow> nft_msg list \<Rightarrow> 'k \<Rightarrow> kerr option \<times> 'k" where
  "dropTable api pending k =
     (case flush api (pending @ [MDelTable]) k of (Some KNoEnt, k') \<Rightarrow> (None, k') | res \<Rightarrow> res)"

definition installFirewall :: "'k kernel_api \<Rightarrow> string \<Rightarrow> string list \<Rightarrow> 'k lin_state \<Rightarrow> 'k lin_result" where
  "installFirewall api down ups st =
     (case closeForeignForwardChains api (snd st) of
        (Some e, _, k) \<Rightarrow> (Some (Kernel e), (fst st, k))
      | (None, pending, k) \<Rightarrow>
          andThen (kern (dropTable api pending) (fst st, k)) (\<lambda>st.
          andThen (kern (flush api (install_messages (ka_native api) down (lx_tables (fst st)) ups)) st) (\<lambda>(d, k).
            kern (openForeignForwardChains api down) (d\<lparr>lx_allowed := Some []\<rparr>, k))))"

definition setUpstreamSets :: "'k kernel_api \<Rightarrow> string list \<Rightarrow> 'k lin_state \<Rightarrow> 'k lin_result" where
  "setUpstreamSets api ups st =
     (case ka_get_set api upstreamSetName (snd st) of
        Some e \<Rightarrow> (Some (Kernel e), st)
      | None \<Rightarrow>
     (case ka_get_set api pinMapName (snd st) of
        Some e \<Rightarrow> (Some (Kernel e), st)
      | None \<Rightarrow> kern (flush api (upstream_set_messages (ka_native api) (lx_tables (fst st)) ups)) st))"

section \<open>Setup, SetUpstreams, Teardown\<close>

definition linux_setup :: "'k kernel_api \<Rightarrow> dp_iface \<Rightarrow> dp_iface list \<Rightarrow> int \<Rightarrow> 'k lin_state \<Rightarrow> 'k lin_result" where
  "linux_setup api down ups mtu st =
     andThen (kern (sysctl api ''net/ipv4/ip_forward'' ''1'') st) (\<lambda>(d, k).
     andThen (kern (configureLink api down mtu) (d\<lparr>lx_down := di_name down\<rparr>, k)) (\<lambda>(d, k).
     andThen (removeLeftovers api (d\<lparr>lx_tables := [], lx_alive := []\<rparr>, k)) (\<lambda>st.
     andThen (each (addUpstream api) ups st)
       (installFirewall api (di_name down) (map di_name ups)))))"

definition linux_set_upstreams :: "'k kernel_api \<Rightarrow> dp_iface list \<Rightarrow> int \<Rightarrow> 'k lin_state \<Rightarrow> 'k lin_result" where
  "linux_set_upstreams api ups mtu st =
     (case ka_link api (lx_down (fst st)) (snd st) of
        Inl e \<Rightarrow> (Some (Kernel e), st)
      | Inr link \<Rightarrow>
          andThen (kern (ka_set_mtu api link mtu) st) (\<lambda>st.
          andThen (each (addUpstream api) ups st) (\<lambda>st.
          andThen (each (\<lambda>name st. if name \<notin> di_name ` set ups then removeUpstream api name st else (None, st))
                     (map fst (lx_tables (fst st))) st)
            (setUpstreamSets api (map di_name ups)))))"

text \<open>A loop that goes on after an error and joins them.\<close>

fun each_joined :: "('a \<Rightarrow> 's \<Rightarrow> 'e option \<times> 's) \<Rightarrow> 'a list \<Rightarrow> 's \<Rightarrow> 'e list \<times> 's" where
  "each_joined f [] s = ([], s)"
| "each_joined f (x # xs) s =
     (let (r, s1) = f x s; (es, s2) = each_joined f xs s1 in ((case r of None \<Rightarrow> [] | Some e \<Rightarrow> [e]) @ es, s2))"

definition stopIngress :: "'k kernel_api \<Rightarrow> 'k lin_state \<Rightarrow> 'k lin_result" where
  "stopIngress api st =
     (if lx_down (fst st) = [] then (None, st)
      else case ka_link api (lx_down (fst st)) (snd st) of
             Inl KNoLink \<Rightarrow> (None, st)
           | Inl e \<Rightarrow> (Some (Kernel e), st)
           | Inr link \<Rightarrow> kern (ka_set_down api link) st)"

definition linux_teardown :: "'k kernel_api \<Rightarrow> 'k lin_state \<Rightarrow> 'k lin_result" where
  "linux_teardown api st =
     andThen (stopIngress api st) (\<lambda>st.
       case ownRules api st of
         Inl e \<Rightarrow> (Some e, st)
       | Inr rules \<Rightarrow>
           (let (e1, st1) = each_joined (delRule api) rules st;
                (e2, st2) = each_joined (flushTable api) (map snd (lx_tables (fst st1))) st1;
                (r3, pending, k3) = closeForeignForwardChains api (snd st2);
                e3 = (case r3 of None \<Rightarrow> [] | Some e \<Rightarrow> [Kernel e]);
                (r4, k4) = dropTable api pending k3;
                e4 = (case r4 of None \<Rightarrow> [] | Some e \<Rightarrow> [Kernel e]);
                es = e1 @ e2 @ e3 @ e4
            in (if es = [] then None else Some (Joined es), (fst st2, k4))))"

definition linux_ops :: "'k kernel_api \<Rightarrow> ('k lin_state, lin_error) dataplane" where
  "linux_ops api = \<lparr>dp_setup = linux_setup api, dp_set_upstreams = linux_set_upstreams api, dp_route = linux_route api,
     dp_unroute = linux_unroute api, dp_set_alive = linux_set_alive api, dp_teardown = linux_teardown api\<rparr>"

end
