(* ===== verification/Linux_Safety.thy ===== *)
theory Linux_Safety
  imports Linux_Dataplane
begin

text \<open>
  The Linux dataplane over any kernel that keeps the documented laws of nftables transactions: what the firewall holds after each
  operation, whatever the kernel refuses. \<open>tbl\<close> is the kernel's \<open>lotsman\<close> table. Only \<open>authorize\<close> changes the set of admitted peers,
  only the operations on the whole table change its chains.
\<close>

locale kernel_laws =
  fixes api :: "'k kernel_api" and tbl :: "'k \<Rightarrow> nft_table option"
  assumes flush_ok: "ka_flush api ms k = (None, k') \<Longrightarrow> tbl k' = apply_msgs ms (tbl k)"
    and flush_failed: "ka_flush api ms k = (Some e, k') \<Longrightarrow> tbl k' = tbl k"
    and no_table: "ka_flush api [MDelTable] k = (Some KNoEnt, k') \<Longrightarrow> tbl k = None"
    and sysctl_tbl: "ka_sysctl_set api path v k = (r, k') \<Longrightarrow> tbl k' = tbl k"
    and addr_tbl: "ka_addr_replace api l a k = (r, k') \<Longrightarrow> tbl k' = tbl k"
    and mtu_tbl: "ka_set_mtu api l m k = (r, k') \<Longrightarrow> tbl k' = tbl k"
    and up_tbl: "ka_set_up api l k = (r, k') \<Longrightarrow> tbl k' = tbl k"
    and down_tbl: "ka_set_down api l k = (r, k') \<Longrightarrow> tbl k' = tbl k"
    and rule_add_tbl: "ka_rule_add api rl k = (r, k') \<Longrightarrow> tbl k' = tbl k"
    and rule_del_tbl: "ka_rule_del api rl k = (r, k') \<Longrightarrow> tbl k' = tbl k"
    and route_add_tbl: "ka_route_add api rt k = (r, k') \<Longrightarrow> tbl k' = tbl k"
    and route_del_tbl: "ka_route_del api rt k = (r, k') \<Longrightarrow> tbl k' = tbl k"

section \<open>Properties of states along an operation\<close>

lemma andThen_inv: "P (snd a) \<Longrightarrow> (\<And>s. P s \<Longrightarrow> P (snd (f s))) \<Longrightarrow> P (snd (andThen a f))"
  by (auto simp: andThen_def split: prod.split option.split)

lemma andThen_None: "andThen a f = (None, s') \<longleftrightarrow> (\<exists>s. a = (None, s) \<and> f s = (None, s'))"
  by (auto simp: andThen_def split: prod.split option.split)

lemma kern_None: "kern f st = (None, st') \<longleftrightarrow> (\<exists>k. f (snd st) = (None, k) \<and> st' = (fst st, k))"
  by (auto simp: kern_def split: prod.split)

lemma each_inv: "P s \<Longrightarrow> (\<And>x s. x \<in> set xs \<Longrightarrow> P s \<Longrightarrow> P (snd (f x s))) \<Longrightarrow> P (snd (each f xs s))"
proof (induction xs arbitrary: s)
  case (Cons x xs)
  show ?case unfolding each.simps
  proof (rule andThen_inv [where P = P])
    show "P (snd (f x s))" using Cons.prems by simp
    fix s1 assume "P s1"
    then show "P (snd (each f xs s1))" using Cons.prems(2) by (intro Cons.IH) simp_all
  qed
qed simp

lemma each_joined_inv: "P s \<Longrightarrow> (\<And>x s. x \<in> set xs \<Longrightarrow> P s \<Longrightarrow> P (snd (f x s))) \<Longrightarrow> P (snd (each_joined f xs s))"
proof (induction xs arbitrary: s)
  case (Cons x xs)
  have "P (snd (each_joined f xs (snd (f x s))))" by (rule Cons.IH) (simp_all add: Cons.prems)
  then show ?case by (cases "f x s"; cases "each_joined f xs (snd (f x s))") simp
qed simp

text \<open>\<open>kernel_only T\<close>: the part of the state that decides who is admitted.\<close>

definition gate :: "('k \<Rightarrow> nft_table option) \<Rightarrow> nft_table option \<Rightarrow> (addr \<times> bool) list option \<Rightarrow> 'k lin_state \<Rightarrow> bool" where
  "gate tbl T M st \<longleftrightarrow> tbl (snd st) = T \<and> lx_allowed (fst st) = M"

lemma gate_self: "gate tbl (tbl (snd st)) (lx_allowed (fst st)) st"
  by (simp add: gate_def)

lemma gate_field [simp]:
  "gate tbl T M (d\<lparr>lx_tables := x\<rparr>, k) = gate tbl T M (d, k)" "gate tbl T M (d\<lparr>lx_alive := y\<rparr>, k) = gate tbl T M (d, k)"
  "gate tbl T M (d\<lparr>lx_down := z\<rparr>, k) = gate tbl T M (d, k)"
  by (simp_all add: gate_def)

context kernel_laws
begin

lemma kern_gate: "gate tbl T M st \<Longrightarrow> (\<And>k. tbl (snd (f k)) = tbl k) \<Longrightarrow> gate tbl T M (snd (kern f st))"
  unfolding gate_def kern_def by (simp add: Let_def split: prod.split) (metis snd_conv)

lemma quiet_ops [simp]:
  "tbl (snd (ka_sysctl_set api path v k)) = tbl k" "tbl (snd (ka_addr_replace api l a k)) = tbl k"
  "tbl (snd (ka_set_mtu api l m k)) = tbl k" "tbl (snd (ka_set_up api l k)) = tbl k" "tbl (snd (ka_set_down api l k)) = tbl k"
  "tbl (snd (ka_rule_add api rl k)) = tbl k" "tbl (snd (ka_rule_del api rl k)) = tbl k"
  "tbl (snd (ka_route_add api rt k)) = tbl k" "tbl (snd (ka_route_del api rt k)) = tbl k"
  by (rule sysctl_tbl addr_tbl mtu_tbl up_tbl down_tbl rule_add_tbl rule_del_tbl route_add_tbl route_del_tbl, rule prod.collapse [symmetric])+

lemma unless_exists_quiet [simp]: "(\<And>k. tbl (snd (f k)) = tbl k) \<Longrightarrow> tbl (snd (unless_exists f k)) = tbl k"
  by (auto simp: unless_exists_def split: prod.split option.split kerr.split) (metis snd_conv)+

lemma sysctl_quiet [simp]: "tbl (snd (sysctl api key v k)) = tbl k"
  by (simp add: sysctl_def Let_def split: option.split)

lemma configureLink_quiet [simp]: "tbl (snd (configureLink api i m k)) = tbl k"
  by (auto simp: configureLink_def split: sum.split option.split intro!: andThen_inv [where P = "\<lambda>k'. tbl k' = tbl k"])

lemma delRule_gate: "gate tbl T M st \<Longrightarrow> gate tbl T M (snd (delRule api r st))"
  by (simp add: delRule_def kern_gate)

lemma addRule_quiet [simp]: "tbl (snd (addRule api a t p k)) = tbl k" "tbl (snd (addPinRule api a t k)) = tbl k"
  by (simp_all add: addRule_def addPinRule_def)

lemma addDefaultRoute_gate: "gate tbl T M st \<Longrightarrow> gate tbl T M (snd (addDefaultRoute api l t st))"
  by (auto simp: addDefaultRoute_def gate_def Let_def dest: route_add_tbl split: prod.split sum.split)

lemma tableFor_gate: "gate tbl T M st \<Longrightarrow> gate tbl T M (snd (tableFor api n st))"
  by (auto simp: tableFor_def split: option.split sum.split)

lemma addUpstream_gate: "gate tbl T M st \<Longrightarrow> gate tbl T M (snd (addUpstream api up st))"
  unfolding addUpstream_def
proof (rule andThen_inv [where P = "gate tbl T M"])
  show "gate tbl T M st \<Longrightarrow> gate tbl T M (snd (kern (configureLink api up 0) st))" by (rule kern_gate) simp_all
next
  fix st1 assume st1: "gate tbl T M (st1 :: 'k lin_state)"
  obtain r st2 where tf: "tableFor api (di_name up) st1 = (r, st2)" by (cases "tableFor api (di_name up) st1") blast
  have "gate tbl T M st2" using tableFor_gate [OF st1, of "di_name up"] tf by simp
  then show "gate tbl T M (snd (case tableFor api (di_name up) st1 of (Inl e, st) \<Rightarrow> (Some e, st)
       | (Inr table, st) \<Rightarrow> (case ka_link api (di_name up) (snd st) of Inl e \<Rightarrow> (Some (Kernel e), st)
         | Inr link \<Rightarrow> andThen (addDefaultRoute api link table st)
                  (kern (unless_exists (ka_rule_add api (probe_rule (paddr (di_addr up)) table (di_name up))))))))"
    by (auto simp: tf split: sum.split intro!: andThen_inv [where P = "gate tbl T M"] addDefaultRoute_gate kern_gate)
qed

lemma flushTable_gate: "gate tbl T M st \<Longrightarrow> gate tbl T M (snd (flushTable api t st))"
  by (auto simp: flushTable_def split: sum.split intro!: each_inv [where P = "gate tbl T M"] kern_gate)

lemma removeUpstream_gate: "gate tbl T M st \<Longrightarrow> gate tbl T M (snd (removeUpstream api n st))"
  by (auto simp: removeUpstream_def Let_def split: sum.split
      intro!: andThen_inv [where P = "gate tbl T M"] each_inv [where P = "gate tbl T M"] delRule_gate flushTable_gate)

lemma removeLeftovers_gate: "gate tbl T M st \<Longrightarrow> gate tbl T M (snd (removeLeftovers api st))"
  by (auto simp: removeLeftovers_def Let_def split: sum.split option.split
      intro!: andThen_inv [where P = "gate tbl T M"] each_inv [where P = "gate tbl T M"] delRule_gate kern_gate)

lemma routeScan_gate: "gate tbl T M st \<Longrightarrow> gate tbl T M (snd (routeScan api t rs old' st))"
proof (induction rs arbitrary: old' st)
  case (Cons r rs)
  obtain q st1 where d: "delRule api r st = (q, st1)" by (cases "delRule api r st") blast
  have "gate tbl T M st1" using delRule_gate [OF Cons.prems, of r] d by simp
  with Cons d show ?case by (auto split: option.split)
qed simp

lemma pinOld_gate: "gate tbl T M st \<Longrightarrow> gate tbl T M (snd (pinOld api p r st))"
  by (simp add: pinOld_def kern_gate)

lemma set_alive_gate: "gate tbl T M st \<Longrightarrow> gate tbl T M (snd (linux_set_alive api u b st))"
  by (auto simp: linux_set_alive_def Let_def split: option.split sum.split
      intro!: each_inv [where P = "gate tbl T M"] delRule_gate)

lemma stopIngress_gate: "gate tbl T M st \<Longrightarrow> gate tbl T M (snd (stopIngress api st))"
  by (auto simp: stopIngress_def split: sum.split kerr.split intro!: kern_gate)

end

section \<open>Who is admitted\<close>

lemma length_as_slice: "length (as_slice a) = (case a of NoAddr \<Rightarrow> 0 | V4 _ \<Rightarrow> 4 | V6 _ _ \<Rightarrow> 16)"
proof (cases a)
  case (V6 w z)
  have "length (concat (map (\<lambda>g. [of_nat (g div 256) :: u8, of_nat (g mod 256)]) gs)) = 2 * length gs" for gs :: "nat list"
    by (induction gs) auto
  then show ?thesis unfolding V6 as_slice.simps by (simp only: groups_def length_map length_upt addr.case)
qed (simp_all add: octets_def)

lemma as_slice_is4: "is4 a \<Longrightarrow> as_slice a = as_slice b \<longleftrightarrow> a = b"
proof
  assume "is4 a" and eq: "as_slice a = as_slice b"
  then obtain v where a: "a = V4 v" by (cases a) simp_all
  have "length (as_slice b) = 4" unfolding eq [symmetric] length_as_slice a by simp
  then obtain w where b: "b = V4 w" unfolding length_as_slice by (cases b) simp_all
  from eq have "v = w" unfolding a b by (rule as_slice_inj)
  then show "a = b" by (simp add: a b)
qed simp

definition admitted :: "('k \<Rightarrow> nft_table option) \<Rightarrow> 'k lin_state \<Rightarrow> addr \<Rightarrow> bool" where
  "admitted tbl st a \<longleftrightarrow> is4 a \<and> as_slice a \<in> keys (set_of (tbl (snd st)) peerSetName)"

text \<open>The firewall is installed and \<open>d.allowed\<close> is what it admits.\<close>

definition guarded :: "('k \<Rightarrow> nft_table option) \<Rightarrow> (u32 \<Rightarrow> u8 list) \<Rightarrow> string \<Rightarrow> 'k lin_state \<Rightarrow> bool" where
  "guarded tbl native down st \<longleftrightarrow>
     tbl (snd st) \<noteq> None \<and> rules_of (tbl (snd st)) ''forward'' = forward_rules native down \<and>
     (\<exists>m. lx_allowed (fst st) = Some m \<and> (\<forall>a. is4 a \<longrightarrow> mget m a False = admitted tbl st a))"

lemma gate_eq: "gate tbl (tbl (snd st)) (lx_allowed (fst st)) st' \<Longrightarrow>
    guarded tbl native down st' = guarded tbl native down st \<and> admitted tbl st' = admitted tbl st"
  by (simp add: gate_def guarded_def admitted_def fun_eq_iff)

context kernel_laws
begin

lemma flush_cases:
  assumes "flush api ms k = (r, k')"
  shows "tbl k' = (if r = None then apply_msgs ms (tbl k) else tbl k)"
  using assms flush_ok [of ms k k'] flush_failed [of ms k _ k']
  by (cases r) (auto simp: flush_def apply_msgs_def split: if_split_asm)

lemma authorize_guarded:
  assumes eq: "authorize api p b st = (r, st')" and g: "guarded tbl native down st"
  shows "guarded tbl native down st' \<and> (\<forall>a. a \<noteq> p \<or> r \<noteq> None \<longrightarrow> admitted tbl st' a = admitted tbl st a) \<and>
    (r = None \<and> is4 p \<longrightarrow> admitted tbl st' p = b) \<and>
    set_of (tbl (snd st')) upstreamSetName = set_of (tbl (snd st)) upstreamSetName \<and>
    lx_alive (fst st') = lx_alive (fst st) \<and> lx_tables (fst st') = lx_tables (fst st)"
proof -
  obtain d k d' k' where st: "st = (d, k)" "st' = (d', k')" by (cases st; cases st') blast
  from g st obtain t m where t: "tbl k = Some t" "lx_allowed d = Some m"
    and sync: "\<And>a. is4 a \<Longrightarrow> mget m a False = admitted tbl st a" by (auto simp: guarded_def)
  show ?thesis
  proof (cases "mget m p False = b")
    case True
    with eq t st g sync [of p] show ?thesis by (auto simp: authorize_def)
  next
    case False
    obtain q k1 where fl: "flush api [authorize_message p b] k = (q, k1)" by (cases "flush api [authorize_message p b] k") blast
    show ?thesis
    proof (cases q)
      case (Some e)
      with eq t st False fl have "r = Some (Kernel e)" "d' = d" "k' = k1" by (auto simp: authorize_def)
      moreover have "tbl k1 = tbl k" using flush_cases [OF fl] Some by simp
      ultimately show ?thesis using g st by (simp add: guarded_def admitted_def)
    next
      case None
      obtain t' where t': "apply_msg (authorize_message p b) (Some t) = Some t'"
        "rules_of (Some t') ''forward'' = rules_of (Some t) ''forward''"
        "keys (set_of (Some t') peerSetName) = (if b then insert (as_slice p) (keys (set_of (Some t) peerSetName))
           else keys (set_of (Some t) peerSetName) - {as_slice p})"
        "set_of (Some t') upstreamSetName = set_of (Some t) upstreamSetName"
        using authorized_updated [of p b t "''forward''"] by auto
      have k1: "tbl k1 = Some t'" using flush_cases [OF fl] None t'(1) t(1) by (simp add: apply_msgs_def)
      have res: "r = None" "k' = k1" "d' = d\<lparr>lx_allowed := Some (if b then mput p True m else mdel p m)\<rparr>"
        using eq t st False fl None by (auto simp: authorize_def split: if_split_asm)
      have adm: "admitted tbl st' a = (if a = p then b else admitted tbl st a)" if "is4 a" for a
        using that st res k1 t(1) t'(3) as_slice_is4 [OF that, of p] by (auto simp: admitted_def)
      have "guarded tbl native down st'"
        unfolding guarded_def
      proof (intro conjI exI allI impI)
        show "lx_allowed (fst st') = Some (if b then mput p True m else mdel p m)" using st res by simp
        show "mget (if b then mput p True m else mdel p m) a False = admitted tbl st' a" if "is4 a" for a
          using adm [OF that] sync [OF that] by simp
      qed (use g st res k1 t(1) t'(2) in \<open>simp_all add: guarded_def\<close>)
      moreover have "admitted tbl st' a = admitted tbl st a" if "a \<noteq> p" for a
        using adm [of a] that by (cases "is4 a") (simp_all add: admitted_def)
      ultimately show ?thesis using adm [of p] res st k1 t(1) t'(4) by simp
    qed
  qed
qed

text \<open>\<open>Route\<close> is a failure that leaves the firewall alone, or ends with \<open>authorize\<close>.\<close>

lemma route_authorizes:
  assumes "linux_route api p u st = (r, st')"
  obtains st1 where "gate tbl (tbl (snd st)) (lx_allowed (fst st)) st1" "r \<noteq> None" "st' = st1"
    | st1 where "gate tbl (tbl (snd st)) (lx_allowed (fst st)) st1" "authorize api p True st1 = (r, st')"
proof -
  let ?G = "gate tbl (tbl (snd st)) (lx_allowed (fst st))"
  have seq: "\<exists>st1. ?G st1 \<and> (q \<noteq> None \<and> s' = st1 \<or> f st1 = (q, s'))"
    if "andThen a f = (q, s')" "?G (snd a)" for a f q s'
    using that by (cases a) (auto simp: andThen_def split: option.split_asm)
  show thesis
  proof (cases "map_of (lx_tables (fst st)) u")
    case None
    with assms show thesis by (intro that(1) [OF gate_self]) (auto simp: linux_route_def)
  next
    case (Some table)
    show thesis
    proof (cases "rulesFor api p st")
      case (Inl e)
      with assms Some show thesis by (intro that(1) [OF gate_self]) (auto simp: linux_route_def)
    next
      case (Inr rules)
      obtain q st1 where sc: "routeScan api table rules [] st = (q, st1)" by (cases "routeScan api table rules [] st") blast
      have G1: "?G st1" using routeScan_gate [OF gate_self, where st = st and t = table and rs = rules and old' = "[]"] sc by simp
      have pins: "?G (snd (each (pinOld api p) old st1))" for old
        by (rule each_inv [where P = ?G]) (simp_all add: G1 pinOld_gate)
      have dels: "?G (snd (each (delRule api) old s))" if "?G s" for old s
        by (rule each_inv [where P = ?G]) (simp_all add: that delRule_gate)
      have adds: "?G (snd (kern (addRule api p table peerRulePriority) s))" if "?G s" for s
        using that by (intro kern_gate) simp_all
      consider (err) e where "q = Inl e" | (there) "q = Inr None" | (move) old where "q = Inr (Some old)"
        by (cases q) (auto intro: option.exhaust)
      then show thesis
      proof cases
        case err
        with assms Some Inr sc G1 show thesis by (intro that(1)) (auto simp: linux_route_def)
      next
        case there
        with assms Some Inr sc G1 show thesis by (intro that(2)) (auto simp: linux_route_def)
      next
        case move
        with assms Some Inr sc have "andThen (each (pinOld api p) old st1) (\<lambda>st. andThen (kern (addRule api p table peerRulePriority) st)
            (\<lambda>st. andThen (each (delRule api) old st) (authorize api p True))) = (r, st')"
          by (simp add: linux_route_def)
        from seq [OF this pins] show thesis
        proof (elim exE conjE disjE)
          fix s1 assume s1: "?G s1" and "andThen (kern (addRule api p table peerRulePriority) s1)
              (\<lambda>st. andThen (each (delRule api) old st) (authorize api p True)) = (r, st')"
          from seq [OF this(2) adds [OF s1]] show thesis
          proof (elim exE conjE disjE)
            fix s2 assume s2: "?G s2" and "andThen (each (delRule api) old s2) (authorize api p True) = (r, st')"
            from seq [OF this(2) dels [OF s2]] show thesis by (elim exE conjE disjE) (rule that; assumption)+
          qed (rule that(1); simp)
        qed (rule that(1); simp)
      qed
    qed
  qed
qed

lemma route_guarded:
  assumes "linux_route api p u st = (r, st')" and "guarded tbl native down st"
  shows "guarded tbl native down st' \<and> (\<forall>a. a \<noteq> p \<or> r \<noteq> None \<longrightarrow> admitted tbl st' a = admitted tbl st a) \<and>
    (r = None \<and> is4 p \<longrightarrow> admitted tbl st' p) \<and>
    set_of (tbl (snd st')) upstreamSetName = set_of (tbl (snd st)) upstreamSetName"
  using assms(1)
proof (cases rule: route_authorizes)
  case (1 st1)
  with gate_eq [OF 1(1)] assms(2) show ?thesis by (auto simp: gate_def)
next
  case (2 st1)
  from gate_eq [OF 2(1)] assms(2) have "guarded tbl native down st1" "admitted tbl st1 = admitted tbl st" by simp_all
  moreover have "tbl (snd st1) = tbl (snd st)" using 2(1) by (simp add: gate_def)
  ultimately show ?thesis using authorize_guarded [OF 2(2)] by metis
qed

lemma unroute_guarded:
  assumes "linux_unroute api p st = (r, st')" and "guarded tbl native down st"
  shows "guarded tbl native down st' \<and> (\<forall>a. a \<noteq> p \<longrightarrow> admitted tbl st' a = admitted tbl st a) \<and>
    (admitted tbl st' p \<longrightarrow> admitted tbl st p) \<and> (r = None \<longrightarrow> \<not> admitted tbl st' p)"
proof -
  obtain q st1 where au: "authorize api p False st = (q, st1)" by (cases "authorize api p False st") blast
  note ag = authorize_guarded [OF au assms(2)]
  have n: "\<not> is4 p \<Longrightarrow> \<not> admitted tbl s p" for s by (simp add: admitted_def)
  show ?thesis
  proof (cases q)
    case (Some e)
    with assms(1) au have "st' = st1" "r = Some e" by (simp_all add: linux_unroute_def andThen_def)
    with ag Some show ?thesis by auto
  next
    case None
    have "gate tbl (tbl (snd st1)) (lx_allowed (fst st1)) st'"
    proof (cases "rulesFor api p st1")
      case (Inl e)
      with assms(1) au None show ?thesis by (simp add: linux_unroute_def andThen_def gate_self)
    next
      case (Inr rules)
      with assms(1) au None have "each (delRule api) rules st1 = (r, st')" by (simp add: linux_unroute_def andThen_def)
      then show ?thesis
        using each_inv [where P = "gate tbl (tbl (snd st1)) (lx_allowed (fst st1))" and f = "delRule api" and xs = rules and s = st1]
        by (simp add: gate_self delRule_gate)
    qed
    from gate_eq [OF this] ag None n show ?thesis by metis
  qed
qed

lemma set_alive_guarded:
  assumes "linux_set_alive api u b st = (r, st')"
  shows "guarded tbl native down st' = guarded tbl native down st \<and> admitted tbl st' = admitted tbl st"
  using gate_eq [OF set_alive_gate [where u = u and b = b, OF gate_self [where st = st]]] assms by simp

lemma setUpstreamSets_guarded:
  assumes "setUpstreamSets api ups st = (r, st')" and "guarded tbl native down st"
  shows "guarded tbl native down st' \<and> admitted tbl st' = admitted tbl st \<and>
    (r = None \<longrightarrow> keys (set_of (tbl (snd st')) upstreamSetName) = ifname ` set ups)"
proof -
  let ?ms = "upstream_set_messages (ka_native api) (lx_tables (fst st)) ups"
  from assms(2) obtain t where t: "tbl (snd st) = Some t" by (auto simp: guarded_def)
  obtain q k1 where fl: "flush api ?ms (snd st) = (q, k1)" by (cases "flush api ?ms (snd st)") blast
  obtain t' where t': "apply_msgs ?ms (Some t) = Some t'"
    "rules_of (Some t') ''forward'' = rules_of (Some t) ''forward''" "set_of (Some t') peerSetName = set_of (Some t) peerSetName"
    "keys (set_of (Some t') upstreamSetName) = ifname ` set ups"
    using upstream_sets_updated [of "ka_native api" "lx_tables (fst st)" ups t "''forward''"] by auto
  have k1: "tbl k1 = (if q = None then Some t' else Some t)" using flush_cases [OF fl] t t'(1) by simp
  have "st' = st \<and> r \<noteq> None \<or> st' = (fst st, k1) \<and> r = map_option Kernel q"
    using assms(1) fl by (auto simp: setUpstreamSets_def kern_def split: option.split_asm)
  moreover have "admitted tbl (fst st, k1) = admitted tbl st" using t k1 t'(3) by (simp add: admitted_def fun_eq_iff)
  moreover from this have "guarded tbl native down (fst st, k1)" using assms(2) t k1 t'(2) by (auto simp: guarded_def)
  moreover have "q = None \<longrightarrow> keys (set_of (tbl k1) upstreamSetName) = ifname ` set ups" using k1 t'(4) by simp
  ultimately show ?thesis using assms(2) by (elim disjE conjE) (clarsimp, simp)
qed

lemma set_upstreams_guarded:
  assumes "linux_set_upstreams api ups mtu st = (r, st')" and "guarded tbl native down st"
  shows "guarded tbl native down st' \<and> admitted tbl st' = admitted tbl st"
proof -
  let ?P = "\<lambda>s. guarded tbl native down s \<and> admitted tbl s = admitted tbl st"
  have G: "?P (snd (f s))" if "?P s" "\<And>T M. gate tbl T M s \<Longrightarrow> gate tbl T M (snd (f s))" for f :: "'k lin_state \<Rightarrow> 'k lin_result" and s
    using gate_eq [OF that(2) [OF gate_self]] that(1) by metis
  have "?P (snd (linux_set_upstreams api ups mtu st))"
  proof (cases "ka_link api (lx_down (fst st)) (snd st)")
    case (Inl e)
    with assms(2) show ?thesis by (simp add: linux_set_upstreams_def)
  next
    case (Inr link)
    show ?thesis
      unfolding linux_set_upstreams_def Inr sum.case
    proof (intro andThen_inv [where P = ?P] each_inv [where P = ?P])
      show "?P (snd (kern (ka_set_mtu api link mtu) st))" by (rule G) (simp_all add: assms(2) kern_gate)
      show "?P (snd (addUpstream api u s))" if "?P s" for u s by (rule G [OF that]) (rule addUpstream_gate)
      show "?P (snd (if n \<notin> di_name ` set ups then removeUpstream api n s else (None, s)))" if "?P s" for n s
        using G [OF that, of "removeUpstream api n"] removeUpstream_gate that by simp
      show "?P (snd (setUpstreamSets api (map di_name ups) s))" if "?P s" for s
        using setUpstreamSets_guarded [OF prod.collapse [symmetric], where ups = "map di_name ups" and st = s] that by metis
    qed
  qed
  with assms(1) show ?thesis by simp
qed

section \<open>Setup and Teardown\<close>

lemma closeForeign_done:
  assumes "closeForeignForwardChains api k = (r, pending, k')"
  shows "tbl k' = tbl k \<and> (r = None \<longrightarrow> pending = [])"
proof -
  have del: "apply_msgs ms t = t" if "closeCollect api chs k = (q, ms)" for chs ms t q
    using that
  proof (induction chs arbitrary: ms q)
    case (Cons ch chs)
    obtain q' ms' where rest: "closeCollect api chs k = (q', ms')" by (cases "closeCollect api chs k") blast
    have "apply_msgs ms' t = t" by (rule Cons.IH [OF rest])
    moreover have "apply_msgs (map MDelRule rs) t = t" for rs by (rule foreign_messages) auto
    ultimately show ?case using Cons.prems rest by (auto simp: apply_msgs_def split: sum.split_asm)
  qed (simp add: apply_msgs_def)
  show ?thesis
    using assms del by (auto simp: closeForeignForwardChains_def Let_def split: sum.split_asm prod.split_asm option.split_asm dest!: flush_cases)
qed

lemma dropTable_done: "dropTable api [] k = (None, k') \<Longrightarrow> tbl k' = None"
  using flush_failed [of "[MDelTable]" k _ k']
  by (auto simp: dropTable_def flush_def apply_msgs_def dest!: flush_ok dest: no_table split: prod.split_asm option.split_asm kerr.split_asm)

lemma installFirewall_done:
  assumes "installFirewall api down ups st = (None, st')"
  shows "guarded tbl (ka_native api) down st' \<and> \<not> admitted tbl st' a \<and>
    keys (set_of (tbl (snd st')) upstreamSetName) = ifname ` set ups"
proof -
  obtain r pending k where cf: "closeForeignForwardChains api (snd st) = (r, pending, k)" by (metis prod_cases3)
  with assms have "r = None" by (cases r) (simp_all add: installFirewall_def)
  with closeForeign_done [OF cf] have "pending = []" by simp
  with assms cf \<open>r = None\<close> obtain k1 k2 k3 where d: "dropTable api [] k = (None, k1)"
    and i: "flush api (install_messages (ka_native api) down (lx_tables (fst st)) ups) k1 = (None, k2)"
    and o: "openForeignForwardChains api down k2 = (None, k3)" and st': "st' = ((fst st)\<lparr>lx_allowed := Some []\<rparr>, k3)"
    by (auto simp: installFirewall_def andThen_None kern_None)
  obtain t where t: "apply_msgs (install_messages (ka_native api) down (lx_tables (fst st)) ups) None = Some t"
    "rules_of (Some t) ''forward'' = forward_rules (ka_native api) down" "set_of (Some t) peerSetName = []"
    "keys (set_of (Some t) upstreamSetName) = ifname ` set ups"
    using installed [of "ka_native api" down "lx_tables (fst st)" ups] by blast
  have "tbl k2 = Some t" using flush_cases [OF i] dropTable_done [OF d] t(1) by simp
  moreover have "tbl k3 = tbl k2"
    using o flush_cases by (auto simp: openForeignForwardChains_def open_messages_foreign split: sum.split_asm)
  ultimately show ?thesis using t st' by (simp add: guarded_def admitted_def mget_def)
qed

lemma setup_guarded:
  assumes "linux_setup api down ups mtu st = (None, st')"
  shows "guarded tbl (ka_native api) (di_name down) st' \<and> \<not> admitted tbl st' a \<and>
    keys (set_of (tbl (snd st')) upstreamSetName) = ifname ` di_name ` set ups"
proof -
  from assms obtain st1 where "installFirewall api (di_name down) (map di_name ups) st1 = (None, st')"
    by (auto simp: linux_setup_def andThen_None)
  from installFirewall_done [OF this] show ?thesis by (simp add: image_image)
qed

lemma teardown_cleared:
  assumes "linux_teardown api st = (None, st')" shows "tbl (snd st') = None"
proof -
  from assms obtain st1 where s1: "stopIngress api st = (None, st1)" by (auto simp: linux_teardown_def andThen_None)
  with assms obtain rules where s: "stopIngress api st = (None, st1)" "ownRules api st1 = Inr rules"
    by (cases "ownRules api st1") (simp_all add: linux_teardown_def andThen_def)
  obtain e1 st2 where r: "each_joined (delRule api) rules st1 = (e1, st2)" by (cases "each_joined (delRule api) rules st1") blast
  obtain e2 st3 where f: "each_joined (flushTable api) (map snd (lx_tables (fst st2))) st2 = (e2, st3)"
    by (cases "each_joined (flushTable api) (map snd (lx_tables (fst st2))) st2") blast
  obtain r3 pending k3 where c: "closeForeignForwardChains api (snd st3) = (r3, pending, k3)" by (metis prod_cases3)
  obtain r4 k4 where d: "dropTable api pending k3 = (r4, k4)" by (cases "dropTable api pending k3") blast
  have "r3 = None" "r4 = None" "st' = (fst st3, k4)"
    using assms s r f c d by (auto simp: linux_teardown_def andThen_None split: if_split_asm option.split_asm)
  with closeForeign_done [OF c] d show ?thesis by (auto dest: dropTable_done)
qed

text \<open>Until ingress is stopped, \<open>Teardown\<close> leaves the firewall as it was.\<close>

lemma teardown_order:
  assumes "linux_teardown api st = (r, st')" and "tbl (snd st') \<noteq> tbl (snd st)"
  shows "\<exists>st1. stopIngress api st = (None, st1)"
proof -
  obtain q st1 where s: "stopIngress api st = (q, st1)" by (cases "stopIngress api st") blast
  have "q = None"
  proof (rule ccontr)
    assume "q \<noteq> None"
    with assms(1) s have "st' = st1" by (auto simp: linux_teardown_def andThen_def)
    with stopIngress_gate [OF gate_self, of st] s assms(2) show False by (simp add: gate_def)
  qed
  with s show ?thesis by blast
qed

end

section \<open>Packets\<close>

lemma four_bytes:
  fixes p q r s :: nat
  assumes "q < 256" and "r < 256" and "s < 256"
  defines "n \<equiv> p * 16777216 + q * 65536 + r * 256 + s"
  shows "n div 16777216 = p \<and> n div 65536 mod 256 = q \<and> n div 256 mod 256 = r \<and> n mod 256 = s"
proof -
  have n: "n = ((p * 256 + q) * 256 + r) * 256 + s" by (simp add: n_def)
  have byte: "(x * 256 + y) div 256 = x" "(x * 256 + y) mod 256 = y" if "y < 256" for x y :: nat using that by simp_all
  have d2: "n div 65536 = n div 256 div 256" "n div 16777216 = n div 256 div 256 div 256" by (simp_all add: div_mult2_eq [symmetric])
  show ?thesis unfolding d2 unfolding n by (simp only: byte assms simp_thms)
qed

lemma as_slice_surj:
  assumes "length b = 4" shows "\<exists>v. as_slice (V4 v) = b"
proof -
  from assms obtain p q r s where b: "b = [p, q, r, s]" by (auto simp: numeral_eq_Suc length_Suc_conv)
  let ?n = "unat p * 16777216 + unat q * 65536 + unat r * 256 + unat s"
  have lt: "unat x < 256" for x :: u8 using unsigned_less [of x] by simp
  note lts = lt [of p] lt [of q] lt [of r] lt [of s]
  have "?n < 2 ^ 32" using lts by simp
  then have n: "unat (of_nat ?n :: u32) = ?n" by (simp only: unat_of_nat) (simp add: unsigned_of_nat take_bit_eq_mod)
  have "octets (of_nat ?n) = [unat p, unat q, unat r, unat s]"
    unfolding octets_def n using four_bytes [OF lts(2-4)] by simp
  then have "as_slice (V4 (of_nat ?n)) = b" by (simp add: b)
  then show ?thesis ..
qed

text \<open>What leaves the downstream interface for another comes from an admitted peer and enters a tunnel; what leaves a tunnel for
  the downstream interface answers an admitted peer.\<close>

lemma guarded_packet:
  assumes g: "guarded tbl native down st" and p: "packet_ok p" and f: "forwarded_by (tbl (snd st)) p"
  shows "pk_iif p = ifname down \<longrightarrow> pk_oif p \<noteq> ifname down \<longrightarrow>
      pk_oif p \<in> keys (set_of (tbl (snd st)) upstreamSetName) \<and> (\<exists>a. admitted tbl st a \<and> src_of p = as_slice a)"
    and "pk_iif p \<in> keys (set_of (tbl (snd st)) upstreamSetName) \<longrightarrow> pk_iif p \<noteq> ifname down \<longrightarrow>
      pk_oif p = ifname down \<and> established native p \<and> (\<exists>a. admitted tbl st a \<and> dst_of p = as_slice a)"
proof -
  let ?t = "tbl (snd st)"
  have f': "eval_chain ?t p (forward_rules native down)" using f g by (simp add: forwarded_by_def guarded_def)
  have adm: "\<exists>a. admitted tbl st a \<and> b = as_slice a" if "length b = 4" "b \<in> keys (set_of ?t peerSetName)" for b
    using as_slice_surj [OF that(1)] that(2) by (metis admitted_def is4.simps(1))
  have len: "length (src_of p) = 4" "length (dst_of p) = 4" if "pk_nfproto p = 2"
    using p that by (auto simp: packet_ok_def src_of_def dst_of_def)
  note ev = eval_clamp eval_out [OF p] eval_in [OF p] eval_drops(1) [OF p] eval_drops(2)
  show "pk_iif p = ifname down \<longrightarrow> pk_oif p \<noteq> ifname down \<longrightarrow>
      pk_oif p \<in> keys (set_of ?t upstreamSetName) \<and> (\<exists>a. admitted tbl st a \<and> src_of p = as_slice a)"
  proof (intro impI)
    assume i: "pk_iif p = ifname down" "pk_oif p \<noteq> ifname down"
    with f' have "pk_oif p \<in> keys (set_of ?t upstreamSetName)" "pk_nfproto p = 2" "src_of p \<in> keys (set_of ?t peerSetName)"
      by (simp_all only: forward_rules_def eval_chain.simps ev if_True if_False simp_thms outcome.case split: if_split_asm)
    with adm len show "pk_oif p \<in> keys (set_of ?t upstreamSetName) \<and> (\<exists>a. admitted tbl st a \<and> src_of p = as_slice a)" by blast
  qed
  show "pk_iif p \<in> keys (set_of ?t upstreamSetName) \<longrightarrow> pk_iif p \<noteq> ifname down \<longrightarrow>
      pk_oif p = ifname down \<and> established native p \<and> (\<exists>a. admitted tbl st a \<and> dst_of p = as_slice a)"
  proof (intro impI)
    assume i: "pk_iif p \<in> keys (set_of ?t upstreamSetName)" "pk_iif p \<noteq> ifname down"
    with f' have "pk_oif p = ifname down" "pk_nfproto p = 2" "dst_of p \<in> keys (set_of ?t peerSetName)" "established native p"
      by (simp_all only: forward_rules_def eval_chain.simps ev if_True if_False simp_thms outcome.case split: if_split_asm)
    with adm len show "pk_oif p = ifname down \<and> established native p \<and> (\<exists>a. admitted tbl st a \<and> dst_of p = as_slice a)" by blast
  qed
qed

section \<open>The interface\<close>

text \<open>Read through the firewall: a peer is open unless the firewall is in place and does not admit it. Which interface its flows take
  is the matter of the routing rules, not of safety.\<close>

definition linux_fwd :: "('k \<Rightarrow> nft_table option) \<Rightarrow> (u32 \<Rightarrow> u8 list) \<Rightarrow> string \<Rightarrow> 'k lin_state \<Rightarrow> addr \<Rightarrow> string option" where
  "linux_fwd tbl native down st a = (if guarded tbl native down st \<and> \<not> admitted tbl st a then None else Some [])"

lemma linux_fwd_None: "linux_fwd tbl native down st a = None \<longleftrightarrow> guarded tbl native down st \<and> \<not> admitted tbl st a"
  by (simp add: linux_fwd_def)

lemma linux_ops_fields [simp]:
  "dp_route (linux_ops api) = linux_route api" "dp_unroute (linux_ops api) = linux_unroute api"
  "dp_set_alive (linux_ops api) = linux_set_alive api" "dp_set_upstreams (linux_ops api) = linux_set_upstreams api"
  "dp_setup (linux_ops api) = linux_setup api" "dp_teardown (linux_ops api) = linux_teardown api"
  by (simp_all add: linux_ops_def)

sublocale kernel_laws \<subseteq> lin: dataplane_calls "linux_ops api" "linux_fwd tbl (ka_native api) down" for down
proof (unfold_locales, unfold linux_fwd_None linux_ops_fields)
  fix ip i w r w' a
  assume "linux_route api ip i w = (r, w')" "a \<noteq> ip" "guarded tbl (ka_native api) down w \<and> \<not> admitted tbl w a"
  then show "guarded tbl (ka_native api) down w' \<and> \<not> admitted tbl w' a" using route_guarded by metis
next
  fix ip i w e w'
  assume "linux_route api ip i w = (Some e, w')" "guarded tbl (ka_native api) down w \<and> \<not> admitted tbl w ip"
  then show "guarded tbl (ka_native api) down w' \<and> \<not> admitted tbl w' ip" using route_guarded by (metis option.distinct(1))
next
  fix ip w w' a
  assume "linux_unroute api ip w = (None, w')" "guarded tbl (ka_native api) down w \<and> \<not> admitted tbl w a"
  then show "guarded tbl (ka_native api) down w' \<and> \<not> admitted tbl w' ip" using unroute_guarded by metis
next
  fix ip w r w' a
  assume "linux_unroute api ip w = (r, w')" "guarded tbl (ka_native api) down w \<and> \<not> admitted tbl w a"
  then show "guarded tbl (ka_native api) down w' \<and> \<not> admitted tbl w' a" using unroute_guarded by metis
next
  fix i b w r w' a
  assume "linux_set_alive api i b w = (r, w')" "guarded tbl (ka_native api) down w \<and> \<not> admitted tbl w a"
  then show "guarded tbl (ka_native api) down w' \<and> \<not> admitted tbl w' a" using set_alive_guarded by metis
next
  fix ups mtu w r w' a
  assume "linux_set_upstreams api ups mtu w = (r, w')" "guarded tbl (ka_native api) down w \<and> \<not> admitted tbl w a"
  then show "guarded tbl (ka_native api) down w' \<and> \<not> admitted tbl w' a" using set_upstreams_guarded by metis
qed

end
