(* ===== verification/Linux_Kernel.thy ===== *)
theory Linux_Kernel
  imports Linux_Safety
begin

text \<open>
  A small executable kernel that keeps the laws: the \<open>lotsman\<close> table, policy rules ordered by priority, routes, links and a script of
  refusals, one entry for each call that changes something (an exhausted script refuses nothing). The theorems about
  the Linux dataplane are instantiated on it. Then the runs of the dataplane after \<open>Setup\<close>.
\<close>

record sim =
  sm_table :: "nft_table option"
  sm_rules :: "ip_rule list"
  sm_routes :: "route list"
  sm_links :: "(string \<times> int) list"
  sm_script :: "bool list"

definition sim_do :: "(sim \<Rightarrow> sim) \<Rightarrow> sim \<Rightarrow> kerr option \<times> sim" where
  "sim_do f k = (case sm_script k of
     [] \<Rightarrow> (None, f k)
   | ok # rest \<Rightarrow> (let k' = k\<lparr>sm_script := rest\<rparr> in if ok then (None, f k') else (Some (KOther ''refused''), k')))"

text \<open>A rule is inserted after those of its priority and below; a deletion takes the first rule that agrees with
  every selector given.\<close>

fun insert_rule :: "ip_rule \<Rightarrow> ip_rule list \<Rightarrow> ip_rule list" where
  "insert_rule r [] = [r]"
| "insert_rule r (x # xs) = (if rl_priority x \<le> rl_priority r then x # insert_rule r xs else r # x # xs)"

definition selects :: "ip_rule \<Rightarrow> ip_rule \<Rightarrow> bool" where
  "selects r x \<longleftrightarrow> rl_family x = rl_family r \<and> rl_table x = rl_table r \<and> rl_priority x = rl_priority r \<and> rl_src x = rl_src r \<and>
     (rl_mark r = 0 \<or> rl_mark x = rl_mark r) \<and> (rl_mask r = None \<or> rl_mask x = rl_mask r) \<and> (rl_oif r = [] \<or> rl_oif x = rl_oif r)"

fun remove_rule :: "ip_rule \<Rightarrow> ip_rule list \<Rightarrow> ip_rule list" where
  "remove_rule r [] = []"
| "remove_rule r (x # xs) = (if selects r x then xs else x # remove_rule r xs)"

definition sim_flush :: "nft_msg list \<Rightarrow> sim \<Rightarrow> kerr option \<times> sim" where
  "sim_flush ms k =
     (if sm_table k = None \<and> ms \<noteq> [] \<and> hd ms \<noteq> MAddTable then (Some KNoEnt, k)
      else sim_do (\<lambda>k. k\<lparr>sm_table := apply_msgs ms (sm_table k)\<rparr>) k)"

definition sim_api :: "sim kernel_api" where
  "sim_api = \<lparr>
     ka_sysctl = \<lambda>p k. None, ka_sysctl_set = \<lambda>p v. sim_do (\<lambda>k. k),
     ka_link = \<lambda>n k. (case map_of (sm_links k) n of None \<Rightarrow> Inl KNoLink | Some i \<Rightarrow> Inr i),
     ka_links = \<lambda>k. Inr (map (\<lambda>(n, i). (i, n)) (sm_links k)),
     ka_parse_addr = \<lambda>a. None, ka_addr_replace = \<lambda>l a. sim_do (\<lambda>k. k), ka_set_mtu = \<lambda>l m. sim_do (\<lambda>k. k),
     ka_set_up = \<lambda>l. sim_do (\<lambda>k. k), ka_set_down = \<lambda>l. sim_do (\<lambda>k. k),
     ka_rules = \<lambda>k. Inr (sm_rules k),
     ka_rule_add = \<lambda>r k. if r \<in> set (sm_rules k) then (Some KExist, k) else sim_do (\<lambda>k. k\<lparr>sm_rules := insert_rule r (sm_rules k)\<rparr>) k,
     ka_rule_del = \<lambda>r k. if \<exists>x \<in> set (sm_rules k). selects r x then sim_do (\<lambda>k. k\<lparr>sm_rules := remove_rule r (sm_rules k)\<rparr>) k
                         else (Some KNoEnt, k),
     ka_routes = \<lambda>k. Inr (sm_routes k),
     ka_route_add = \<lambda>r k. if \<exists>x \<in> set (sm_routes k). rt_table x = rt_table r \<and> rt_dst x = rt_dst r then (Some KExist, k)
                          else sim_do (\<lambda>k. k\<lparr>sm_routes := sm_routes k @ [r]\<rparr>) k,
     ka_route_del = \<lambda>r. sim_do (\<lambda>k. k\<lparr>sm_routes := filter (\<lambda>x. x \<noteq> r) (sm_routes k)\<rparr>),
     ka_chains = \<lambda>k. Inr [], ka_chain_rules = \<lambda>c k. Inr [],
     ka_get_set = \<lambda>s k. if sm_table k = None then Some KNoEnt else None,
     ka_flush = sim_flush,
     ka_native = \<lambda>w. [ucast w, ucast (drop_bit 8 w), ucast (drop_bit 16 w), ucast (drop_bit 24 w)]\<rparr>"

lemma sim_ops [simp]:
  "ka_sysctl sim_api p k = None" "ka_sysctl_set sim_api p v = sim_do (\<lambda>k. k)"
  "ka_link sim_api n k = (case map_of (sm_links k) n of None \<Rightarrow> Inl KNoLink | Some i \<Rightarrow> Inr i)"
  "ka_links sim_api k = Inr (map (\<lambda>(n, i). (i, n)) (sm_links k))" "ka_parse_addr sim_api a = None"
  "ka_addr_replace sim_api l a = sim_do (\<lambda>k. k)" "ka_set_mtu sim_api l m = sim_do (\<lambda>k. k)"
  "ka_set_up sim_api l = sim_do (\<lambda>k. k)" "ka_set_down sim_api l = sim_do (\<lambda>k. k)"
  "ka_rules sim_api k = Inr (sm_rules k)" "ka_routes sim_api k = Inr (sm_routes k)"
  "ka_rule_add sim_api r k =
     (if r \<in> set (sm_rules k) then (Some KExist, k) else sim_do (\<lambda>k. k\<lparr>sm_rules := insert_rule r (sm_rules k)\<rparr>) k)"
  "ka_rule_del sim_api r k =
     (if \<exists>x \<in> set (sm_rules k). selects r x then sim_do (\<lambda>k. k\<lparr>sm_rules := remove_rule r (sm_rules k)\<rparr>) k else (Some KNoEnt, k))"
  "ka_route_add sim_api rt k =
     (if \<exists>x \<in> set (sm_routes k). rt_table x = rt_table rt \<and> rt_dst x = rt_dst rt then (Some KExist, k)
      else sim_do (\<lambda>k. k\<lparr>sm_routes := sm_routes k @ [rt]\<rparr>) k)"
  "ka_route_del sim_api rt = sim_do (\<lambda>k. k\<lparr>sm_routes := filter (\<lambda>x. x \<noteq> rt) (sm_routes k)\<rparr>)"
  "ka_chains sim_api k = Inr []" "ka_chain_rules sim_api c k = Inr []"
  "ka_get_set sim_api s k = (if sm_table k = None then Some KNoEnt else None)" "ka_flush sim_api = sim_flush"
  by (simp_all add: sim_api_def)

lemma sim_do_table: "sim_do f k = (r, k') \<Longrightarrow> (\<And>k. sm_table (f k) = sm_table k) \<Longrightarrow> sm_table k' = sm_table k"
  by (auto simp: sim_do_def Let_def split: list.split_asm if_split_asm)

interpretation sim: kernel_laws sim_api sm_table
proof unfold_locales
  fix ms k k' assume "ka_flush sim_api ms k = (None, k')"
  then show "sm_table k' = apply_msgs ms (sm_table k)"
    by (auto simp: sim_api_def sim_flush_def sim_do_def Let_def split: if_split_asm list.split_asm)
next
  fix ms k e k' assume "ka_flush sim_api ms k = (Some e, k')"
  then show "sm_table k' = sm_table k"
    by (auto simp: sim_api_def sim_flush_def sim_do_def Let_def split: if_split_asm list.split_asm)
next
  fix k k' assume "ka_flush sim_api [MDelTable] k = (Some KNoEnt, k')"
  then show "sm_table k = None"
    by (auto simp: sim_api_def sim_flush_def sim_do_def Let_def split: if_split_asm list.split_asm)
qed (auto simp: sim_api_def intro: sim_do_table split: if_split_asm)

section \<open>Runs\<close>

text \<open>Calls in any order, with whatever result, and other activity that leaves the table alone. The set is who was routed successfully and not
  unrouted successfully since.\<close>

inductive linux_step :: "'k kernel_api \<Rightarrow> ('k \<Rightarrow> nft_table option) \<Rightarrow> addr set \<times> 'k lin_state \<Rightarrow> addr set \<times> 'k lin_state \<Rightarrow> bool"
  for api tbl where
  Routed: "linux_route api p u st = (r, st') \<Longrightarrow> linux_step api tbl (A, st) (if r = None then insert p A else A, st')"
| Unrouted: "linux_unroute api p st = (r, st') \<Longrightarrow> linux_step api tbl (A, st) (if r = None then A - {p} else A, st')"
| Alive: "linux_set_alive api u b st = (r, st') \<Longrightarrow> linux_step api tbl (A, st) (A, st')"
| Upstreams: "linux_set_upstreams api ups mtu st = (r, st') \<Longrightarrow> linux_step api tbl (A, st) (A, st')"
| Others: "tbl k' = tbl k \<Longrightarrow> linux_step api tbl (A, (d, k)) (A, (d, k'))"

inductive_cases linux_stepE: "linux_step api tbl s s'"

definition confined :: "('k \<Rightarrow> nft_table option) \<Rightarrow> (u32 \<Rightarrow> u8 list) \<Rightarrow> string \<Rightarrow> addr set \<times> 'k lin_state \<Rightarrow> bool" where
  "confined tbl native down s \<longleftrightarrow> guarded tbl native down (snd s) \<and> (\<forall>a. admitted tbl (snd s) a \<longrightarrow> a \<in> fst s)"

context kernel_laws
begin

lemma linux_step_confined:
  assumes "linux_step api tbl s s'" and c: "confined tbl native down s"
  shows "confined tbl native down s'"
  using assms(1)
proof (cases rule: linux_step.cases)
  case (Routed p u st r st' A)
  with c have g: "guarded tbl native down st" "\<And>a. admitted tbl st a \<Longrightarrow> a \<in> A" by (auto simp: confined_def)
  have "a \<in> (if r = None then insert p A else A)" if "admitted tbl st' a" for a
    using route_guarded [OF Routed(3) g(1)] g(2) [of a] that by (cases "a = p"; cases r) auto
  with route_guarded [OF Routed(3) g(1)] Routed(2) show ?thesis by (simp add: confined_def)
next
  case (Unrouted p st r st' A)
  with c have g: "guarded tbl native down st" "\<And>a. admitted tbl st a \<Longrightarrow> a \<in> A" by (auto simp: confined_def)
  have "a \<in> (if r = None then A - {p} else A)" if "admitted tbl st' a" for a
    using unroute_guarded [OF Unrouted(3) g(1)] g(2) [of a] that by (cases "a = p"; cases r) auto
  with unroute_guarded [OF Unrouted(3) g(1)] Unrouted(2) show ?thesis by (simp add: confined_def)
next
  case (Alive u b st r st' A)
  with c set_alive_guarded [OF Alive(3)] show ?thesis by (simp add: confined_def)
next
  case (Upstreams ups mtu st r st' A)
  with c have g: "guarded tbl native down st" by (simp add: confined_def)
  from set_upstreams_guarded [OF Upstreams(3) g] c Upstreams(1,2) show ?thesis by (simp add: confined_def)
next
  case (Others k' k A d)
  with c show ?thesis by (simp add: confined_def guarded_def admitted_def)
qed

lemma linux_run_confined:
  assumes "linux_setup api down ups mtu st = (None, st0)" and "(linux_step api tbl)\<^sup>*\<^sup>* ({}, st0) s"
  shows "confined tbl (ka_native api) (di_name down) s"
  using assms(2)
proof (induction rule: rtranclp_induct)
  case base
  show ?case using setup_guarded [OF assms(1)] by (simp add: confined_def)
qed (use linux_step_confined in blast)

end

section \<open>Properties\<close>

text \<open>C2. The Linux dataplane fails closed. On any kernel that keeps the nftables laws, after a successful \<open>Setup\<close> and any sequence of
  \<open>Route\<close>, \<open>Unroute\<close>, \<open>SetAlive\<close> and \<open>SetUpstreams\<close> calls, whatever the kernel refuses in the middle of them, the firewall
  forwards a packet from the downstream interface to another one only into an upstream and only if its source address was routed successfully and not
  unrouted successfully since; and it forwards a packet from an upstream only to the downstream interface, as an answer to such a peer.\<close>

theorem linux_fails_closed:
  assumes "kernel_laws api tbl" and "linux_setup api down ups mtu st = (None, st0)"
    and "(linux_step api tbl)\<^sup>*\<^sup>* ({}, st0) (A, st')" and "packet_ok p" and "forwarded_by (tbl (snd st')) p"
  shows "(pk_iif p = ifname (di_name down) \<and> pk_oif p \<noteq> ifname (di_name down) \<longrightarrow>
      pk_oif p \<in> keys (set_of (tbl (snd st')) upstreamSetName) \<and> src_of p \<in> as_slice ` A) \<and>
    (pk_iif p \<in> keys (set_of (tbl (snd st')) upstreamSetName) \<and> pk_iif p \<noteq> ifname (di_name down) \<longrightarrow>
      pk_oif p = ifname (di_name down) \<and> established (ka_native api) p \<and> dst_of p \<in> as_slice ` A)"
proof -
  have c: "confined tbl (ka_native api) (di_name down) (A, st')"
    by (rule kernel_laws.linux_run_confined [OF assms(1-3)])
  then have g: "guarded tbl (ka_native api) (di_name down) st'" by (simp add: confined_def)
  have a: "b \<in> as_slice ` A" if "\<exists>a. admitted tbl st' a \<and> b = as_slice a" for b using c that by (auto simp: confined_def)
  from guarded_packet [OF g assms(4,5)] a show ?thesis by blast
qed

definition sim_down :: dp_iface where "sim_down = \<lparr>di_name = ''lm0'', di_addr = Prefix (V4 0x0A4D0001) 16\<rparr>"
definition sim_up :: dp_iface where "sim_up = \<lparr>di_name = ''lm-up-a'', di_addr = Prefix (V4 0x0A080002) 32\<rparr>"

definition sim_start :: "sim lin_state" where
  "sim_start = (linux_new, \<lparr>sm_table = None, sm_rules = [], sm_routes = [], sm_links = [(''lm0'', 1), (''lm-up-a'', 2), (''lm-up-b'', 3)],
     sm_script = []\<rparr>)"

definition sim_packet :: packet where
  "sim_packet = \<lparr>pk_iif = ifname ''lm0'', pk_oif = ifname ''lm-up-a'', pk_nfproto = 2, pk_l4proto = 17,
     pk_network = replicate 12 0 @ [10, 77, 0, 2, 1, 1, 1, 1], pk_transport = [], pk_ct_state = [8, 0, 0, 0],
     pk_ct_mark = [0, 0, 0, 0], pk_mark = [0, 0, 0, 0]\<rparr>"

lemma sim_quiet: "sm_script k = [] \<Longrightarrow> sim_do f k = (None, f k)"
  by (simp add: sim_do_def)

lemma allocate_free: "interfaceOfTable tables t = [] \<Longrightarrow> \<not> tableBusy t routes rules \<Longrightarrow> t < tableLimit \<Longrightarrow>
    allocate_from tables routes rules t = Some t"
  by (subst allocate_from.simps) simp

lemma sim_configure:
  "sm_script k = [] \<Longrightarrow> map_of (sm_links k) (di_name i) = Some l \<Longrightarrow> configureLink sim_api i m k = (None, k)"
  by (simp add: configureLink_def sim_quiet andThen_def sysctl_def Let_def)

lemma sim_install:
  assumes "sm_script k = []"
  shows "\<exists>t. installFirewall sim_api down ups (d, k) = (None, (d\<lparr>lx_allowed := Some []\<rparr>, k\<lparr>sm_table := Some t\<rparr>))"
proof -
  let ?ms = "install_messages (ka_native sim_api) down (lx_tables d) ups"
  obtain t where t: "apply_msgs ?ms None = Some t" using installed by blast
  have ms: "?ms \<noteq> []" "hd ?ms = MAddTable" by (simp_all add: install_messages_def)
  have drop: "dropTable sim_api [] k = (None, k\<lparr>sm_table := None\<rparr>)"
    using assms by (cases "sm_table k") (simp_all add: dropTable_def flush_def sim_flush_def sim_quiet apply_msgs_def)
  have "flush sim_api ?ms (k\<lparr>sm_table := None\<rparr>) = (None, k\<lparr>sm_table := Some t\<rparr>)"
    using assms ms t by (simp add: flush_def sim_flush_def sim_quiet)
  then show ?thesis
    by (intro exI [of _ t]) (simp add: installFirewall_def closeForeignForwardChains_def openForeignForwardChains_def foreignForwardChains_def flush_def
        [of _ "[]"] open_messages_def drop andThen_def kern_def)
qed

text \<open>\<open>Setup\<close> of one upstream on a kernel without rules and routes.\<close>

lemma sim_setup_one:
  assumes k: "sm_rules k = []" "sm_routes k = []" "sm_script k = []" "map_of (sm_links k) down = Some l" "map_of (sm_links k) up = Some l'"
  shows "\<exists>d k'. linux_setup sim_api \<lparr>di_name = down, di_addr = a\<rparr> [\<lparr>di_name = up, di_addr = b\<rparr>] mtu (linux_new, k) = (None, (d, k')) \<and>
     lx_tables d = [(up, 1000)] \<and> lx_down d = down \<and> lx_alive d = [] \<and> lx_allowed d = Some [] \<and>
     sm_script k' = [] \<and> sm_rules k' = [probe_rule (paddr b) 1000 up] \<and> sm_links k' = sm_links k"
proof -
  have conf: "configureLink sim_api \<lparr>di_name = down, di_addr = a\<rparr> mtu k = (None, k)" "configureLink sim_api \<lparr>di_name = up, di_addr = b\<rparr> 0 k = (None, k)"
    using k by (simp_all add: sim_configure)
  have alloc: "allocate_from [] [] [] tableBase = Some 1000"
    by (simp add: allocate_free tableBusy_def linux_consts)
  let ?d = "linux_new\<lparr>lx_down := down\<rparr>"
  have left: "removeLeftovers sim_api (?d, k) = (None, (?d, k))"
    using k by (simp add: removeLeftovers_def rangeRoutes_def andThen_def)
  let ?k2 = "k\<lparr>sm_routes := [default_route l' 1000], sm_rules := [probe_rule (paddr b) 1000 up]\<rparr>"
  have add: "addUpstream sim_api \<lparr>di_name = up, di_addr = b\<rparr> (?d, k) = (None, (?d\<lparr>lx_tables := [(up, 1000)]\<rparr>, ?k2))"
    using k by (simp add: addUpstream_def kern_def conf andThen_def tableFor_def allocateTable_def rangeRoutes_def alloc
        linux_new_def addDefaultRoute_def sim_quiet unless_exists_def)
  obtain t where inst: "installFirewall sim_api down [up] (?d\<lparr>lx_tables := [(up, 1000)]\<rparr>, ?k2) =
      (None, (?d\<lparr>lx_tables := [(up, 1000)], lx_allowed := Some []\<rparr>, ?k2\<lparr>sm_table := Some t\<rparr>))"
    using sim_install [of ?k2 down "[up]" "?d\<lparr>lx_tables := [(up, 1000)]\<rparr>"] k by auto
  have "linux_setup sim_api \<lparr>di_name = down, di_addr = a\<rparr> [\<lparr>di_name = up, di_addr = b\<rparr>] mtu (linux_new, k) =
      (None, (?d\<lparr>lx_tables := [(up, 1000)], lx_allowed := Some []\<rparr>, ?k2\<lparr>sm_table := Some t\<rparr>))"
    using k add left inst
    by (simp add: linux_setup_def andThen_def kern_def sysctl_def sim_quiet Let_def conf linux_new_def)
  then show ?thesis using k by (simp add: linux_new_def)
qed

lemma sim_setup:
  "\<exists>d k. linux_setup sim_api sim_down [sim_up] 1280 sim_start = (None, (d, k)) \<and> lx_tables d = [(''lm-up-a'', 1000)] \<and> lx_down d = ''lm0'' \<and>
     lx_alive d = [] \<and> sm_script k = [] \<and> sm_rules k = [probe_rule (V4 0x0A080002) 1000 ''lm-up-a''] \<and>
     sm_links k = sm_links (snd sim_start) \<and> lx_allowed d = Some []"
  using sim_setup_one [of "snd sim_start" "''lm0''" 1 "''lm-up-a''" 2 "Prefix (V4 0x0A4D0001) 16" "Prefix (V4 0x0A080002) 32" 1280]
  by (auto simp: sim_start_def sim_down_def sim_up_def)

lemma sim_first_rules:
  assumes "sm_rules k = [probe_rule a t n]"
  shows "rulesFor sim_api p (d, k) = Inr []"
  using assms by (simp add: rulesFor_def ownRules_def Let_def probeDeletionAmbiguous_def probe_rule_def new_rule_def linux_consts find_None_iff)

lemma sim_first_route:
  assumes "sm_script k = []" and "map_of (lx_tables d) u = Some t" and "rulesFor sim_api p (d, k) = Inr []"
    and "lx_allowed d = Some []" and "sm_table k \<noteq> None"
  shows "\<exists>st'. linux_route sim_api p u (d, k) = (None, st')"
proof -
  have "\<exists>k1. addRule sim_api p t peerRulePriority k = (None, k1) \<and> sm_script k1 = [] \<and> sm_table k1 = sm_table k"
    using assms(1) by (auto simp: addRule_def unless_exists_def sim_quiet)
  then obtain k1 where "addRule sim_api p t peerRulePriority k = (None, k1)" "sm_script k1 = []" "sm_table k1 = sm_table k" by blast
  with assms show ?thesis
    by (simp add: linux_route_def andThen_def kern_def authorize_def mget_def flush_def sim_flush_def sim_quiet)
qed

theorem linux_fails_closed_witness:
  "\<exists>A st'. (linux_step sim_api sm_table)\<^sup>*\<^sup>* ({}, snd (linux_setup sim_api sim_down [sim_up] 1280 sim_start)) (A, st') \<and>
     forwarded_by (sm_table (snd st')) sim_packet \<and> src_of sim_packet \<in> as_slice ` A"
proof -
  let ?p = "V4 0x0A4D0002"
  obtain d k where s: "linux_setup sim_api sim_down [sim_up] 1280 sim_start = (None, (d, k))"
    and dk: "lx_tables d = [(''lm-up-a'', 1000)]" "sm_script k = []" "lx_allowed d = Some []"
      "sm_rules k = [probe_rule (V4 0x0A080002) 1000 ''lm-up-a'']"
    using sim_setup by blast
  note g = sim.setup_guarded [OF s]
  have g0: "guarded sm_table (ka_native sim_api) ''lm0'' (d, k)" using g by (simp add: sim_down_def)
  have ups: "keys (set_of (sm_table k) upstreamSetName) = {ifname ''lm-up-a''}" using g by (simp add: sim_up_def)
  have "rulesFor sim_api ?p (d, k) = Inr []" by (rule sim_first_rules [OF dk(4)])
  with dk g0 obtain st' where r: "linux_route sim_api ?p ''lm-up-a'' (d, k) = (None, st')"
    using sim_first_route [of k d "''lm-up-a''" 1000 ?p] by (auto simp: guarded_def)
  have "linux_step sim_api sm_table ({}, (d, k)) ({?p}, st')" using linux_step.Routed [OF r, of sm_table "{}"] by simp
  then have run: "(linux_step sim_api sm_table)\<^sup>*\<^sup>* ({}, (d, k)) ({?p}, st')" by blast
  note g1 = sim.route_guarded [OF r g0]
  have ups': "keys (set_of (sm_table (snd st')) upstreamSetName) = {ifname ''lm-up-a''}"
    using g1 ups by simp
  have names: "ifname ''lm0'' \<noteq> ifname ''lm-up-a''" by (simp add: ifname_def)
  have pk: "packet_ok sim_packet" "pk_iif sim_packet = ifname ''lm0''" "pk_oif sim_packet = ifname ''lm-up-a''"
    "pk_nfproto sim_packet = 2" "src_of sim_packet = [10, 77, 0, 2]"
    by (simp_all add: packet_ok_def sim_packet_def src_of_def)
  have slice: "as_slice ?p = [10, 77, 0, 2]" by (simp add: octets_def)
  have "forwarded_by (sm_table (snd st')) sim_packet"
    using g1 names pk slice ups' by (subst forward_exact [OF pk(1), of _ "ka_native sim_api" "''lm0''"])
      (auto simp: guarded_def admitted_def simp del: as_slice.simps)
  with linux_fails_closed [OF sim.kernel_laws_axioms s run pk(1)] run s names pk show ?thesis
    by (intro exI [of _ "{?p}"] exI [of _ st']) (simp add: sim_down_def)
qed

text \<open>C25. \<open>Teardown\<close> stops ingress before it takes the protection away. If the firewall table changed at all, the downstream link was disabled,
  or is gone, first; a \<open>Teardown\<close> without error leaves no table; and what it did not finish it does on the next call.\<close>

theorem teardown_stops_ingress_first:
  assumes "kernel_laws api tbl" and "linux_teardown api st = (r, st')"
  shows "(tbl (snd st') = tbl (snd st) \<or>
      lx_down (fst st) = [] \<or> ka_link api (lx_down (fst st)) (snd st) = Inl KNoLink \<or>
      (\<exists>link k. ka_link api (lx_down (fst st)) (snd st) = Inr link \<and> ka_set_down api link (snd st) = (None, k))) \<and>
    (r = None \<longrightarrow> tbl (snd st') = None)"
proof -
  have "lx_down (fst st) = [] \<or> ka_link api (lx_down (fst st)) (snd st) = Inl KNoLink \<or>
      (\<exists>link k. ka_link api (lx_down (fst st)) (snd st) = Inr link \<and> ka_set_down api link (snd st) = (None, k))"
    if "tbl (snd st') \<noteq> tbl (snd st)"
    using kernel_laws.teardown_order [OF assms that]
    by (auto simp: stopIngress_def kern_None split: if_split_asm sum.split_asm kerr.split_asm)
  with kernel_laws.teardown_cleared [OF assms(1)] assms(2) show ?thesis by blast
qed

theorem teardown_stops_ingress_first_witness:
  "\<exists>d k st'. linux_setup sim_api sim_down [sim_up] 1280 sim_start = (None, (d, k)) \<and> sm_table k \<noteq> None \<and>
     linux_teardown sim_api (d, k\<lparr>sm_script := [False]\<rparr>) = (Some (Kernel (KOther ''refused'')), st') \<and> sm_table (snd st') = sm_table k"
proof -
  obtain d k where s: "linux_setup sim_api sim_down [sim_up] 1280 sim_start = (None, (d, k))"
    and k: "sm_links k = sm_links (snd sim_start)" and down: "lx_down d = ''lm0''" using sim_setup by blast
  have g: "sm_table k \<noteq> None" using sim.setup_guarded [OF s] by (simp add: guarded_def)
  let ?k = "k\<lparr>sm_script := [False]\<rparr>"
  have t: "linux_teardown sim_api (d, ?k) = (Some (Kernel (KOther ''refused'')), (d, k\<lparr>sm_script := []\<rparr>))"
    using down k by (simp add: linux_teardown_def stopIngress_def kern_def sim_do_def Let_def andThen_def sim_start_def)
  from teardown_stops_ingress_first [OF sim.kernel_laws_axioms t] down k have "sm_table (k\<lparr>sm_script := []\<rparr>) = sm_table k"
    by (auto simp: sim_do_def sim_start_def)
  with s g t show ?thesis by (intro exI) auto
qed

end
