(* ===== verification/Linux_Host.thy ===== *)
theory Linux_Host
  imports Linux_Kernel Daemon_World
begin

text \<open>
  The daemon on the Linux dataplane: the state of the dataplane, the kernel, the store, the files and the resolver are one world. The
  AmneziaWG devices act on the kernel and leave nftables alone. The laws of the kernel give the daemon's safety.
\<close>

record 'k linux_world =
  lw_dp :: linux_dp
  lw_kernel :: 'k
  lw_db :: store_db
  lw_files :: "string \<Rightarrow> string option"
  lw_dns :: "string \<Rightarrow> addr list option"

definition on_linux :: "('k lin_state \<Rightarrow> 'k lin_result) \<Rightarrow> 'k linux_world \<Rightarrow> (lin_error + 'x) option \<times> 'k linux_world" where
  "on_linux f w = (let (r, (d, k)) = f (lw_dp w, lw_kernel w) in (map_option Inl r, w\<lparr>lw_dp := d, lw_kernel := k\<rparr>))"

definition on_device :: "('k \<Rightarrow> 'x option \<times> 'k) \<Rightarrow> 'k linux_world \<Rightarrow> (lin_error + 'x) option \<times> 'k linux_world" where
  "on_device f w = (let (r, k) = f (lw_kernel w) in (map_option Inr r, w\<lparr>lw_kernel := k\<rparr>))"

definition linux_host :: "'k kernel_api \<Rightarrow> ('k, 'x) device_ops \<Rightarrow> ('k linux_world, lin_error + 'x) host" where
  "linux_host api dv = \<lparr>
     hs_dp = \<lparr>dp_setup = \<lambda>down ups m. on_linux (linux_setup api down ups m), dp_set_upstreams = \<lambda>ups m. on_linux (linux_set_upstreams api ups m),
       dp_route = \<lambda>ip i. on_linux (linux_route api ip i), dp_unroute = \<lambda>ip. on_linux (linux_unroute api ip),
       dp_set_alive = \<lambda>i b. on_linux (linux_set_alive api i b), dp_teardown = on_linux (linux_teardown api)\<rparr>,
     hs_new_tun = \<lambda>n m. on_device (dv_new_tun dv n m), hs_configure = \<lambda>n t. on_device (dv_configure dv n t),
     hs_up = \<lambda>n. on_device (dv_up dv n), hs_close = \<lambda>n w. w\<lparr>lw_kernel := dv_close dv n (lw_kernel w)\<rparr>,
     hs_list_peers = \<lambda>w. list_peers (lw_db w), hs_read_file = lw_files, hs_lookup = lw_dns\<rparr>"

definition world_admits :: "('k \<Rightarrow> nft_table option) \<Rightarrow> (u32 \<Rightarrow> u8 list) \<Rightarrow> 'k linux_world \<Rightarrow> addr \<Rightarrow> string option" where
  "world_admits tbl native w = linux_fwd tbl native DownstreamInterface (lw_dp w, lw_kernel w)"

locale linux_devices = kernel_laws api tbl
  for api :: "'k kernel_api" and tbl :: "'k \<Rightarrow> nft_table option" +
  fixes dv :: "('k, 'x) device_ops"
  assumes dev_tun: "dv_new_tun dv n m k = (r, k') \<Longrightarrow> tbl k' = tbl k"
    and dev_configure: "dv_configure dv n t k = (r, k') \<Longrightarrow> tbl k' = tbl k"
    and dev_up: "dv_up dv n k = (r, k') \<Longrightarrow> tbl k' = tbl k"
    and dev_close: "tbl (dv_close dv n k) = tbl k"

lemma on_linux_state:
  "on_linux f w = (r, w') \<Longrightarrow> \<exists>r'. f (lw_dp w, lw_kernel w) = (r', (lw_dp w', lw_kernel w')) \<and> (r = None \<longleftrightarrow> r' = None)"
  by (auto simp: on_linux_def Let_def split: prod.split_asm)

lemma admits_kernel: "tbl k' = tbl (lw_kernel w) \<Longrightarrow> world_admits tbl native (w\<lparr>lw_kernel := k'\<rparr>) = world_admits tbl native w"
  by (simp add: world_admits_def linux_fwd_def guarded_def admitted_def fun_eq_iff)

lemma on_device_admits:
  "on_device f w = (r, w') \<Longrightarrow> (\<And>k q k'. f k = (q, k') \<Longrightarrow> tbl k' = tbl k) \<Longrightarrow> world_admits tbl native w' = world_admits tbl native w"
  by (auto simp: on_device_def intro: admits_kernel split: prod.split_asm)

lemma linux_host_ops [simp]:
  "dp_route (hs_dp (linux_host api dv)) ip i = on_linux (linux_route api ip i)"
  "dp_unroute (hs_dp (linux_host api dv)) ip = on_linux (linux_unroute api ip)"
  "dp_set_alive (hs_dp (linux_host api dv)) i b = on_linux (linux_set_alive api i b)"
  "dp_setup (hs_dp (linux_host api dv)) down ups m = on_linux (linux_setup api down ups m)"
  "dp_set_upstreams (hs_dp (linux_host api dv)) ups m = on_linux (linux_set_upstreams api ups m)"
  "hs_new_tun (linux_host api dv) n m = on_device (dv_new_tun dv n m)" "hs_configure (linux_host api dv) n t = on_device (dv_configure dv n t)"
  "hs_up (linux_host api dv) n = on_device (dv_up dv n)"
  "hs_close (linux_host api dv) n w = w\<lparr>lw_kernel := dv_close dv n (lw_kernel w)\<rparr>"
  "hs_list_peers (linux_host api dv) w = list_peers (lw_db w)" "hs_read_file (linux_host api dv) = lw_files" "hs_lookup (linux_host api dv) = lw_dns"
  by (simp_all add: linux_host_def)

sublocale linux_devices \<subseteq> lw: daemon_calls "linux_host api dv" "world_admits tbl (ka_native api)"
proof (unfold_locales, unfold linux_host_ops)
  let ?F = "world_admits tbl (ka_native api)"
  fix ip i w r w' a
  assume "on_linux (linux_route api ip i) w = (r, w')" "a \<noteq> ip" "?F w a = None"
  then show "?F w' a = None" unfolding world_admits_def using lin.route_keeps on_linux_state linux_ops_fields(1) by metis
next
  let ?F = "world_admits tbl (ka_native api)"
  fix ip i w e w'
  assume "on_linux (linux_route api ip i) w = (Some e, w')" "?F w ip = None"
  then show "?F w' ip = None" unfolding world_admits_def using lin.route_blocked on_linux_state linux_ops_fields(1)
    by (metis not_None_eq)
next
  let ?F = "world_admits tbl (ka_native api)"
  fix ip w w' a
  assume "on_linux (linux_unroute api ip) w = (None, w')" "?F w a = None"
  then show "?F w' ip = None" unfolding world_admits_def using lin.unroute_clears on_linux_state linux_ops_fields(2) by metis
next
  let ?F = "world_admits tbl (ka_native api)"
  fix ip w r w' a
  assume "on_linux (linux_unroute api ip) w = (r, w')" "?F w a = None"
  then show "?F w' a = None" unfolding world_admits_def using lin.unroute_keeps on_linux_state linux_ops_fields(2) by metis
next
  let ?F = "world_admits tbl (ka_native api)"
  fix i b w r w' a
  assume "on_linux (linux_set_alive api i b) w = (r, w')" "?F w a = None"
  then show "?F w' a = None" unfolding world_admits_def using lin.set_alive_keeps on_linux_state linux_ops_fields(3) by metis
next
  let ?F = "world_admits tbl (ka_native api)"
  fix ups mtu w r w' a
  assume "on_linux (linux_set_upstreams api ups mtu) w = (r, w')" "?F w a = None"
  then show "?F w' a = None" unfolding world_admits_def using lin.set_upstreams_keeps on_linux_state linux_ops_fields(4) by metis
qed (auto intro: on_device_admits admits_kernel dev_close dest: dev_tun dev_configure dev_up)

context linux_devices
begin

lemma linux_start_ok:
  assumes "start (linux_host api dv) (new_daemon cfg idn, w) = (None, st)"
  shows "daemon_ok (world_admits tbl (ka_native api)) st"
proof -
  have "world_admits tbl (ka_native api) (snd st) a = None" for a
  proof (rule lw.start_fresh [OF assms])
    fix down ups m w w' a
    assume down: "di_name down = DownstreamInterface" and "dp_setup (hs_dp (linux_host api dv)) down ups m w = (None, w')"
    then have "linux_setup api down ups m (lw_dp w, lw_kernel w) = (None, (lw_dp w', lw_kernel w'))"
      using on_linux_state [of "linux_setup api down ups m" w None w'] by auto
    from setup_guarded [OF this, of a] down show "world_admits tbl (ka_native api) w' a = None"
      by (simp add: world_admits_def linux_fwd_None)
  qed
  then show ?thesis by (intro lw.fresh_ok [OF assms]) (simp add: fail_closed_def)
qed

lemma linux_daemon_ok:
  assumes "start (linux_host api dv) (new_daemon cfg idn, w) = (None, st0)"
    and "(daemon_step (linux_host api dv) (world_admits tbl (ka_native api)))\<^sup>*\<^sup>* st0 st"
  shows "daemon_ok (world_admits tbl (ka_native api)) st \<and> guarded tbl (ka_native api) DownstreamInterface (lw_dp (snd st), lw_kernel (snd st))"
proof -
  have ok: "daemon_ok (world_admits tbl (ka_native api)) st" by (rule lw.steps_ok [OF assms(2) linux_start_ok [OF assms(1)]])
  obtain b where "b \<notin> tracked (fst st)" using addr_outside [OF finite_tracked] by blast
  with ok have "world_admits tbl (ka_native api) (snd st) b = None" by (auto simp: daemon_ok_def fail_closed_def)
  with ok show ?thesis by (simp add: world_admits_def linux_fwd_None)
qed

end

section \<open>A run\<close>

text \<open>The settings and the database of the in-memory run, on the executable kernel.\<close>

definition sim_devices :: "(sim, unit) device_ops" where
  "sim_devices = \<lparr>dv_new_tun = \<lambda>_ _ k. (None, k), dv_configure = \<lambda>_ _ k. (None, k), dv_up = \<lambda>_ k. (None, k), dv_close = \<lambda>_ k. k\<rparr>"

interpretation sim_host: linux_devices sim_api sm_table sim_devices
  by unfold_locales (auto simp: sim_devices_def)

definition sim_world :: "store_db \<Rightarrow> sim linux_world" where
  "sim_world db = \<lparr>lw_dp = linux_new,
     lw_kernel = \<lparr>sm_table = None, sm_rules = [], sm_routes = [], sm_links = [(''lm0'', 1), (''lm-up-de1'', 2)], sm_script = []\<rparr>,
     lw_db = db, lw_files = \<lambda>_. Some (config_string sample_config), lw_dns = \<lambda>_. Some [V4 1]\<rparr>"

lemma sim_device_steps [simp]:
  "on_device (dv_new_tun sim_devices n m) w = (None, w)" "on_device (dv_configure sim_devices n t) w = (None, w)"
  "on_device (dv_up sim_devices n) w = (None, w)"
  by (simp_all add: on_device_def sim_devices_def)

lemma sim_start_run:
  assumes "load_upstream (\<lambda>_. Some (config_string sample_config)) (\<lambda>_. Some [V4 1]) run_upstream (cf_health run_settings) = Inr up"
    and "device_name up = ''lm-up-de1''"
  shows "\<exists>w. start (linux_host sim_api sim_devices) (new_daemon run_settings idn, sim_world db) =
      (None, ((new_daemon run_settings idn)\<lparr>d_down := True, d_ups := [up]\<rparr>, w)) \<and> lw_db w = db \<and>
    lx_tables (lw_dp w) = [(device_name up, 1000)] \<and> lx_allowed (lw_dp w) = Some [] \<and> sm_script (lw_kernel w) = [] \<and>
    sm_rules (lw_kernel w) = [probe_rule (paddr (up_addr up)) 1000 (device_name up)] \<and>
    keys (set_of (sm_table (lw_kernel w)) upstreamSetName) = {ifname (device_name up)}"
proof -
  have "cf_upstreams run_settings = [run_upstream]" "cf_listen run_settings = ''0.0.0.0:51820''"
    by (simp_all add: run_settings_def sample_settings_def default_config_def)
  moreover obtain d k where s: "linux_setup sim_api \<lparr>di_name = DownstreamInterface, di_addr = gateway run_settings\<rparr>
      [\<lparr>di_name = device_name up, di_addr = up_addr up\<rparr>] (daemon_mtu ((new_daemon run_settings idn)\<lparr>d_down := True, d_ups := [up]\<rparr> :: (lin_error + unit) daemon))
      (linux_new, lw_kernel (sim_world db)) = (None, (d, k))"
    and dk: "lx_tables d = [(device_name up, 1000)]" "lx_allowed d = Some []" "sm_script k = []"
      "sm_rules k = [probe_rule (paddr (up_addr up)) 1000 (device_name up)]"
    using sim_setup_one [of "lw_kernel (sim_world db)" DownstreamInterface 1 "device_name up" 2] assms(2)
    by (fastforce simp: sim_world_def DownstreamInterface_def)
  moreover have "keys (set_of (sm_table k) upstreamSetName) = {ifname (device_name up)}"
    using sim.setup_guarded [OF s] by simp
  ultimately show ?thesis
    using assms
    by (simp add: start_def sample_parts new_daemon_def open_upstream_def on_linux_def interfaces_def sim_world_def)
qed

lemma sim_probe:
  assumes "d_ups d = [up]" and "t_state (up_tracker up) = Unknown" and "lx_tables (lw_dp w) = [(device_name up, 1000)]"
  shows "\<exists>u d' w'. probe_upstream (linux_host sim_api sim_devices) (Some 5) 0 (d, w) = (d', w') \<and> d_ups d' = [u] \<and>
    up_cfg u = up_cfg up \<and> t_state (up_tracker u) = Up \<and> d_cfg d' = d_cfg d \<and> d_assignments d' = d_assignments d \<and>
    d_unroutePending d' = d_unroutePending d \<and> d_devicePeers d' = d_devicePeers d \<and>
    lw_db w' = lw_db w \<and> lw_kernel w' = lw_kernel w \<and> lx_tables (lw_dp w') = lx_tables (lw_dp w) \<and> lx_allowed (lw_dp w') = lx_allowed (lw_dp w)"
  using assms
  by (simp add: probe_upstream_def probe_result_def probe_observed_def observe_def Let_def countProbe_def apply_alive_def
      on_linux_def linux_set_alive_def device_name_def split: prod.splits)

lemma sim_reconcile:
  assumes d: "d_ups d = [u]" "up_cfg u = run_upstream" "t_state (up_tracker u) = Up" "d_cfg d = run_settings"
    "d_assignments d = []" "d_unroutePending d = []" "d_devicePeers d = []"
    and w: "list_peers (lw_db w) = Inr [sp]" "sp_profile sp = ''main''" "lx_tables (lw_dp w) = [(device_name u, 1000)]"
      "linux_route sim_api (sp_ip sp) (device_name u) (lw_dp w, lw_kernel w) = (None, (l, k))"
  shows "\<exists>d' w'. reconcile (linux_host sim_api sim_devices) (d, w) = ([], (d', w')) \<and> lw_dp w' = l \<and> lw_kernel w' = k"
proof -
  have n: "device_name u = ''lm-up-de1''" "up_name u = ''de1''" using d(2) by (simp_all add: device_name_def interface_name_def run_upstream_def)
  have prof: "config_profile run_settings ''main'' = Some \<lparr>pr_name = ''main'', pr_prefer = []\<rparr>"
    by (simp add: run_settings_def config_profile_def)
  have sel: "select_upstream \<lparr>pr_name = ''main'', pr_prefer = []\<rparr> (candidates (d\<lparr>d_devicePeers := m\<rparr>)) [] = Some ''de1''" for m
    by (rule run_select [of _ u]) (use d in simp_all)
  show ?thesis
    using d w n
    by (simp add: reconcile_def add_device_peer_def route_peer_def prof mget_def assign_def sel on_linux_def)
qed

section \<open>Properties\<close>

text \<open>C3. The daemon on Linux leaks nothing. On any kernel and devices that keep the laws, after a successful start and any run of probes, reconciliations,
  reloads and activity of others, with refusals of the kernel anywhere: a packet that came in on the downstream interface and that the firewall forwards
  to another interface goes into an upstream, and its source is the address of a peer on the device that is assigned to an upstream in service or
  whose cleanup is pending.\<close>

theorem daemon_on_linux:
  assumes "linux_devices api tbl dv" and "start (linux_host api dv) (new_daemon cfg idn, w) = (None, st0)"
    and "(daemon_step (linux_host api dv) (world_admits tbl (ka_native api)))\<^sup>*\<^sup>* st0 st"
    and "packet_ok p" and "forwarded_by (tbl (lw_kernel (snd st))) p"
    and "pk_iif p = ifname DownstreamInterface" and "pk_oif p \<noteq> ifname DownstreamInterface"
  shows "pk_oif p \<in> keys (set_of (tbl (lw_kernel (snd st))) upstreamSetName) \<and>
    (\<exists>(k, q) \<in> set (d_devicePeers (fst st)). src_of p = as_slice (sp_ip q) \<and>
      (mget (d_unroutePending (fst st)) (sp_ip q) False \<or>
       (\<exists>u \<in> set (d_ups (fst st)). map_of (d_assignments (fst st)) (sp_ip q) = Some (up_name u))))"
proof -
  note ok = linux_devices.linux_daemon_ok [OF assms(1-3)]
  have f: "forwarded_by (tbl (snd (lw_dp (snd st), lw_kernel (snd st)))) p" using assms(5) by simp
  from guarded_packet(1) [OF conjunct2 [OF ok] assms(4) f] assms(6,7)
  obtain a where a: "pk_oif p \<in> keys (set_of (tbl (lw_kernel (snd st))) upstreamSetName)"
      "admitted tbl (lw_dp (snd st), lw_kernel (snd st)) a" "src_of p = as_slice a" by auto
  then have "world_admits tbl (ka_native api) (snd st) a = Some []" by (simp add: world_admits_def linux_fwd_def)
  from daemon_okD [OF conjunct1 [OF ok] this] a(1,3) show ?thesis by blast
qed

theorem daemon_on_linux_witness:
  "\<exists>(st :: (sim linux_world, lin_error + unit) dstate) p. packet_ok p \<and> forwarded_by (sm_table (lw_kernel (snd st))) p \<and>
     pk_iif p = ifname DownstreamInterface \<and> pk_oif p \<noteq> ifname DownstreamInterface \<and>
     (\<exists>(k, q) \<in> set (d_devicePeers (fst st)). src_of p = as_slice (sp_ip q))"
proof -
  let ?host = "linux_host sim_api sim_devices"
  let ?F = "world_admits sm_table (ka_native sim_api)"
  obtain sp db where db: "list_peers db = Inr [sp]" "sp_profile sp = ''main''" and v4: "is4 (sp_ip sp)" using run_peers by blast
  obtain up where up: "load_upstream (\<lambda>_. Some (config_string sample_config)) (\<lambda>_. Some [V4 1]) run_upstream (cf_health run_settings) = Inr up"
    "up_cfg up = run_upstream" using run_load by blast
  have n: "device_name up = ''lm-up-de1''" using up(2) by (simp add: device_name_def interface_name_def run_upstream_def)
  let ?idn = "\<lparr>id_private = zero_key, id_params = zero_params\<rparr>"
  let ?d0 = "(new_daemon run_settings ?idn)\<lparr>d_down := True, d_ups := [up]\<rparr>"
  obtain w0 where st0: "start ?host (new_daemon run_settings ?idn, sim_world db) = (None, (?d0, w0))"
    and w0: "lw_db w0 = db" "lx_tables (lw_dp w0) = [(device_name up, 1000)]" "lx_allowed (lw_dp w0) = Some []" "sm_script (lw_kernel w0) = []"
      "sm_rules (lw_kernel w0) = [probe_rule (paddr (up_addr up)) 1000 (device_name up)]"
      "keys (set_of (sm_table (lw_kernel w0)) upstreamSetName) = {ifname (device_name up)}"
    using sim_start_run [OF up(1) n] by blast
  have d0: "d_ups (?d0 :: (lin_error + unit) daemon) = [up]" "t_state (up_tracker up) = Unknown"
    using load_upstream_ok [OF up(1)] by (simp_all add: upstream_ok_def answers_v4_def)
  obtain u d1 w1 where pr: "probe_upstream ?host (Some 5) 0 (?d0, w0) = (d1, w1)"
    and d1: "d_ups d1 = [u]" "up_cfg u = up_cfg up" "t_state (up_tracker u) = Up" "d_cfg d1 = run_settings"
      "d_assignments d1 = []" "d_unroutePending d1 = []" "d_devicePeers d1 = []"
    and w1: "lw_db w1 = lw_db w0" "lw_kernel w1 = lw_kernel w0" "lx_tables (lw_dp w1) = lx_tables (lw_dp w0)" "lx_allowed (lw_dp w1) = lx_allowed (lw_dp w0)"
    using sim_probe [OF d0 w0(2)] by (auto simp: new_daemon_def)
  have dn: "device_name u = device_name up" using d1(2) by (simp add: device_name_def)
  have s1: "daemon_step ?host ?F (?d0, w0) (d1, w1)" using daemon_step.Probed [of 0 "(?d0, w0)" ?host ?F "Some 5"] pr by simp
  then have run1: "(daemon_step ?host ?F)\<^sup>*\<^sup>* (?d0, w0) (d1, w1)" by blast
  have g1: "guarded sm_table (ka_native sim_api) DownstreamInterface (lw_dp w1, lw_kernel w1)"
    using sim_host.linux_daemon_ok [OF st0 run1] by simp
  have "\<exists>st'. linux_route sim_api (sp_ip sp) (device_name u) (lw_dp w1, lw_kernel w1) = (None, st')"
    by (rule sim_first_route [where t = 1000])
      (use g1 w0 w1 dn in \<open>auto simp: guarded_def intro: sim_first_rules\<close>)
  then obtain l k where r: "linux_route sim_api (sp_ip sp) (device_name u) (lw_dp w1, lw_kernel w1) = (None, (l, k))" by auto
  obtain d2 w2 where rec: "reconcile ?host (d1, w1) = ([], (d2, w2))" and lk: "lw_dp w2 = l" "lw_kernel w2 = k"
    using sim_reconcile [of d1 u w1 sp l k] d1 w0 w1 r db up(2) dn by auto
  have "daemon_step ?host ?F (d1, w1) (d2, w2)"
    by (rule daemon_step.Reconciled [OF _ rec]) (use d1 w0 w1 db in \<open>auto simp: keys_stable_def\<close>)
  with run1 have run: "(daemon_step ?host ?F)\<^sup>*\<^sup>* (?d0, w0) (d2, w2)" by (rule rtranclp.rtrancl_into_rtrancl)
  obtain v where v: "sp_ip sp = V4 v" using v4 by (cases "sp_ip sp") simp_all
  note g2 = sim.route_guarded [OF r g1]
  let ?p = "sim_packet\<lparr>pk_oif := ifname ''lm-up-de1'', pk_network := replicate 12 0 @ as_slice (V4 v) @ [1, 1, 1, 1]\<rparr>"
  have len: "length (as_slice (V4 v)) = 4" by (rule as_slice_V4)
  have pk: "packet_ok ?p" "pk_iif ?p = ifname DownstreamInterface" "pk_oif ?p = ifname ''lm-up-de1''" "pk_nfproto ?p = 2" "src_of ?p = as_slice (V4 v)"
    using len by (simp_all add: packet_ok_def sim_packet_def src_of_def DownstreamInterface_def del: as_slice.simps)
  have names: "ifname DownstreamInterface \<noteq> ifname ''lm-up-de1''" by (simp add: ifname_def DownstreamInterface_def)
  have ups: "keys (set_of (sm_table k) upstreamSetName) = {ifname ''lm-up-de1''}" using g2 w0(6) w1 n by simp
  have adm: "as_slice (V4 v) \<in> keys (set_of (sm_table k) peerSetName)" using g2 v by (simp add: admitted_def del: as_slice.simps)
  have "forwarded_by (sm_table k) ?p"
  proof (subst forward_exact [OF pk(1)])
    show "rules_of (sm_table k) ''forward'' = forward_rules (ka_native sim_api) DownstreamInterface" using g2 by (simp add: guarded_def)
    show "ifname DownstreamInterface \<notin> keys (set_of (sm_table k) upstreamSetName)" using ups names by simp
  qed (use ups adm pk in simp)
  then have f: "forwarded_by (sm_table (lw_kernel (snd (d2, w2)))) ?p" using lk by simp
  have o: "pk_oif ?p \<noteq> ifname DownstreamInterface" using names pk(3) by simp
  from daemon_on_linux [OF sim_host.linux_devices_axioms st0 run pk(1) f pk(2) o]
  have "\<exists>(k, q) \<in> set (d_devicePeers (fst (d2, w2))). src_of ?p = as_slice (sp_ip q)" by blast
  with f pk(1,2) o show ?thesis by blast
qed

end
