(* ===== verification/Linux_Refine.thy ===== *)
theory Linux_Refine
  imports Linux_Kernel Dataplane_Fake
begin

text \<open>
  The routing of the Linux dataplane refines the in-memory one: while nobody else uses Lotsman's rule priorities in its tables, the policy
  rules of a peer say where the fake routes it and which upstreams its old flows are pinned to. Rules are observed through \<open>rls\<close>;
  additions and deletions are those of the kernel's documentation (\<open>insert_rule\<close>, \<open>remove_rule\<close>).
\<close>

locale rule_laws =
  fixes api :: "'k kernel_api" and rls :: "'k \<Rightarrow> ip_rule list"
  assumes rules_read: "ka_rules api k = Inr rs \<Longrightarrow> rs = rls k"
    and add_ok: "ka_rule_add api r k = (None, k') \<Longrightarrow> r \<notin> set (rls k) \<and> rls k' = insert_rule r (rls k)"
    and add_exists: "ka_rule_add api r k = (Some KExist, k') \<Longrightarrow> r \<in> set (rls k)"
    and add_failed: "ka_rule_add api r k = (Some e, k') \<Longrightarrow> rls k' = rls k"
    and del_ok: "ka_rule_del api r k = (None, k') \<Longrightarrow> rls k' = remove_rule r (rls k)"
    and flush_rls: "ka_flush api ms k = (q, k') \<Longrightarrow> rls k' = rls k"

interpretation sim_rules: rule_laws sim_api sm_rules
  by unfold_locales
    (auto simp: sim_do_def sim_flush_def Let_def split: if_split_asm list.split_asm)

section \<open>The shapes of a peer's rules\<close>

lemma byte_bits_all: "byte_bits b = replicate 8 True \<Longrightarrow> b = 0xff"
proof -
  assume "byte_bits b = replicate 8 True"
  then have "\<forall>n \<in> {0, 1, 2, 3, 4, 5, 6, 7}. bit b n" by (simp add: byte_bits_def numeral_eq_Suc)
  then have "bit b n" if "n < 8" for n using that by (auto simp: less_Suc_eq numeral_eq_Suc)
  then have "b = - 1" by (intro bit_word_eqI) simp
  then show "b = 0xff" by simp
qed

lemma mask_size_32: "mask_size m = (32, 32) \<Longrightarrow> m = replicate 4 0xff"
proof -
  assume m: "mask_size m = (32, 32)"
  let ?bits = "concat (map byte_bits m)"
  have len: "length ?bits = 8 * length m" by (induction m) (simp_all add: byte_bits_def)
  from m have l: "length ?bits = 32" "length (takeWhile (\<lambda>b. b) ?bits) = length ?bits"
    by (auto simp: mask_size_def Let_def split: if_split_asm)
  then have "takeWhile (\<lambda>b. b) ?bits = ?bits" by (metis takeWhile_eq_take take_all_iff order_refl)
  then have all_set: "\<forall>b \<in> set ?bits. b" by (metis set_takeWhileD)
  have "b = 0xff" if "b \<in> set m" for b
  proof (rule byte_bits_all)
    have "\<forall>x \<in> set (byte_bits b). x" using all_set that by auto
    moreover have "length (byte_bits b) = 8" by (simp add: byte_bits_def)
    ultimately show "byte_bits b = replicate 8 True" by (metis replicate_eqI)
  qed
  moreover have "length m = 4" using len l by simp
  ultimately show "m = replicate 4 0xff" by (metis replicate_eqI)
qed

definition plain_rule :: "addr \<Rightarrow> int \<Rightarrow> ip_rule" where
  "plain_rule p t = peer_rule p t peerRulePriority"

lemma rule_fields [simp]:
  "rl_table (plain_rule p t) = t" "rl_priority (plain_rule p t) = peerRulePriority" "rl_oif (plain_rule p t) = []"
  "rl_src (plain_rule p t) = Some (hostNet p)" "rl_table (pin_rule p t) = t" "rl_priority (pin_rule p t) = pinRulePriority"
  "rl_oif (pin_rule p t) = []" "rl_src (pin_rule p t) = Some (hostNet p)" "pinRulePriority \<noteq> peerRulePriority" "peerRulePriority \<noteq> pinRulePriority"
  by (simp_all add: plain_rule_def peer_rule_def pin_rule_def new_rule_def pinRulePriority_def peerRulePriority_def)

lemma host_eq: "is4 p \<Longrightarrow> is4 q \<Longrightarrow> hostNet p = hostNet q \<longleftrightarrow> p = q"
  using hostNet_inj by (cases p; cases q) auto

lemma plain_rule_eq: "is4 p \<Longrightarrow> is4 q \<Longrightarrow> plain_rule p s = plain_rule q t \<longleftrightarrow> p = q \<and> s = t"
  using host_eq rule_fields(1,4) by (metis option.inject)

lemma pin_rule_eq: "is4 p \<Longrightarrow> is4 q \<Longrightarrow> pin_rule p s = pin_rule q t \<longleftrightarrow> p = q \<and> s = t"
  using host_eq rule_fields(5,8) by (metis option.inject)

lemma plain_pin [simp]: "plain_rule p s \<noteq> pin_rule q t" "pin_rule q t \<noteq> plain_rule p s"
  using rule_fields by metis+

lemma host_src:
  assumes "is4 p" and "mask_size (net_mask s) = (32, 32)" and "length (net_ip s) = 4" and "ip_equal (net_ip s) (as_slice p)"
  shows "s = hostNet p"
proof -
  from assms(1) obtain v where p: "p = V4 v" by (cases p) simp_all
  have "net_mask s = replicate 4 0xff" by (rule mask_size_32 [OF assms(2)])
  moreover have "net_ip s = as_slice p"
    using assms(3,4) as_slice_V4 [of v] by (simp add: ip_equal_def v4_in_v6_def p)
  ultimately show ?thesis by (simp add: hostNet_def p)
qed

text \<open>Priorities 3000 and 5000 in the tables of Lotsman are used by Lotsman only.\<close>

definition orderly :: "ip_rule list \<Rightarrow> bool" where
  "orderly rs \<longleftrightarrow> distinct rs \<and>
     (\<forall>x \<in> set rs. in_range (rl_table x) \<and> rl_priority x \<in> {peerRulePriority, pinRulePriority} \<longrightarrow>
        ours x \<and> length (net_ip (the (rl_src x))) = 4)"

definition peer_like :: "addr \<Rightarrow> ip_rule \<Rightarrow> bool" where
  "peer_like p r \<longleftrightarrow> (\<exists>t. in_range t \<and> (r = plain_rule p t \<or> r = pin_rule p t))"

lemma ours_shape:
  assumes "ours x" and "rl_priority x \<in> {peerRulePriority, pinRulePriority}"
  obtains (plain) src where "rl_priority x = peerRulePriority" "rl_src x = Some src" "in_range (rl_table x)" "mask_size (net_mask src) = (32, 32)"
      "x = new_rule (Some src) (rl_table x) peerRulePriority"
    | (pinned) src where "rl_priority x = pinRulePriority" "rl_src x = Some src" "in_range (rl_table x)" "mask_size (net_mask src) = (32, 32)"
      "x = (new_rule (Some src) (rl_table x) pinRulePriority)\<lparr>rl_mark := of_int (rl_table x), rl_mask := Some 0xffffffff\<rparr>"
  using assms unfolding ours_iff by (auto simp: new_rule_def linux_consts)

lemma peer_like_ours: "is4 p \<Longrightarrow> peer_like p r \<Longrightarrow> ours r"
  unfolding peer_like_def plain_rule_def using ours_peer ours_pin by blast

lemma own_shape:
  assumes "ours x" and "length (net_ip (the (rl_src x))) = 4" and "is4 p" and "rl_src x = Some s" and "ip_equal (net_ip s) (as_slice p)"
  shows "rl_priority x = peerRulePriority \<Longrightarrow> x = plain_rule p (rl_table x)"
    and "rl_priority x = pinRulePriority \<Longrightarrow> x = pin_rule p (rl_table x)"
proof -
  have s: "s = hostNet p" if "mask_size (net_mask s) = (32, 32)" using host_src [OF assms(3) that _ assms(5)] assms(2,4) by simp
  show "x = plain_rule p (rl_table x)" if "rl_priority x = peerRulePriority"
  proof -
    from that have "rl_priority x \<in> {peerRulePriority, pinRulePriority}" by simp
    with assms(1) show ?thesis
      by (cases rule: ours_shape) (use s assms(4) that in \<open>auto simp: plain_rule_def peer_rule_def\<close>)
  qed
  show "x = pin_rule p (rl_table x)" if "rl_priority x = pinRulePriority"
  proof -
    from that have "rl_priority x \<in> {peerRulePriority, pinRulePriority}" by simp
    with assms(1) show ?thesis
      by (cases rule: ours_shape) (use s assms(4) that in \<open>auto simp: pin_rule_def\<close>)
  qed
qed

text \<open>In an orderly list a deletion takes exactly the rule it names.\<close>

lemma selects_exact:
  assumes "orderly rs" and "x \<in> set rs" and "is4 p" and "peer_like p r" and "selects r x"
  shows "x = r"
proof -
  from assms(4) obtain t where t: "in_range t" "r = plain_rule p t \<or> r = pin_rule p t" by (auto simp: peer_like_def)
  from assms(5) t have x: "rl_table x = t" "rl_priority x = rl_priority r" "rl_src x = Some (hostNet p)" by (auto simp: selects_def)
  with assms(1,2) t have "ours x" "length (net_ip (the (rl_src x))) = 4" by (auto simp: orderly_def)
  note shape = own_shape [OF this assms(3) x(3)]
  have eq: "ip_equal (net_ip (hostNet p)) (as_slice p)" by (simp add: ip_equal_def hostNet_def)
  from t(2) show "x = r"
  proof
    assume r: "r = plain_rule p t"
    then have "x = plain_rule p (rl_table x)" using x(2) by (intro shape(1) [OF eq]) simp
    then show ?thesis using r x(1) by simp
  next
    assume r: "r = pin_rule p t"
    then have "x = pin_rule p (rl_table x)" using x(2) by (intro shape(2) [OF eq]) simp
    then show ?thesis using r x(1) by simp
  qed
qed

lemma set_insert_rule [simp]: "set (insert_rule r rs) = insert r (set rs)"
  by (induction rs) auto

lemma distinct_insert_rule: "r \<notin> set rs \<Longrightarrow> distinct (insert_rule r rs) = distinct rs"
  by (induction rs) auto

lemma remove_rule_exact:
  "distinct rs \<Longrightarrow> r \<in> set rs \<Longrightarrow> selects r r \<Longrightarrow> (\<And>x. x \<in> set rs \<Longrightarrow> selects r x \<Longrightarrow> x = r) \<Longrightarrow>
   set (remove_rule r rs) = set rs - {r} \<and> distinct (remove_rule r rs)"
proof (induction rs)
  case (Cons x xs)
  show ?case
  proof (cases "selects r x")
    case True
    with Cons.prems show ?thesis by (metis (no_types, lifting) Diff_insert_absorb distinct.simps(2) list.set_intros(1) list.simps(15) remove_rule.simps(2))
  next
    case False
    with Cons.prems(2,3) have "x \<noteq> r" "r \<in> set xs" by auto
    with Cons False show ?thesis by auto
  qed
qed simp

lemma selects_refl [simp]: "selects r r"
  by (simp add: selects_def)

lemma orderly_subset: "orderly rs \<Longrightarrow> set rs' \<subseteq> set rs \<Longrightarrow> distinct rs' \<Longrightarrow> orderly rs'"
  unfolding orderly_def by blast

lemma orderly_insert:
  assumes "orderly rs" and "is4 p" and "peer_like p r" and "r \<notin> set rs"
  shows "orderly (insert_rule r rs)"
proof -
  have "length (net_ip (the (rl_src r))) = 4"
    using assms(2,3) as_slice_V4 by (cases p) (auto simp: peer_like_def hostNet_def simp del: as_slice.simps)
  then show ?thesis
    using assms distinct_insert_rule peer_like_ours [OF assms(2,3)] by (auto simp: orderly_def)
qed

section \<open>What the operations do to the rules\<close>

definition tables_ok :: "(string \<times> int) list \<Rightarrow> bool" where
  "tables_ok tabs \<longleftrightarrow> distinct (map fst tabs) \<and> distinct (map snd tabs) \<and> [] \<notin> keys tabs \<and> (\<forall>t \<in> snd ` set tabs. in_range t)"

lemma ip_equal_refl [simp]: "ip_equal a a"
  by (simp add: ip_equal_def)

lemma hostNet_ip [simp]: "net_ip (hostNet p) = as_slice p"
  by (simp add: hostNet_def)

text \<open>Any recognised rule of these priorities is some peer's.\<close>

lemma ours_peer_like:
  assumes "ours x" and "length (net_ip (the (rl_src x))) = 4" and "rl_priority x \<in> {peerRulePriority, pinRulePriority}"
  shows "\<exists>p. is4 p \<and> peer_like p x"
proof -
  from assms(1,3) obtain s where s: "rl_src x = Some s" "in_range (rl_table x)" by (cases rule: ours_shape) auto
  with assms(2) obtain v where v: "as_slice (V4 v) = net_ip s" using as_slice_surj [of "net_ip s"] by auto
  have "ip_equal (net_ip s) (as_slice (V4 v))" by (simp add: v del: as_slice.simps)
  note own_shape [OF assms(1,2) _ s(1) this]
  with assms(3) s(2) have "peer_like (V4 v) x" by (auto simp: peer_like_def simp del: as_slice.simps)
  then show ?thesis by (intro exI [of _ "V4 v"]) simp
qed

context rule_laws
begin

lemma delRule_exact:
  assumes "delRule api r (d, k) = (None, st')" and "orderly (rls k)" and "is4 p" and "peer_like p r" and "r \<in> set (rls k)"
  shows "\<exists>k'. st' = (d, k') \<and> set (rls k') = set (rls k) - {r} \<and> orderly (rls k')"
proof -
  from assms(1) obtain k' where k': "ka_rule_del api r k = (None, k')" "st' = (d, k')" by (auto simp: delRule_def kern_None)
  have "set (remove_rule r (rls k)) = set (rls k) - {r} \<and> distinct (remove_rule r (rls k))"
    using assms(2,5) selects_exact [OF assms(2) _ assms(3,4)] by (intro remove_rule_exact) (auto simp: orderly_def)
  with del_ok [OF k'(1)] k'(2) orderly_subset [OF assms(2)] show ?thesis by auto
qed

lemma each_del:
  assumes "each (delRule api) rs (d, k) = (None, st')" and "orderly (rls k)" and "distinct rs"
    and "\<forall>r \<in> set rs. r \<in> set (rls k) \<and> (\<exists>p. is4 p \<and> peer_like p r)"
  shows "\<exists>k'. st' = (d, k') \<and> set (rls k') = set (rls k) - set rs \<and> orderly (rls k')"
  using assms
proof (induction rs arbitrary: k)
  case (Cons r rs)
  from Cons.prems(1) obtain st1 where st1: "delRule api r (d, k) = (None, st1)" "each (delRule api) rs st1 = (None, st')"
    by (auto simp: andThen_None)
  obtain p where p: "is4 p" "peer_like p r" using Cons.prems(4) by auto
  obtain k1 where k1: "st1 = (d, k1)" "set (rls k1) = set (rls k) - {r}" "orderly (rls k1)"
    using delRule_exact [OF st1(1) Cons.prems(2) p] Cons.prems(4) by auto
  have "\<forall>x \<in> set rs. x \<in> set (rls k1) \<and> (\<exists>p. is4 p \<and> peer_like p x)" using Cons.prems(3,4) k1(2) by auto
  from Cons.IH [OF st1(2) [unfolded k1(1)] k1(3) _ this] Cons.prems(3) k1(2) show ?case by auto
qed auto

lemma add_exact:
  assumes "kern (unless_exists (ka_rule_add api r)) (d, k) = (None, st')" and "orderly (rls k)" and "is4 p" and "peer_like p r"
  shows "\<exists>k'. st' = (d, k') \<and> set (rls k') = insert r (set (rls k)) \<and> orderly (rls k')"
proof -
  from assms(1) obtain k' where k': "unless_exists (ka_rule_add api r) k = (None, k')" "st' = (d, k')" by (auto simp: kern_None)
  then consider "ka_rule_add api r k = (None, k')" | "ka_rule_add api r k = (Some KExist, k')"
    by (auto simp: unless_exists_def split: prod.split_asm option.split_asm kerr.split_asm)
  then show ?thesis
  proof cases
    case 1
    from add_ok [OF this] k'(2) orderly_insert [OF assms(2-4)] show ?thesis by auto
  next
    case 2
    from add_exists [OF this] add_failed [OF this] k'(2) assms(2) show ?thesis by auto
  qed
qed

lemma pins_exact:
  assumes "each (pinOld api p) old (d, k) = (None, st')" and "orderly (rls k)" and "is4 p" and "\<forall>r \<in> set old. in_range (rl_table r)"
  shows "\<exists>k'. st' = (d, k') \<and> orderly (rls k') \<and> set (rls k') = set (rls k) \<union>
    {pin_rule p (rl_table r) |r. r \<in> set old \<and> mget (lx_alive d) (interfaceOfTable (lx_tables d) (rl_table r)) False}"
  using assms
proof (induction old arbitrary: k)
  case (Cons r rs)
  from Cons.prems(1) obtain st1 where st1: "pinOld api p r (d, k) = (None, st1)" "each (pinOld api p) rs st1 = (None, st')"
    by (auto simp: andThen_None)
  have like: "peer_like p (pin_rule p (rl_table r))" using Cons.prems(4) by (auto simp: peer_like_def)
  let ?new = "if mget (lx_alive d) (interfaceOfTable (lx_tables d) (rl_table r)) False then {pin_rule p (rl_table r)} else {}"
  obtain k1 where k1: "st1 = (d, k1)" "set (rls k1) = set (rls k) \<union> ?new" "orderly (rls k1)"
    using st1(1) Cons.prems(2) add_exact [OF _ Cons.prems(2,3) like, of d st1]
    by (auto simp: pinOld_def addPinRule_def split: if_split_asm)
  from Cons.IH [OF st1(2) [unfolded k1(1)] k1(3) Cons.prems(3)] Cons.prems(4) k1(2) show ?case by auto
qed auto

lemma rulesFor_exact:
  assumes "rulesFor api p (d, k) = Inr rules" and o: "orderly (rls k)" and t: "tables_ok (lx_tables d)" and p: "is4 p"
  shows "set rules = {r \<in> set (rls k). \<exists>t \<in> snd ` set (lx_tables d). r = plain_rule p t \<or> r = pin_rule p t} \<and> distinct rules"
proof -
  let ?own = "\<lambda>r. ours r \<and> interfaceOfTable (lx_tables d) (rl_table r) \<noteq> [] \<and>
      (rl_oif r = [] \<or> rl_oif r = interfaceOfTable (lx_tables d) (rl_table r))"
  let ?his = "\<lambda>r. (rl_priority r = peerRulePriority \<or> rl_priority r = pinRulePriority) \<and>
      (case rl_src r of None \<Rightarrow> False | Some src \<Rightarrow> ip_equal (net_ip src) (as_slice p))"
  have rules: "rules = filter ?his (filter ?own (rls k))"
    using assms(1) by (auto simp: rulesFor_def ownRules_def Let_def split: sum.split_asm option.split_asm dest!: rules_read)
  have known: "interfaceOfTable (lx_tables d) s \<noteq> [] \<longleftrightarrow> s \<in> snd ` set (lx_tables d)" for s
    using interfaceOfTable_None [of "lx_tables d" s] t by (auto simp: tables_ok_def)
  have "?his r \<and> ?own r \<longleftrightarrow> (\<exists>s \<in> snd ` set (lx_tables d). r = plain_rule p s \<or> r = pin_rule p s)" if r: "r \<in> set (rls k)" for r
  proof
    assume h: "?his r \<and> ?own r"
    then obtain src where src: "rl_src r = Some src" "ip_equal (net_ip src) (as_slice p)" by (cases "rl_src r") auto
    have k: "rl_table r \<in> snd ` set (lx_tables d)" using h known by blast
    then have "in_range (rl_table r)" using t by (auto simp: tables_ok_def)
    with o r h have len: "length (net_ip (the (rl_src r))) = 4" by (auto simp: orderly_def)
    from own_shape [OF _ len p src] h k show "\<exists>s \<in> snd ` set (lx_tables d). r = plain_rule p s \<or> r = pin_rule p s" by blast
  next
    assume "\<exists>s \<in> snd ` set (lx_tables d). r = plain_rule p s \<or> r = pin_rule p s"
    then obtain s where s: "s \<in> snd ` set (lx_tables d)" "r = plain_rule p s \<or> r = pin_rule p s" by blast
    then have "in_range s" using t by (auto simp: tables_ok_def)
    with s(2) have "ours r" using peer_like_ours [OF p] by (auto simp: peer_like_def)
    with s known [of s] show "?his r \<and> ?own r" by (elim disjE) simp_all
  qed
  with rules o show ?thesis by (auto simp: orderly_def)
qed

lemma routeScan_exact:
  assumes "routeScan api t rs old' (d, k) = (q, st')" and "orderly (rls k)" and "is4 p" and "distinct rs"
    and "\<forall>r \<in> set rs. r \<in> set (rls k) \<and> peer_like p r"
  shows "case q of Inl e \<Rightarrow> True
    | Inr None \<Rightarrow> plain_rule p t \<in> set rs \<and> (pin_rule p t \<notin> set rs \<longrightarrow> st' = (d, k))
    | Inr (Some out) \<Rightarrow> plain_rule p t \<notin> set rs \<and> out = old' @ filter (\<lambda>r. rl_priority r = peerRulePriority) rs \<and>
        (\<exists>k'. st' = (d, k') \<and> set (rls k') = set (rls k) - ({pin_rule p t} \<inter> set rs) \<and> orderly (rls k'))"
  using assms
proof (induction rs arbitrary: old' k)
  case (Cons r rs)
  obtain s where s: "in_range s" "r = plain_rule p s \<or> r = pin_rule p s" and r: "r \<in> set (rls k)" and like: "peer_like p r"
    using Cons.prems(5) by (auto simp: peer_like_def)
  have rest: "distinct rs" "r \<notin> set rs" "\<forall>x \<in> set rs. x \<in> set (rls k) \<and> peer_like p x" using Cons.prems(4,5) by auto
  consider (there) "r = plain_rule p t" | (plain) "r = plain_rule p s" "s \<noteq> t" | (pinned) "r = pin_rule p t" | (other) "r = pin_rule p s" "s \<noteq> t"
    using s by auto
  then show ?case
  proof cases
    case there
    with Cons.prems(1) show ?thesis by auto
  next
    case plain
    with Cons.prems(1) have "routeScan api t rs (old' @ [r]) (d, k) = (q, st')" by simp
    from Cons.IH [OF this Cons.prems(2,3) rest(1,3)] plain plain_rule_eq [OF Cons.prems(3,3)] show ?thesis by (auto split: sum.splits option.splits)
  next
    case pinned
    obtain e st1 where d: "delRule api r (d, k) = (e, st1)" by (cases "delRule api r (d, k)") blast
    show ?thesis
    proof (cases e)
      case (Some e')
      with Cons.prems(1) pinned d show ?thesis by auto
    next
      case None
      obtain k1 where k1: "st1 = (d, k1)" "set (rls k1) = set (rls k) - {r}" "orderly (rls k1)"
        using delRule_exact [OF d [unfolded None] Cons.prems(2,3) like r] by auto
      have "routeScan api t rs old' (d, k1) = (q, st')" using Cons.prems(1) pinned d None k1(1) by simp
      moreover have "\<forall>x \<in> set rs. x \<in> set (rls k1) \<and> peer_like p x" using rest k1(2) by auto
      ultimately show ?thesis using Cons.IH [OF _ k1(3) Cons.prems(3) rest(1)] pinned k1(2) rest(2)
        by (auto split: sum.splits option.splits)
    qed
  next
    case other
    with Cons.prems(1) have "routeScan api t rs old' (d, k) = (q, st')" by simp
    from Cons.IH [OF this Cons.prems(2,3) rest(1,3)] other pin_rule_eq [OF Cons.prems(3,3)] show ?thesis by (auto split: sum.splits option.splits)
  qed
qed auto

lemma authorize_rules:
  assumes "authorize api p b (d, k) = (r, (d', k'))"
  shows "rls k' = rls k \<and> lx_tables d' = lx_tables d \<and> lx_alive d' = lx_alive d"
proof -
  have f: "rls k1 = rls k" if "flush api ms k = (q, k1)" for ms q k1
    using that by (auto simp: flush_def dest: flush_rls split: if_split_asm)
  show ?thesis
    using assms f by (auto simp: authorize_def Let_def split: if_split_asm prod.split_asm option.split_asm)
qed

lemma pins_of_plain:
  "set old = {plain_rule p s |s. s \<in> T \<and> plain_rule p s \<in> R} \<Longrightarrow>
   {pin_rule p (rl_table r) |r. r \<in> set old \<and> A (rl_table r)} = {pin_rule p s |s. s \<in> T \<and> plain_rule p s \<in> R \<and> A s}"
  by (auto simp del: image_iff) (metis rule_fields(1))

lemma moved_sets:
  assumes "is4 p" and "\<And>s. plain_rule p s \<in> R \<Longrightarrow> s \<in> T \<Longrightarrow> s \<noteq> t"
  shows "(R - {pin_rule p t} \<union> {pin_rule p s |s. s \<in> T \<and> plain_rule p s \<in> R \<and> A s} \<union> {plain_rule p t}) -
      {plain_rule p s |s. s \<in> T \<and> plain_rule p s \<in> R} =
    (R - {pin_rule p t} \<union> {pin_rule p s |s. s \<in> T \<and> s \<noteq> t \<and> plain_rule p s \<in> R \<and> A s} \<union> {plain_rule p t}) -
      {plain_rule p s |s. s \<in> T \<and> s \<noteq> t}"
  using assms(2) plain_rule_eq [OF assms(1) assms(1)] by auto

text \<open>\<open>R\<close> are the rules before a successful \<open>Route\<close> of a peer with at most one plain rule, and no pin to where that leads.\<close>

lemma route_rules:
  assumes "linux_route api p u (d, k) = (None, (d', k'))" and o: "orderly (rls k)" and t: "tables_ok (lx_tables d)" and p: "is4 p"
    and one: "\<And>s s'. s \<in> snd ` set (lx_tables d) \<Longrightarrow> s' \<in> snd ` set (lx_tables d) \<Longrightarrow> plain_rule p s \<in> set (rls k) \<Longrightarrow>
        plain_rule p s' \<in> set (rls k) \<Longrightarrow> s = s'"
    and unpinned: "\<And>s. s \<in> snd ` set (lx_tables d) \<Longrightarrow> plain_rule p s \<in> set (rls k) \<Longrightarrow> pin_rule p s \<notin> set (rls k)"
  shows "\<exists>t. map_of (lx_tables d) u = Some t \<and> lx_tables d' = lx_tables d \<and> lx_alive d' = lx_alive d \<and> orderly (rls k') \<and>
    set (rls k') = (set (rls k) - {pin_rule p t} \<union>
        {pin_rule p s |s. s \<in> snd ` set (lx_tables d) \<and> s \<noteq> t \<and> plain_rule p s \<in> set (rls k) \<and>
           mget (lx_alive d) (interfaceOfTable (lx_tables d) s) False} \<union> {plain_rule p t}) -
      {plain_rule p s |s. s \<in> snd ` set (lx_tables d) \<and> s \<noteq> t}"
proof -
  let ?T = "snd ` set (lx_tables d)" and ?R = "set (rls k)"
  from assms(1) obtain t where tab: "map_of (lx_tables d) u = Some t" by (cases "map_of (lx_tables d) u") (auto simp: linux_route_def)
  then have tT: "t \<in> ?T" by (force dest: map_of_SomeD)
  have range: "in_range s" if "s \<in> ?T" for s using that assms(3) by (auto simp: tables_ok_def)
  from assms(1) tab obtain rules where rf: "rulesFor api p (d, k) = Inr rules"
    by (cases "rulesFor api p (d, k)") (auto simp: linux_route_def)
  from rulesFor_exact [OF rf o t p] have rules: "set rules = {r \<in> ?R. \<exists>s \<in> ?T. r = plain_rule p s \<or> r = pin_rule p s}" "distinct rules"
    by simp_all
  then have like: "\<forall>r \<in> set rules. r \<in> ?R \<and> peer_like p r" using range by (auto simp: peer_like_def)
  obtain q st1 where sc: "routeScan api t rules [] (d, k) = (q, st1)" by (cases "routeScan api t rules [] (d, k)") blast
  note scan = routeScan_exact [OF sc o p rules(2) like]
  consider e where "q = Inl e" | "q = Inr None" | old where "q = Inr (Some old)" by (cases q) (auto intro: option.exhaust)
  then show ?thesis
  proof cases
    case 1
    with assms(1) tab rf sc show ?thesis by (simp add: linux_route_def)
  next
    case 2
    with scan rules have pl: "plain_rule p t \<in> ?R" and "pin_rule p t \<notin> set rules \<longrightarrow> st1 = (d, k)" by auto
    moreover have np: "pin_rule p t \<notin> ?R" using unpinned [OF tT pl] .
    ultimately have "st1 = (d, k)" using rules by auto
    with 2 assms(1) tab rf sc have "authorize api p True (d, k) = (None, (d', k'))" by (simp add: linux_route_def)
    from authorize_rules [OF this] one [OF tT _ pl] pl np o tab show ?thesis by auto
  next
    case (3 old)
    with scan obtain k1 where k1: "st1 = (d, k1)" "set (rls k1) = ?R - ({pin_rule p t} \<inter> set rules)" "orderly (rls k1)"
      and npl: "plain_rule p t \<notin> set rules" and old: "old = filter (\<lambda>r. rl_priority r = peerRulePriority) rules" by auto
    have old_set: "set old = {plain_rule p s |s. s \<in> ?T \<and> plain_rule p s \<in> ?R}" unfolding old using rules by auto
    have R1: "set (rls k1) = ?R - {pin_rule p t}" using k1(2) rules tT by auto
    from 3 assms(1) tab rf sc k1(1) obtain st2 st3 st4 where st2: "each (pinOld api p) old (d, k1) = (None, st2)"
      and st3: "kern (addRule api p t peerRulePriority) st2 = (None, st3)" and st4: "each (delRule api) old st3 = (None, st4)"
      and st5: "authorize api p True st4 = (None, (d', k'))" by (auto simp: linux_route_def andThen_None)
    have "\<forall>r \<in> set old. in_range (rl_table r)"
    proof
      fix r assume "r \<in> set old"
      then obtain s where "s \<in> ?T" "r = plain_rule p s" unfolding old_set by blast
      then show "in_range (rl_table r)" using range by simp
    qed
    from pins_exact [OF st2 k1(3) p this] obtain k2 where k2: "st2 = (d, k2)" "orderly (rls k2)"
      "set (rls k2) = set (rls k1) \<union> {pin_rule p (rl_table r) |r. r \<in> set old \<and> mget (lx_alive d) (interfaceOfTable (lx_tables d) (rl_table r)) False}"
      by blast
    have "peer_like p (plain_rule p t)" using range [OF tT] by (auto simp: peer_like_def)
    moreover have "kern (unless_exists (ka_rule_add api (plain_rule p t))) (d, k2) = (None, st3)"
      using st3 k2(1) by (simp add: addRule_def plain_rule_def)
    ultimately obtain k3 where k3: "st3 = (d, k3)" "set (rls k3) = insert (plain_rule p t) (set (rls k2))" "orderly (rls k3)"
      using add_exact [OF _ k2(2) p] by blast
    have R3: "set (rls k3) = (?R - {pin_rule p t} \<union> {pin_rule p s |s. s \<in> ?T \<and> plain_rule p s \<in> ?R \<and>
        mget (lx_alive d) (interfaceOfTable (lx_tables d) s) False}) \<union> {plain_rule p t}"
      using pins_of_plain [OF old_set, of "\<lambda>s. mget (lx_alive d) (interfaceOfTable (lx_tables d) s) False"]
      unfolding k3(2) k2(3) R1 by (simp only: Un_insert_right Un_empty_right)
    have "distinct old" using old rules(2) by simp
    moreover have "\<forall>r \<in> set old. r \<in> set (rls k3) \<and> (\<exists>p. is4 p \<and> peer_like p r)"
      unfolding R3 old_set using p range by (auto simp: peer_like_def)
    ultimately obtain k4 where k4: "st4 = (d, k4)" "set (rls k4) = set (rls k3) - set old" "orderly (rls k4)"
      using each_del [OF st4 [unfolded k3(1)] k3(3)] by blast
    have au: "rls k' = rls k4" "lx_tables d' = lx_tables d" "lx_alive d' = lx_alive d"
      using authorize_rules [OF st5 [unfolded k4(1)]] by simp_all
    have ne: "plain_rule p s \<in> ?R \<Longrightarrow> s \<in> ?T \<Longrightarrow> s \<noteq> t" for s using npl rules by auto
    have "set (rls k') = (?R - {pin_rule p t} \<union> {pin_rule p s |s. s \<in> ?T \<and> s \<noteq> t \<and> plain_rule p s \<in> ?R \<and>
           mget (lx_alive d) (interfaceOfTable (lx_tables d) s) False} \<union> {plain_rule p t}) -
      {plain_rule p s |s. s \<in> ?T \<and> s \<noteq> t}"
      unfolding au(1) k4(2) R3 old_set by (rule moved_sets [OF p ne])
    then show ?thesis using tab au k4(3) by auto
  qed
qed

lemma unroute_rules:
  assumes "linux_unroute api p (d, k) = (None, (d', k'))" and o: "orderly (rls k)" and t: "tables_ok (lx_tables d)" and p: "is4 p"
  shows "lx_tables d' = lx_tables d \<and> lx_alive d' = lx_alive d \<and> orderly (rls k') \<and>
    set (rls k') = set (rls k) - {r. \<exists>s \<in> snd ` set (lx_tables d). r = plain_rule p s \<or> r = pin_rule p s}"
proof -
  from assms(1) obtain d1 k1 where au: "authorize api p False (d, k) = (None, (d1, k1))"
    and rest: "(case rulesFor api p (d1, k1) of Inl e \<Rightarrow> (Some e, (d1, k1)) | Inr rules \<Rightarrow> each (delRule api) rules (d1, k1)) = (None, (d', k'))"
    by (auto simp: linux_unroute_def andThen_None)
  note k1 = authorize_rules [OF au]
  from rest obtain rules where rf: "rulesFor api p (d1, k1) = Inr rules" and del: "each (delRule api) rules (d1, k1) = (None, (d', k'))"
    by (cases "rulesFor api p (d1, k1)") auto
  have rules: "set rules = {r \<in> set (rls k). \<exists>s \<in> snd ` set (lx_tables d). r = plain_rule p s \<or> r = pin_rule p s}" "distinct rules"
    using rulesFor_exact [OF rf _ _ p] k1 o t by simp_all
  have "\<forall>r \<in> set rules. r \<in> set (rls k1) \<and> (\<exists>p. is4 p \<and> peer_like p r)"
  proof
    fix r assume "r \<in> set rules"
    then obtain s where s: "r \<in> set (rls k)" "s \<in> snd ` set (lx_tables d)" "r = plain_rule p s \<or> r = pin_rule p s" unfolding rules(1) by blast
    then have "in_range s" using t by (auto simp: tables_ok_def)
    with s k1 p show "r \<in> set (rls k1) \<and> (\<exists>p. is4 p \<and> peer_like p r)" unfolding peer_like_def by metis
  qed
  from each_del [OF del _ rules(2) this] k1 o rules show ?thesis by auto
qed

lemma set_alive_rules:
  assumes "linux_set_alive api u b (d, k) = (None, (d', k'))" and o: "orderly (rls k)" and t: "tables_ok (lx_tables d)"
  shows "\<exists>t. map_of (lx_tables d) u = Some t \<and> lx_tables d' = lx_tables d \<and> lx_alive d' = mput u b (lx_alive d) \<and> orderly (rls k') \<and>
    set (rls k') = (if b then set (rls k) else set (rls k) - {r. rl_priority r = pinRulePriority \<and> rl_table r = t})"
proof -
  from assms(1) obtain t where tab: "map_of (lx_tables d) u = Some t" by (cases "map_of (lx_tables d) u") (auto simp: linux_set_alive_def)
  have tT: "t \<in> snd ` set (lx_tables d)" using map_of_SomeD [OF tab] by force
  then have tr: "in_range t" using assms(3) by (auto simp: tables_ok_def)
  let ?d = "d\<lparr>lx_alive := mput u b (lx_alive d)\<rparr>"
  show ?thesis
  proof (cases b)
    case True
    with assms(1) tab o show ?thesis by (auto simp: linux_set_alive_def Let_def)
  next
    case False
    with assms(1) tab obtain own where own: "ownRules api (?d, k) = Inr own"
      and del: "each (delRule api) (filter (\<lambda>r. rl_priority r = pinRulePriority \<and> rl_table r = t) own) (?d, k) = (None, (d', k'))"
      by (cases "ownRules api (?d, k)") (auto simp: linux_set_alive_def Let_def)
    have eq: "own = filter (\<lambda>r. ours r \<and> interfaceOfTable (lx_tables d) (rl_table r) \<noteq> [] \<and>
        (rl_oif r = [] \<or> rl_oif r = interfaceOfTable (lx_tables d) (rl_table r))) (rls k)"
      using own by (auto simp: ownRules_def Let_def split: sum.split_asm option.split_asm dest!: rules_read)
    have known: "interfaceOfTable (lx_tables d) t \<noteq> []"
      using interfaceOfTable_None [of "lx_tables d" t] assms(3) tT by (auto simp: tables_ok_def)
    have good: "ours r \<and> length (net_ip (the (rl_src r))) = 4 \<and> rl_oif r = []"
      if r: "r \<in> set (rls k)" "rl_priority r = pinRulePriority" "rl_table r = t" for r
    proof -
      have a: "ours r" "length (net_ip (the (rl_src r))) = 4" using o r tr by (auto simp: orderly_def)
      obtain p where "peer_like p r" using ours_peer_like [OF a] r(2) by auto
      then show ?thesis using a by (auto simp: peer_like_def)
    qed
    let ?pins = "filter (\<lambda>r. rl_priority r = pinRulePriority \<and> rl_table r = t) own"
    have pins: "set ?pins = {r \<in> set (rls k). rl_priority r = pinRulePriority \<and> rl_table r = t}" unfolding eq using good known by auto
    have "\<forall>r \<in> set ?pins. r \<in> set (rls k) \<and> (\<exists>p. is4 p \<and> peer_like p r)"
      unfolding pins using good ours_peer_like by auto
    moreover have "distinct ?pins" using o by (simp add: eq orderly_def)
    ultimately have "\<exists>k2. (d', k') = (?d, k2) \<and> set (rls k2) = set (rls k) - set ?pins \<and> orderly (rls k2)"
      using each_del [OF del o] by blast
    with pins tab False show ?thesis by auto
  qed
qed

end

section \<open>The simulation\<close>

text \<open>The fake's routes and pins are the peers' rules in the tables of the upstreams.\<close>

definition simulates :: "('k \<Rightarrow> ip_rule list) \<Rightarrow> 'k lin_state \<Rightarrow> fake_dp \<Rightarrow> bool" where
  "simulates rls st f \<longleftrightarrow>
     tables_ok (lx_tables (fst st)) \<and> orderly (rls (snd st)) \<and> pins_ok f \<and>
     di_name ` set (fk_ups f) = keys (lx_tables (fst st)) \<and>
     (\<forall>u \<in> keys (lx_tables (fst st)). mget (fk_alive f) u False = mget (lx_alive (fst st)) u False) \<and>
     (\<forall>p u. fake_route_of p f = Some u \<longrightarrow> u \<in> keys (lx_tables (fst st))) \<and>
     (\<forall>p u t. is4 p \<and> map_of (lx_tables (fst st)) u = Some t \<longrightarrow>
        (plain_rule p t \<in> set (rls (snd st)) \<longleftrightarrow> fake_route_of p f = Some u) \<and>
        (pin_rule p t \<in> set (rls (snd st)) \<longleftrightarrow> fake_pinned_to p u f))"

lemma interfaceOfTable_of: "distinct (map snd tabs) \<Longrightarrow> map_of tabs v = Some s \<Longrightarrow> interfaceOfTable tabs s = v"
  by (induction tabs s rule: interfaceOfTable.induct) (auto split: if_split_asm dest!: map_of_SomeD, force)

lemma table_inj: "tables_ok tabs \<Longrightarrow> map_of tabs u = Some t \<Longrightarrow> map_of tabs v = Some t \<Longrightarrow> u = v"
  using interfaceOfTable_of by (metis tables_ok_def)

lemma table_named: "tables_ok tabs \<Longrightarrow> s \<in> snd ` set tabs \<Longrightarrow> \<exists>v. map_of tabs v = Some s"
  by (auto simp: tables_ok_def)

lemma named_table: "map_of tabs v = Some s \<Longrightarrow> s \<in> snd ` set tabs"
  by (force dest: map_of_SomeD)

lemma simulatesD:
  assumes "simulates rls (d, k) f"
  shows "tables_ok (lx_tables d)" "orderly (rls k)" "pins_ok f" "di_name ` set (fk_ups f) = keys (lx_tables d)"
    and "u \<in> keys (lx_tables d) \<Longrightarrow> mget (fk_alive f) u False = mget (lx_alive d) u False"
    and "fake_route_of p f = Some u \<Longrightarrow> u \<in> keys (lx_tables d)"
    and "is4 p \<Longrightarrow> map_of (lx_tables d) u = Some t \<Longrightarrow> plain_rule p t \<in> set (rls k) \<longleftrightarrow> fake_route_of p f = Some u"
    and "is4 p \<Longrightarrow> map_of (lx_tables d) u = Some t \<Longrightarrow> pin_rule p t \<in> set (rls k) \<longleftrightarrow> fake_pinned_to p u f"
  using assms by (auto simp: simulates_def)

lemma fake_route_of_move [simp]: "fake_route_of q (fake_move p u f) = (if q = p then Some u else fake_route_of q f)"
  by (simp add: fake_route_of_def)

lemma fake_move_frame [simp]: "fk_alive (fake_move p u f) = fk_alive f" "fk_ups (fake_move p u f) = fk_ups f"
  by (auto simp: fake_move_def Let_def fake_log_def pin_def unpin_def split: option.split)

context rule_laws
begin

lemma route_simulated:
  assumes "linux_route api p u (d, k) = (None, (d', k'))" and sim: "simulates rls (d, k) f" and p: "is4 p"
  shows "fake_route p u f = (None, fake_move p u f) \<and> simulates rls (d', k') (fake_move p u f)"
proof -
  note S = simulatesD [OF sim]
  let ?T = "snd ` set (lx_tables d)"
  have one: "s = s'" if h: "s \<in> ?T" "s' \<in> ?T" "plain_rule p s \<in> set (rls k)" "plain_rule p s' \<in> set (rls k)" for s s'
  proof -
    obtain v v' where v: "map_of (lx_tables d) v = Some s" "map_of (lx_tables d) v' = Some s'"
      using table_named [OF S(1) h(1)] table_named [OF S(1) h(2)] by blast
    with S(7) [OF p v(1)] S(7) [OF p v(2)] h(3,4) have "v = v'" by simp
    with v show "s = s'" by simp
  qed
  have unpinned: "pin_rule p s \<notin> set (rls k)" if h: "s \<in> ?T" "plain_rule p s \<in> set (rls k)" for s
  proof -
    obtain v where v: "map_of (lx_tables d) v = Some s" using table_named [OF S(1) h(1)] by blast
    with S(3) S(7) [OF p v] S(8) [OF p v] h(2) show ?thesis by (auto simp: pins_ok_def)
  qed
  obtain t where t: "map_of (lx_tables d) u = Some t" "lx_tables d' = lx_tables d" "lx_alive d' = lx_alive d" "orderly (rls k')"
    and R: "set (rls k') = (set (rls k) - {pin_rule p t} \<union>
        {pin_rule p s |s. s \<in> ?T \<and> s \<noteq> t \<and> plain_rule p s \<in> set (rls k) \<and> mget (lx_alive d) (interfaceOfTable (lx_tables d) s) False} \<union>
        {plain_rule p t}) - {plain_rule p s |s. s \<in> ?T \<and> s \<noteq> t}"
    using route_rules [OF assms(1) S(2,1) p one unpinned] by blast
  have u: "u \<in> di_name ` set (fk_ups f)" unfolding S(4) using map_of_SomeD [OF t(1)] by force
  then have fr: "fake_route p u f = (None, fake_move p u f)" by (auto simp: fake_route_def fake_route_in_eq)
  have "simulates rls (d', k') (fake_move p u f)"
    unfolding simulates_def fst_conv snd_conv t(2,3) fake_move_frame
  proof (intro conjI allI ballI impI)
    show "pins_ok (fake_move p u f)" using fake_step_pins [OF fake_step.Route S(3), of p u] fr by simp
  next
    fix q v assume "fake_route_of q (fake_move p u f) = Some v"
    then show "v \<in> keys (lx_tables d)" using u S(4,6) by (auto split: if_split_asm)
  next
    fix q v s assume h: "is4 q \<and> map_of (lx_tables d) v = Some s"
    then have q: "is4 q" and v: "map_of (lx_tables d) v = Some s" by simp_all
    have sT: "s \<in> ?T" by (rule named_table [OF v])
    have uv: "v = u \<longleftrightarrow> s = t" using table_inj [OF S(1) v, of u] v t(1) by auto
    have al: "interfaceOfTable (lx_tables d) s = v" using S(1) v by (intro interfaceOfTable_of) (simp_all add: tables_ok_def)
    have live: "mget (lx_alive d) v False = mget (fk_alive f) v False" using S(5) map_of_SomeD [OF v] by force
    show "plain_rule q s \<in> set (rls k') \<longleftrightarrow> fake_route_of q (fake_move p u f) = Some v"
      using S(7) [OF q v] uv sT plain_rule_eq [OF q p] plain_rule_eq [OF p p] by (auto simp: R simp del: image_iff)
    show "pin_rule q s \<in> set (rls k') \<longleftrightarrow> fake_pinned_to q v (fake_move p u f)"
      unfolding fake_pinned_move
      using S(8) [OF q v] S(7) [OF p v] uv sT al live pin_rule_eq [OF q p] by (auto simp: R simp del: image_iff)
  qed (use S t in auto)
  with fr show ?thesis ..
qed

lemma unroute_simulated:
  assumes "linux_unroute api p (d, k) = (None, (d', k'))" and sim: "simulates rls (d, k) f" and p: "is4 p"
  shows "simulates rls (d', k') (snd (fake_unroute p f))"
proof -
  note S = simulatesD [OF sim]
  note U = unroute_rules [OF assms(1) S(2,1) p]
  have fake: "fake_route_of q (snd (fake_unroute p f)) = (if q = p then None else fake_route_of q f)"
    "fake_pinned_to q v (snd (fake_unroute p f)) \<longleftrightarrow> q \<noteq> p \<and> fake_pinned_to q v f" for q v
    by (auto simp: fake_unroute_def fake_route_of_def fake_pinned_to_def mget_def split: option.splits)
  have ff: "fk_ups (snd (fake_unroute p f)) = fk_ups f" "fk_alive (snd (fake_unroute p f)) = fk_alive f" by (simp_all add: fake_unroute_def)
  show ?thesis
    unfolding simulates_def fst_conv snd_conv fake ff
  proof (intro conjI allI ballI impI)
    show "pins_ok (snd (fake_unroute p f))" by (rule fake_step_pins [OF fake_step.Unroute S(3)])
  next
    fix q v s assume h: "is4 q \<and> map_of (lx_tables d') v = Some s"
    then have q: "is4 q" and v: "map_of (lx_tables d) v = Some s" using U by simp_all
    have sT: "s \<in> snd ` set (lx_tables d)" by (rule named_table [OF v])
    have R: "set (rls k') = set (rls k) - {r. \<exists>s \<in> snd ` set (lx_tables d). r = plain_rule p s \<or> r = pin_rule p s}" using U by blast
    show "plain_rule q s \<in> set (rls k') \<longleftrightarrow> (if q = p then None else fake_route_of q f) = Some v"
      using S(7) [OF q v] sT plain_rule_eq [OF q p] unfolding R by auto
    show "pin_rule q s \<in> set (rls k') \<longleftrightarrow> q \<noteq> p \<and> fake_pinned_to q v f"
      using S(8) [OF q v] sT pin_rule_eq [OF q p] unfolding R by auto
  qed (use S U in \<open>auto split: if_split_asm\<close>)
qed

lemma set_alive_simulated:
  assumes "linux_set_alive api u b (d, k) = (None, (d', k'))" and sim: "simulates rls (d, k) f"
  shows "simulates rls (d', k') (snd (fake_set_alive u b f))"
proof -
  note S = simulatesD [OF sim]
  obtain t where t: "map_of (lx_tables d) u = Some t" "lx_tables d' = lx_tables d" "lx_alive d' = mput u b (lx_alive d)" "orderly (rls k')"
    and R: "set (rls k') = (if b then set (rls k) else set (rls k) - {r. rl_priority r = pinRulePriority \<and> rl_table r = t})"
    using set_alive_rules [OF assms(1) S(2,1)] by blast
  have ff: "fk_ups (snd (fake_set_alive u b f)) = fk_ups f" "fk_alive (snd (fake_set_alive u b f)) = mput u b (fk_alive f)"
    "fake_route_of q (snd (fake_set_alive u b f)) = fake_route_of q f" for q
    by (simp_all add: fake_set_alive_def fake_route_of_def Let_def)
  show ?thesis
    unfolding simulates_def fst_conv snd_conv ff fake_pinned_set_alive t(2,3)
  proof (intro conjI allI ballI impI)
    show "pins_ok (snd (fake_set_alive u b f))" by (rule fake_step_pins [OF fake_step.SetAlive S(3)])
  next
    fix q v s assume h: "is4 q \<and> map_of (lx_tables d) v = Some s"
    then have q: "is4 q" and v: "map_of (lx_tables d) v = Some s" by simp_all
    have uv: "v = u \<longleftrightarrow> s = t" using table_inj [OF S(1) v, of u] v t(1) by auto
    show "plain_rule q s \<in> set (rls k') \<longleftrightarrow> fake_route_of q f = Some v" using S(7) [OF q v] by (simp add: R)
    show "pin_rule q s \<in> set (rls k') \<longleftrightarrow> fake_pinned_to q v f \<and> (b \<or> v \<noteq> u)" using S(8) [OF q v] uv by (auto simp: R)
  qed (use S t in auto)
qed

end

section \<open>Properties\<close>

text \<open>C4. The routing of the Linux dataplane refines the in-memory one. While nobody else uses Lotsman's priorities in Lotsman's tables, a
  successful \<open>Route\<close>, \<open>Unroute\<close> or \<open>SetAlive\<close> of the Linux dataplane does to the kernel's policy rules what
  the fake does to its maps: a peer's plain rule leads to the upstream it was routed through last, and it has pin rules exactly for the upstreams
  its old flows stay on.\<close>

theorem linux_refines_fake:
  assumes "rule_laws api rls" and "simulates rls (d, k) f" and "is4 p"
  shows "(linux_route api p u (d, k) = (None, (d', k')) \<longrightarrow>
      fst (fake_route p u f) = None \<and> simulates rls (d', k') (snd (fake_route p u f))) \<and>
    (linux_unroute api p (d, k) = (None, (d', k')) \<longrightarrow> simulates rls (d', k') (snd (fake_unroute p f))) \<and>
    (linux_set_alive api u b (d, k) = (None, (d', k')) \<longrightarrow> simulates rls (d', k') (snd (fake_set_alive u b f)))"
  using rule_laws.route_simulated [OF assms(1) _ assms(2,3)] rule_laws.unroute_simulated [OF assms(1) _ assms(2,3)]
    rule_laws.set_alive_simulated [OF assms(1) _ assms(2)] by auto

theorem linux_refines_fake_witness:
  "\<exists>d' k' f. linux_route sim_api (V4 7) ''lm-up-a''
       (linux_new\<lparr>lx_tables := [(''lm-up-a'', 1000), (''lm-up-b'', 1001)], lx_allowed := Some []\<rparr>,
        (snd sim_start)\<lparr>sm_table := Some \<lparr>tb_sets = [], tb_rules = []\<rparr>\<rparr>) = (None, (d', k')) \<and>
     plain_rule (V4 7) (mget (lx_tables d') ''lm-up-a'' 0) \<in> set (sm_rules k') \<and> fake_route_of (V4 7) f = Some ''lm-up-a'' \<and> simulates sm_rules (d', k') f"
proof -
  let ?d = "linux_new\<lparr>lx_tables := [(''lm-up-a'', 1000), (''lm-up-b'', 1001)], lx_allowed := Some []\<rparr>"
  let ?k = "(snd sim_start)\<lparr>sm_table := Some \<lparr>tb_sets = [], tb_rules = []\<rparr>\<rparr>"
  let ?f = "fake_new\<lparr>fk_ups := [sim_up, \<lparr>di_name = ''lm-up-b'', di_addr = Prefix (V4 8) 32\<rparr>]\<rparr>"
  have sim: "simulates sm_rules (?d, ?k) ?f"
    by (auto simp: simulates_def tables_ok_def orderly_def in_range_def linux_consts linux_new_def sim_start_def fake_new_def sim_up_def
        pins_ok_def fake_pinned_to_def fake_route_of_def mget_def)
  have "rulesFor sim_api (V4 7) (?d, ?k) = Inr []" by (simp add: rulesFor_def ownRules_def sim_start_def)
  then obtain st' where "linux_route sim_api (V4 7) ''lm-up-a'' (?d, ?k) = (None, st')"
    using sim_first_route [of ?k ?d "''lm-up-a''" 1000 "V4 7"] by (auto simp: sim_start_def linux_new_def)
  then obtain d' k' where r: "linux_route sim_api (V4 7) ''lm-up-a'' (?d, ?k) = (None, (d', k'))" by (cases st') blast
  have "is4 (V4 7)" by simp
  with linux_refines_fake [OF sim_rules.rule_laws_axioms sim this, of "''lm-up-a''" d' k'] r
  have S: "simulates sm_rules (d', k') (snd (fake_route (V4 7) ''lm-up-a'' ?f))" by blast
  have f: "snd (fake_route (V4 7) ''lm-up-a'' ?f) = fake_move (V4 7) ''lm-up-a'' ?f" by (simp add: fake_route_def sim_up_def)
  have r': "fake_route_of (V4 7) (fake_move (V4 7) ''lm-up-a'' ?f) = Some ''lm-up-a''" by simp
  have "''lm-up-a'' \<in> keys (lx_tables d')" by (rule simulatesD(6) [OF S, of "V4 7"]) (simp only: f r')
  then obtain t where t: "map_of (lx_tables d') ''lm-up-a'' = Some t" using map_of_key [of "lx_tables d'" "''lm-up-a''"] by auto
  have "plain_rule (V4 7) t \<in> set (sm_rules k')" using simulatesD(7) [OF S _ t, of "V4 7"] f r' by simp
  with t have "plain_rule (V4 7) (mget (lx_tables d') ''lm-up-a'' 0) \<in> set (sm_rules k')" by (simp add: mget_def)
  with r r' S [unfolded f] show ?thesis by blast
qed

end
