(* ===== verification/Linux_Coexist.thy ===== *)
theory Linux_Coexist
  imports Linux_Refine
begin

text \<open>
  What the Linux dataplane leaves alone. Every rule it deletes has one of Lotsman's three shapes and every route it deletes is a default route without
  gateway in one of Lotsman's tables, so rules that no such rule selects and all other routes of the host survive every operation,
  also one that fails half way.
\<close>

locale host_laws = rule_laws api rls
  for api :: "'k kernel_api" and rls :: "'k \<Rightarrow> ip_rule list" +
  fixes rts :: "'k \<Rightarrow> route set"
  assumes routes_read: "ka_routes api k = Inr rs \<Longrightarrow> set rs = rts k"
    and rule_rts: "ka_rule_add api r k = (q, k') \<Longrightarrow> rts k' = rts k" "ka_rule_del api r k = (q, k') \<Longrightarrow> rts k' = rts k"
    and del_failed: "ka_rule_del api r k = (Some e, k') \<Longrightarrow> rls k' = rls k"
    and route_rls: "ka_route_add api rt k = (q, k') \<Longrightarrow> rls k' = rls k" "ka_route_del api rt k = (q, k') \<Longrightarrow> rls k' = rls k"
    and route_add: "ka_route_add api rt k = (q, k') \<Longrightarrow> rts k \<subseteq> rts k'"
    and route_del: "ka_route_del api rt k = (q, k') \<Longrightarrow> rts k - {rt} \<subseteq> rts k'"
    and flush_rts: "ka_flush api ms k = (q, k') \<Longrightarrow> rts k' = rts k"
    and sysctl_host: "ka_sysctl_set api path v k = (q, k') \<Longrightarrow> rls k' = rls k \<and> rts k' = rts k"
    and addr_host: "ka_addr_replace api l a k = (q, k') \<Longrightarrow> rls k' = rls k \<and> rts k' = rts k"
    and mtu_host: "ka_set_mtu api l m k = (q, k') \<Longrightarrow> rls k' = rls k \<and> rts k' = rts k"
    and up_host: "ka_set_up api l k = (q, k') \<Longrightarrow> rls k' = rls k \<and> rts k' = rts k"
    and down_host: "ka_set_down api l k = (q, k') \<Longrightarrow> rls k' = rls k \<and> rts k' = rts k"

definition lotsman_route :: "route \<Rightarrow> bool" where
  "lotsman_route r \<longleftrightarrow> in_range (rt_table r) \<and> isDefault r \<and> rt_gw r = []"

definition spared :: "('k \<Rightarrow> ip_rule list) \<Rightarrow> ('k \<Rightarrow> route set) \<Rightarrow> ip_rule \<Rightarrow> route \<Rightarrow> 'k \<Rightarrow> bool" where
  "spared rls rts x y k \<longleftrightarrow> x \<in> set (rls k) \<and> y \<in> rts k \<and> (\<forall>r. ours r \<longrightarrow> \<not> selects r x) \<and> \<not> lotsman_route y"

lemma remove_rule_other: "x \<in> set rs \<Longrightarrow> \<not> selects r x \<Longrightarrow> x \<in> set (remove_rule r rs)"
  by (induction rs) auto

context host_laws
begin

abbreviation (input) safe where "safe x y \<equiv> \<lambda>st. spared rls rts x y (snd st)"

lemma spared_same: "spared rls rts x y k \<Longrightarrow> rls k' = rls k \<and> rts k' = rts k \<Longrightarrow> spared rls rts x y k'"
  by (simp add: spared_def)

lemma quiet_calls [intro]:
  assumes "spared rls rts x y k"
  shows "spared rls rts x y (snd (ka_sysctl_set api path v k))" "spared rls rts x y (snd (ka_addr_replace api l a k))"
    "spared rls rts x y (snd (ka_set_mtu api l m k))" "spared rls rts x y (snd (ka_set_up api l k))"
    "spared rls rts x y (snd (ka_set_down api l k))"
  by (rule spared_same [OF assms], rule sysctl_host addr_host mtu_host up_host down_host, rule prod.collapse [symmetric])+

lemma flush_spared: "spared rls rts x y k \<Longrightarrow> spared rls rts x y (snd (flush api ms k))"
  using flush_rls [of ms k] flush_rts [of ms k] by (cases "ka_flush api ms k") (auto simp: flush_def spared_def)

lemma rule_add_spared: "spared rls rts x y k \<Longrightarrow> spared rls rts x y (snd (ka_rule_add api r k))"
proof (cases "ka_rule_add api r k")
  case (Pair q k')
  then show "spared rls rts x y k \<Longrightarrow> ?thesis"
    using add_ok [of r k k'] add_failed [of r k _ k'] rule_rts(1) [OF Pair] by (cases q) (auto simp: spared_def)
qed

lemma rule_del_spared: "spared rls rts x y k \<Longrightarrow> ours r \<Longrightarrow> spared rls rts x y (snd (ka_rule_del api r k))"
proof (cases "ka_rule_del api r k")
  case (Pair q k')
  then show "spared rls rts x y k \<Longrightarrow> ours r \<Longrightarrow> ?thesis"
    using del_ok [of r k k'] del_failed [of r k _ k'] rule_rts(2) [OF Pair] by (cases q) (auto simp: spared_def intro: remove_rule_other)
qed

lemma route_add_spared: "spared rls rts x y k \<Longrightarrow> spared rls rts x y (snd (ka_route_add api rt k))"
  using route_rls(1) route_add by (cases "ka_route_add api rt k") (force simp: spared_def)

lemma route_del_spared: "spared rls rts x y k \<Longrightarrow> lotsman_route rt \<Longrightarrow> spared rls rts x y (snd (ka_route_del api rt k))"
  using route_rls(2) route_del by (cases "ka_route_del api rt k") (force simp: spared_def)

lemma kern_safe: "(\<And>k. spared rls rts x y k \<Longrightarrow> spared rls rts x y (snd (f k))) \<Longrightarrow> safe x y st \<Longrightarrow> safe x y (snd (kern f st))"
  by (auto simp: kern_def Let_def split: prod.split) (metis snd_conv)

lemma unless_exists_spared:
  "(\<And>k. spared rls rts x y k \<Longrightarrow> spared rls rts x y (snd (f k))) \<Longrightarrow> spared rls rts x y k \<Longrightarrow> spared rls rts x y (snd (unless_exists f k))"
  by (auto simp: unless_exists_def split: prod.split option.split kerr.split) (metis snd_conv)+

lemma sysctl_spared: "spared rls rts x y k \<Longrightarrow> spared rls rts x y (snd (sysctl api key v k))"
  by (auto simp: sysctl_def Let_def split: option.split)

lemma configureLink_spared: "spared rls rts x y k \<Longrightarrow> spared rls rts x y (snd (configureLink api i m k))"
  by (auto simp: configureLink_def split: sum.split option.split intro!: andThen_inv [where P = "spared rls rts x y"] sysctl_spared)

lemma delRule_safe: "ours r \<Longrightarrow> safe x y st \<Longrightarrow> safe x y (snd (delRule api r st))"
  unfolding delRule_def by (rule kern_safe) (simp_all add: rule_del_spared)

lemma each_delRule_safe: "safe x y st \<Longrightarrow> \<forall>r \<in> set rs. ours r \<Longrightarrow> safe x y (snd (each (delRule api) rs st))"
  by (rule each_inv [where P = "safe x y"]) (auto intro: delRule_safe)

lemma addRule_spared:
  "spared rls rts x y k \<Longrightarrow> spared rls rts x y (snd (addRule api p t pr k))" "spared rls rts x y k \<Longrightarrow> spared rls rts x y (snd (addPinRule api p t k))"
  by (auto simp: addRule_def addPinRule_def intro: unless_exists_spared rule_add_spared)

lemma addDefaultRoute_safe: "safe x y st \<Longrightarrow> safe x y (snd (addDefaultRoute api l t st))"
  using route_add_spared [of x y "snd st" "default_route l t"]
  by (cases "ka_route_add api (default_route l t) (snd st)") (auto simp: addDefaultRoute_def split: sum.split)

lemma tableFor_snd: "snd (snd (tableFor api n st)) = snd st"
  by (auto simp: tableFor_def split: option.split sum.split)

lemma addUpstream_safe: "safe x y st \<Longrightarrow> safe x y (snd (addUpstream api up st))"
  unfolding addUpstream_def
proof (rule andThen_inv [where P = "safe x y"])
  show "safe x y st \<Longrightarrow> safe x y (snd (kern (configureLink api up 0) st))" by (rule kern_safe) (rule configureLink_spared)
next
  fix st1 :: "'k lin_state" assume st1: "safe x y st1"
  obtain r st2 where tf: "tableFor api (di_name up) st1 = (r, st2)" by (cases "tableFor api (di_name up) st1") blast
  have "safe x y st2" using tableFor_snd [of "di_name up" st1] tf st1 by simp
  then show "safe x y (snd (case tableFor api (di_name up) st1 of (Inl e, st) \<Rightarrow> (Some e, st)
       | (Inr table, st) \<Rightarrow> (case ka_link api (di_name up) (snd st) of Inl e \<Rightarrow> (Some (Kernel e), st)
         | Inr link \<Rightarrow> andThen (addDefaultRoute api link table st)
                  (kern (unless_exists (ka_rule_add api (probe_rule (paddr (di_addr up)) table (di_name up))))))))"
    by (auto simp: tf split: sum.split intro!: andThen_inv [where P = "safe x y"] addDefaultRoute_safe kern_safe unless_exists_spared rule_add_spared)
qed

lemma ownRules_ours: "ownRules api st = Inr own \<Longrightarrow> \<forall>r \<in> set own. ours r"
  by (auto simp: ownRules_def Let_def split: sum.split_asm option.split_asm)

lemma rulesFor_ours: "rulesFor api p st = Inr rules \<Longrightarrow> \<forall>r \<in> set rules. ours r"
  using ownRules_ours [of st] by (cases "ownRules api st") (auto simp: rulesFor_def)

lemma rangeRoutes_in: "rangeRoutes api t k = Inr rs \<Longrightarrow> r \<in> set rs \<Longrightarrow> in_range (rt_table r)"
  by (auto simp: rangeRoutes_def in_range_def split: sum.split_asm)

lemma flushTable_safe: "safe x y st \<Longrightarrow> safe x y (snd (flushTable api t st))"
  by (auto simp: flushTable_def split: sum.split
      intro!: each_inv [where P = "safe x y"] kern_safe route_del_spared dest: rangeRoutes_in)
    (auto simp: lotsman_route_def ourRoute_def dest: rangeRoutes_in)

lemma removeUpstream_safe: "safe x y st \<Longrightarrow> safe x y (snd (removeUpstream api n st))"
proof (cases "ownRules api st")
  case (Inr rules)
  have f: "\<forall>r \<in> set (filter (\<lambda>r. rl_table r = mget (lx_tables (fst st)) n 0) rules). ours r" using ownRules_ours [OF Inr] by simp
  show "safe x y st \<Longrightarrow> ?thesis" unfolding removeUpstream_def Let_def Inr sum.case
    by (intro andThen_inv [where P = "safe x y"] each_delRule_safe f flushTable_safe) (auto split: prod.split)
qed (simp add: removeUpstream_def)

lemma removeLeftovers_safe: "safe x y st \<Longrightarrow> safe x y (snd (removeLeftovers api st))"
proof -
  assume s: "safe x y st"
  have owned: "lotsman_route r" if "rangeRoutes api 0 k = Inr routes" "r \<in> set routes" "ownedTable (rt_table r) routes names" for k routes names r
    using that rangeRoutes_in [OF that(1,2)] by (auto simp: ownedTable_def lotsman_route_def ourRoute_def)
  show ?thesis
    using s unfolding removeLeftovers_def Let_def
    by (auto split: sum.split option.split
        intro!: andThen_inv [where P = "safe x y"] each_inv [where P = "safe x y"] each_delRule_safe kern_safe route_del_spared intro: owned)
qed

text \<open>The six methods.\<close>

lemma authorize_safe: "safe x y st \<Longrightarrow> safe x y (snd (authorize api p b st))"
  using flush_spared [of x y "snd st" "[authorize_message p b]"]
  by (cases "flush api [authorize_message p b] (snd st)") (auto simp: authorize_def Let_def split: option.split)

lemma routeScan_safe: "safe x y st \<Longrightarrow> \<forall>r \<in> set rs. ours r \<Longrightarrow> safe x y (snd (routeScan api t rs old' st))"
proof (induction rs arbitrary: old' st)
  case (Cons r rs)
  obtain q st1 where d: "delRule api r st = (q, st1)" by (cases "delRule api r st") blast
  have "safe x y st1" using delRule_safe [OF _ Cons.prems(1), of r] Cons.prems(2) d by simp
  with Cons d show ?case by (auto split: option.split)
qed simp

lemma route_safe: "safe x y st \<Longrightarrow> safe x y (snd (linux_route api p u st))"
proof (cases "map_of (lx_tables (fst st)) u"; cases "rulesFor api p st")
  fix t rules assume s: "safe x y st" and t: "map_of (lx_tables (fst st)) u = Some t" and rf: "rulesFor api p st = Inr rules"
  obtain q st1 where sc: "routeScan api t rules [] st = (q, st1)" by (cases "routeScan api t rules [] st") blast
  have s1: "safe x y st1" using routeScan_safe [OF s rulesFor_ours [OF rf], of t "[]"] sc by simp
  have old: "\<forall>r \<in> set old. ours r" if "q = Inr (Some old)" for old
  proof -
    have "set old \<subseteq> set [] \<union> set rules" if "routeScan api t rs o' s = (Inr (Some old), s')" "set rs \<subseteq> set rules" "set o' \<subseteq> set [] \<union> set rules" for rs o' s s'
      using that by (induction rs arbitrary: o' s) (auto split: if_split_asm option.split_asm prod.split_asm)
    from this [of rules "[]" st st1] sc that rulesFor_ours [OF rf] show ?thesis by auto
  qed
  show ?thesis
    using s t rf sc s1 old
    by (auto simp: linux_route_def split: sum.split option.split
        intro!: andThen_inv [where P = "safe x y"] each_inv [where P = "safe x y"] each_delRule_safe authorize_safe kern_safe addRule_spared
        intro: kern_safe)
      (auto simp: pinOld_def intro!: kern_safe addRule_spared)
qed (auto simp: linux_route_def)

lemma unroute_safe: "safe x y st \<Longrightarrow> safe x y (snd (linux_unroute api p st))"
  unfolding linux_unroute_def
  by (rule andThen_inv [where P = "safe x y"])
    (auto split: sum.split intro: authorize_safe intro!: each_delRule_safe dest: rulesFor_ours)

lemma set_alive_safe: "safe x y st \<Longrightarrow> safe x y (snd (linux_set_alive api u b st))"
  by (auto simp: linux_set_alive_def Let_def split: option.split sum.split intro!: each_delRule_safe dest: ownRules_ours)

lemma closeForeign_spared: "spared rls rts x y k \<Longrightarrow> closeForeignForwardChains api k = (r, ms, k') \<Longrightarrow> spared rls rts x y k'"
  using flush_spared
  by (auto simp: closeForeignForwardChains_def Let_def split: sum.split_asm prod.split_asm option.split_asm) (metis snd_conv)

lemma dropTable_spared: "spared rls rts x y k \<Longrightarrow> spared rls rts x y (snd (dropTable api ms k))"
  using flush_spared [of x y k "ms @ [MDelTable]"]
  by (cases "flush api (ms @ [MDelTable]) k") (auto simp: dropTable_def split: option.split kerr.split)

lemma openForeign_spared: "spared rls rts x y k \<Longrightarrow> spared rls rts x y (snd (openForeignForwardChains api down k))"
  by (auto simp: openForeignForwardChains_def flush_spared split: sum.split)

lemma installFirewall_safe: "safe x y st \<Longrightarrow> safe x y (snd (installFirewall api down ups st))"
proof -
  assume s: "safe x y st"
  obtain r ms k where c: "closeForeignForwardChains api (snd st) = (r, ms, k)" by (metis prod_cases3)
  have "spared rls rts x y k" by (rule closeForeign_spared [OF s c])
  then show ?thesis
    by (auto simp: installFirewall_def c split: option.split
        intro!: andThen_inv [where P = "safe x y"] kern_safe dropTable_spared flush_spared openForeign_spared)
qed

lemma setUpstreamSets_safe: "safe x y st \<Longrightarrow> safe x y (snd (setUpstreamSets api ups st))"
  by (auto simp: setUpstreamSets_def split: option.split intro!: kern_safe flush_spared)

lemma setup_safe: "safe x y st \<Longrightarrow> safe x y (snd (linux_setup api down ups mtu st))"
  unfolding linux_setup_def
  by (auto intro!: andThen_inv [where P = "safe x y"] each_inv [where P = "safe x y"] kern_safe sysctl_spared configureLink_spared
      removeLeftovers_safe addUpstream_safe installFirewall_safe)

lemma set_upstreams_safe: "safe x y st \<Longrightarrow> safe x y (snd (linux_set_upstreams api ups mtu st))"
  by (auto simp: linux_set_upstreams_def split: sum.split intro!: andThen_inv [where P = "safe x y"] each_inv [where P = "safe x y"] kern_safe
      addUpstream_safe removeUpstream_safe setUpstreamSets_safe)

lemma teardown_safe: "safe x y st \<Longrightarrow> safe x y (snd (linux_teardown api st))"
  unfolding linux_teardown_def
proof (rule andThen_inv [where P = "safe x y"])
  show "safe x y st \<Longrightarrow> safe x y (snd (stopIngress api st))"
    by (auto simp: stopIngress_def split: sum.split kerr.split intro!: kern_safe)
next
  fix st1 :: "'k lin_state" assume s1: "safe x y st1"
  show "safe x y (snd (case ownRules api st1 of Inl e \<Rightarrow> (Some e, st1) | Inr rules \<Rightarrow>
      (let (e1, st1) = each_joined (delRule api) rules st1; (e2, st2) = each_joined (flushTable api) (map snd (lx_tables (fst st1))) st1;
           (r3, pending, k3) = closeForeignForwardChains api (snd st2); e3 = (case r3 of None \<Rightarrow> [] | Some e \<Rightarrow> [Kernel e]);
           (r4, k4) = dropTable api pending k3; e4 = (case r4 of None \<Rightarrow> [] | Some e \<Rightarrow> [Kernel e]); es = e1 @ e2 @ e3 @ e4
       in (if es = [] then None else Some (Joined es), (fst st2, k4)))))"
  proof (cases "ownRules api st1")
    case (Inr rules)
    obtain e1 st2 where r: "each_joined (delRule api) rules st1 = (e1, st2)" by (cases "each_joined (delRule api) rules st1") blast
    obtain e2 st3 where f: "each_joined (flushTable api) (map snd (lx_tables (fst st2))) st2 = (e2, st3)"
      by (cases "each_joined (flushTable api) (map snd (lx_tables (fst st2))) st2") blast
    obtain r3 ms k3 where c: "closeForeignForwardChains api (snd st3) = (r3, ms, k3)" by (metis prod_cases3)
    obtain r4 k4 where d: "dropTable api ms k3 = (r4, k4)" by (cases "dropTable api ms k3") blast
    have "safe x y st2"
      using each_joined_inv [where P = "safe x y" and f = "delRule api" and xs = rules and s = st1] ownRules_ours [OF Inr] s1 delRule_safe r by simp
    then have "safe x y st3"
      using each_joined_inv [where P = "safe x y" and f = "flushTable api" and xs = "map snd (lx_tables (fst st2))" and s = st2] flushTable_safe f
      by simp
    then have "spared rls rts x y k3" by (rule closeForeign_spared [OF _ c])
    then have "spared rls rts x y k4" using dropTable_spared d by (metis snd_conv)
    then show ?thesis by (simp add: Inr r f c d Let_def)
  qed (simp add: s1)
qed

end

interpretation sim_rules_routes: host_laws sim_api sm_rules "\<lambda>k. set (sm_routes k)"
  by unfold_locales
    (auto simp: sim_do_def sim_flush_def Let_def split: if_split_asm list.split_asm)

section \<open>Table allocation\<close>

definition free_table :: "(string \<times> int) list \<Rightarrow> route list \<Rightarrow> ip_rule list \<Rightarrow> int \<Rightarrow> bool" where
  "free_table tables routes rules t \<longleftrightarrow>
     in_range t \<and> t \<notin> snd ` set tables \<and> (\<forall>r \<in> set routes. rt_table r \<noteq> t) \<and> (\<forall>r \<in> set rules. rl_table r \<noteq> t)"

lemma allocate_from_None:
  "allocate_from tables routes rules t = None \<longleftrightarrow>
     (\<forall>s. t \<le> s \<and> s < tableLimit \<longrightarrow> interfaceOfTable tables s \<noteq> [] \<or> tableBusy s routes rules)"
proof (induction tables routes rules t rule: allocate_from.induct)
  case (1 tables routes rules t)
  show ?case
  proof (cases "t < tableLimit \<and> interfaceOfTable tables t = [] \<and> \<not> tableBusy t routes rules")
    case True
    then show ?thesis by (subst allocate_from.simps) auto
  next
    case False
    have "(\<forall>s. t + 1 \<le> s \<and> s < tableLimit \<longrightarrow> interfaceOfTable tables s \<noteq> [] \<or> tableBusy s routes rules) \<longleftrightarrow>
          (\<forall>s. t \<le> s \<and> s < tableLimit \<longrightarrow> interfaceOfTable tables s \<noteq> [] \<or> tableBusy s routes rules)"
      using False by (smt (verit))
    with 1 False show ?thesis by (subst allocate_from.simps) auto
  qed
qed

lemma free_table_iff:
  assumes "[] \<notin> keys tables" and "in_range t"
  shows "free_table tables routes rules t \<longleftrightarrow>
    interfaceOfTable tables t = [] \<and> \<not> tableBusy t (filter (\<lambda>r. rt_table r \<ge> tableBase \<and> rt_table r < tableLimit) routes) rules"
  using interfaceOfTable_None [OF assms(1), of t] assms(2) by (auto simp: free_table_def tableBusy_def in_range_def)

section \<open>Properties\<close>



text \<open>C38. A new upstream gets the lowest routing table of \<open>[1000, 1100)\<close> that no upstream, no route and no rule of the host uses; when there is none,
  \<open>allocateTable\<close> says so.\<close>

theorem allocate_lowest:
  assumes "ka_routes api (snd st) = Inr routes" and "ka_rules api (snd st) = Inr rules" and "[] \<notin> keys (lx_tables (fst st))"
  shows "case allocateTable api st of
      Inr t \<Rightarrow> free_table (lx_tables (fst st)) routes rules t \<and> (\<forall>s < t. \<not> free_table (lx_tables (fst st)) routes rules s)
    | Inl e \<Rightarrow> e = NoFreeTable \<and> (\<forall>t. \<not> free_table (lx_tables (fst st)) routes rules t)"
proof -
  let ?F = "free_table (lx_tables (fst st)) routes rules"
  let ?rs = "filter (\<lambda>r. rt_table r \<ge> tableBase \<and> rt_table r < tableLimit) routes"
  have range: "?F t \<Longrightarrow> in_range t" for t by (simp add: free_table_def)
  have rr: "rangeRoutes api 0 (snd st) = Inr ?rs" using assms(1) by (simp add: rangeRoutes_def)
  note iff = free_table_iff [OF assms(3), where routes = routes and rules = rules]
  show ?thesis
  proof (cases "allocate_from (lx_tables (fst st)) ?rs rules tableBase")
    case None
    with allocate_from_None [of "lx_tables (fst st)" ?rs rules tableBase] iff range
    have "\<not> ?F t" for t by (metis in_range_def)
    with None rr assms(2) show ?thesis by (simp add: allocateTable_def)
  next
    case (Some t)
    note a = allocate_from_Some [THEN iffD1, OF Some]
    then have "?F t" using iff [of t] by (auto simp: in_range_def)
    moreover have "\<not> ?F s" if "s < t" for s using a iff [of s] range [of s] that by (auto simp: in_range_def)
    ultimately show ?thesis using Some rr assms(2) by (simp add: allocateTable_def)
  qed
qed

theorem allocate_lowest_witness:
  "allocateTable sim_api (linux_new\<lparr>lx_tables := [(''lm-up-a'', 1000)]\<rparr>,
     (snd sim_start)\<lparr>sm_rules := [new_rule None 1001 77], sm_routes := []\<rparr>) = Inr 1002"
proof -
  let ?d = "linux_new\<lparr>lx_tables := [(''lm-up-a'', 1000)]\<rparr>" and ?k = "(snd sim_start)\<lparr>sm_rules := [new_rule None 1001 77], sm_routes := []\<rparr>"
  let ?F = "free_table (lx_tables ?d) [] [new_rule None 1001 77]"
  have F: "?F t \<longleftrightarrow> in_range t \<and> t \<noteq> 1000 \<and> t \<noteq> 1001" for t by (simp add: free_table_def new_rule_def)
  have "case allocateTable sim_api (?d, ?k) of Inr t \<Rightarrow> ?F t \<and> (\<forall>s < t. \<not> ?F s) | Inl e \<Rightarrow> e = NoFreeTable \<and> (\<forall>t. \<not> ?F t)"
    using allocate_lowest [of sim_api "(?d, ?k)" "[]" "[new_rule None 1001 77]", unfolded fst_conv] by simp
  moreover have "?F 1002" unfolding F by (simp add: in_range_def linux_consts)
  moreover have "t = 1002" if "?F t" "\<forall>s < t. \<not> ?F s" for t
  proof -
    have "\<not> 1002 < t" using that(2) \<open>?F 1002\<close> by blast
    moreover have "1000 \<le> t" "t \<noteq> 1000" "t \<noteq> 1001" using that(1) [unfolded F] by (simp_all add: in_range_def linux_consts)
    ultimately show ?thesis by simp
  qed
  ultimately show ?thesis by (auto split: sum.split_asm)
qed

end
