(* ===== verification/Linux_Findings.thy ===== *)
theory Linux_Findings
  imports Linux_Refine
begin

text \<open>
  Two executions of the Linux dataplane on the executable kernel that its comments do not allow for. In the first the deletion of an
  old rule fails once; in the second another program uses one of Lotsman's priorities in one of its tables. The refinement excludes both by its
  hypotheses: \<open>simulates\<close> holds of at most one plain rule for each peer, and \<open>orderly\<close> keeps others out.
\<close>

definition two_upstreams :: linux_dp where
  "two_upstreams = \<lparr>lx_down = ''lm0'', lx_tables = [(''lm-up-a'', 1000), (''lm-up-b'', 1001)], lx_alive = [], lx_allowed = Some [(V4 7, True)]\<rparr>"

definition kernel_with :: "ip_rule list \<Rightarrow> bool list \<Rightarrow> sim" where
  "kernel_with rules script = \<lparr>sm_table = Some \<lparr>tb_sets = [], tb_rules = []\<rparr>, sm_rules = rules, sm_routes = [], sm_links = [], sm_script = script\<rparr>"

lemma plain_ours: "t \<in> {1000, 1001} \<Longrightarrow> ours (plain_rule (V4 7) t)"
  unfolding plain_rule_def by (rule ours_peer) (auto simp: in_range_def linux_consts)

lemma two_rulesFor:
  assumes "\<And>r. r \<in> set rules \<Longrightarrow> r = plain_rule (V4 7) 1000 \<or> r = plain_rule (V4 7) 1001"
  shows "rulesFor sim_api (V4 7) (two_upstreams, kernel_with rules script) = Inr rules"
proof -
  have peer: "rl_priority r = peerRulePriority" if "r \<in> set rules" for r using assms [OF that] by auto
  have "find (\<lambda>r. probeDeletionAmbiguous r rules) rules = None"
    using peer by (auto simp: find_None_iff probeDeletionAmbiguous_def linux_consts)
  moreover have "filter (\<lambda>r. ours r \<and> interfaceOfTable (lx_tables two_upstreams) (rl_table r) \<noteq> [] \<and>
      (rl_oif r = [] \<or> rl_oif r = interfaceOfTable (lx_tables two_upstreams) (rl_table r))) rules = rules"
    by (intro filter_True ballI, drule assms) (elim disjE, simp_all add: two_upstreams_def plain_ours)
  moreover have "filter (\<lambda>r. (rl_priority r = peerRulePriority \<or> rl_priority r = pinRulePriority) \<and>
      (case rl_src r of None \<Rightarrow> False | Some src \<Rightarrow> ip_equal (net_ip src) (as_slice (V4 7)))) rules = rules"
    by (intro filter_True ballI, drule assms) (elim disjE, simp_all del: as_slice.simps)
  ultimately show ?thesis by (simp add: rulesFor_def ownRules_def Let_def kernel_with_def two_upstreams_def)
qed

lemma plain_neq: "plain_rule (V4 7) 1000 \<noteq> plain_rule (V4 7) 1001"
  by (simp add: plain_rule_eq)

lemma select_plain: "selects (plain_rule (V4 7) s) (plain_rule (V4 7) t) \<longleftrightarrow> s = t"
  by (auto simp: selects_def)

text \<open>\<open>Route\<close> to \<open>lm-up-b\<close> adds its rule and fails to delete the old one; called again it finds its rule and returns without error. The old
  rule is still there and still first.\<close>

lemma route_retry_keeps_old_rule:
  "\<exists>k1. linux_route sim_api (V4 7) ''lm-up-b'' (two_upstreams, kernel_with [plain_rule (V4 7) 1000] [True, False]) =
      (Some (Kernel (KOther ''refused'')), (two_upstreams, k1)) \<and>
     linux_route sim_api (V4 7) ''lm-up-b'' (two_upstreams, k1) = (None, (two_upstreams, k1)) \<and>
     sm_rules k1 = [plain_rule (V4 7) 1000, plain_rule (V4 7) 1001]"
proof -
  let ?old = "plain_rule (V4 7) 1000" and ?new = "plain_rule (V4 7) 1001"
  have rf: "rulesFor sim_api (V4 7) (two_upstreams, kernel_with [?old] [True, False]) = Inr [?old]"
    "rulesFor sim_api (V4 7) (two_upstreams, kernel_with [?old, ?new] []) = Inr [?old, ?new]"
    by (rule two_rulesFor; auto)+
  have tab: "map_of (lx_tables two_upstreams) ''lm-up-b'' = Some 1001" "lx_alive two_upstreams = []"
    "lx_allowed two_upstreams = Some [(V4 7, True)]" by (simp_all add: two_upstreams_def)
  have add: "kern (addRule sim_api (V4 7) 1001 peerRulePriority) (two_upstreams, kernel_with [?old] [True, False]) =
      (None, (two_upstreams, kernel_with [?old, ?new] [False]))"
    using plain_neq by (simp add: kern_def addRule_def unless_exists_def sim_do_def kernel_with_def Let_def plain_rule_def [symmetric])
  have del: "delRule sim_api ?old (two_upstreams, kernel_with [?old, ?new] [False]) =
      (Some (Kernel (KOther ''refused'')), (two_upstreams, kernel_with [?old, ?new] []))"
    by (simp add: delRule_def kern_def sim_do_def kernel_with_def Let_def select_plain)
  have "linux_route sim_api (V4 7) ''lm-up-b'' (two_upstreams, kernel_with [?old] [True, False]) =
      (Some (Kernel (KOther ''refused'')), (two_upstreams, kernel_with [?old, ?new] []))"
    by (simp add: linux_route_def rf tab pinOld_def mget_def add del andThen_def)
  moreover have "linux_route sim_api (V4 7) ''lm-up-b'' (two_upstreams, kernel_with [?old, ?new] []) = (None, (two_upstreams, kernel_with [?old, ?new] []))"
    by (simp add: linux_route_def rf tab authorize_def mget_def)
  ultimately show ?thesis by (intro exI [of _ "kernel_with [?old, ?new] []"]) (simp add: kernel_with_def)
qed

text \<open>\<open>Unroute\<close> deletes by the selectors it knows. A rule of another program for the same source, table and priority with a mark of its own
  is selected too; when it comes first it is deleted, and the peer's rule stays although \<open>Unroute\<close> returns no error. \<open>probeDeletionAmbiguous\<close>
  guards only the probe rules against this.\<close>

definition marked_rule :: ip_rule where
  "marked_rule = (plain_rule (V4 7) 1000)\<lparr>rl_mark := 9, rl_mask := Some 0xffffffff\<rparr>"

lemma unroute_deletes_foreign_rule:
  "\<exists>d k. linux_unroute sim_api (V4 7) (two_upstreams, kernel_with [marked_rule, plain_rule (V4 7) 1000] []) = (None, (d, k)) \<and>
     sm_rules k = [plain_rule (V4 7) 1000] \<and> \<not> ours marked_rule"
proof -
  let ?own = "plain_rule (V4 7) 1000"
  let ?k = "kernel_with [marked_rule, ?own] []"
  have foreign: "\<not> ours marked_rule"
    by (simp add: ours_def marked_rule_def plain_rule_def peer_rule_def new_rule_def linux_consts Let_def)
  have sel: "selects ?own marked_rule"
    by (simp add: selects_def marked_rule_def plain_rule_def peer_rule_def new_rule_def)
  let ?d = "two_upstreams\<lparr>lx_allowed := Some []\<rparr>"
  let ?k1 = "?k\<lparr>sm_table := apply_msgs [authorize_message (V4 7) False] (sm_table ?k)\<rparr>"
  have au: "authorize sim_api (V4 7) False (two_upstreams, ?k) = (None, (?d, ?k1))"
    by (simp add: authorize_def two_upstreams_def mget_def flush_def sim_flush_def kernel_with_def sim_do_def)
  have "\<not> probeDeletionAmbiguous ?own l" for l by (simp add: probeDeletionAmbiguous_def linux_consts plain_rule_def peer_rule_def new_rule_def)
  then have rf: "rulesFor sim_api (V4 7) (?d, ?k1) = Inr [?own]"
    using plain_ours [of 1000] foreign
    by (simp add: rulesFor_def ownRules_def Let_def kernel_with_def two_upstreams_def del: as_slice.simps)
  have "delRule sim_api ?own (?d, ?k1) = (None, (?d, ?k1\<lparr>sm_rules := [?own]\<rparr>))"
    using sel by (simp add: delRule_def kern_def sim_do_def kernel_with_def)
  then have "linux_unroute sim_api (V4 7) (two_upstreams, ?k) = (None, (?d, ?k1\<lparr>sm_rules := [?own]\<rparr>))"
    by (simp add: linux_unroute_def au rf andThen_def)
  with foreign show ?thesis by simp
qed

end
