(* ===== verification/Go_Float.thy ===== *)
theory Go_Float
  imports Complex_Main Go_Time
begin

text \<open>
  \<open>float64\<close> where the program uses it: a finite value is the rational it denotes. The program's values are
  integers below \<open>2 ^ 64\<close> and durations in seconds, so overflow, subnormal numbers, infinities and NaN do not occur, and
  rounding to nearest, ties to even, at 53 bits is all the arithmetic needs. \<open>format_float\<close> is \<open>FormatFloat(x, 'g', -1, 64)\<close>.
\<close>

type_synonym float64 = rat

section \<open>Rounding\<close>

fun ilog2 :: "nat \<Rightarrow> nat" where
  "ilog2 n = (if n < 2 then 0 else Suc (ilog2 (n div 2)))"

declare ilog2.simps [simp del]

definition pow_int :: "rat \<Rightarrow> int \<Rightarrow> rat" where
  "pow_int b e = (if 0 \<le> e then b ^ nat e else 1 / b ^ nat (- e))"

definition round_half_even :: "rat \<Rightarrow> int" where
  "round_half_even y =
     (let f = \<lfloor>y\<rfloor>; r = y - of_int f
      in if r < 1 / 2 then f else if 1 / 2 < r then f + 1 else if even f then f else f + 1)"

text \<open>The exponent \<open>e\<close> with \<open>2 ^ 52 \<le> x / 2 ^ e < 2 ^ 53\<close>, for a positive \<open>x\<close>.\<close>

definition binary_exponent :: "rat \<Rightarrow> int" where
  "binary_exponent x =
     (let (p, q) = quotient_of x; e = int (ilog2 (nat p)) - int (ilog2 (nat q)) - 52
      in if x < 2 ^ 52 * pow_int 2 e then e - 1 else e)"

definition round_pos :: "rat \<Rightarrow> float64" where
  "round_pos x = (let e = binary_exponent x in of_int (round_half_even (x / pow_int 2 e)) * pow_int 2 e)"

definition round64 :: "rat \<Rightarrow> float64" where
  "round64 x = (if x = 0 then 0 else if 0 < x then round_pos x else - round_pos (- x))"

definition float_of_int :: "int \<Rightarrow> float64" where
  "float_of_int i = round64 (of_int i)"

text \<open>\<open>Duration.Seconds\<close>: the whole seconds and the rest, each converted, then added.\<close>

definition duration_seconds :: "int \<Rightarrow> float64" where
  "duration_seconds d =
     round64 (float_of_int (d sdiv second) + round64 (float_of_int (d smod second) / 1000000000))"

section \<open>The shortest decimal\<close>

text \<open>The \<open>dp\<close> with \<open>10 ^ (dp - 1) \<le> x < 10 ^ dp\<close>, for a positive \<open>x\<close>.\<close>

definition decimal_point :: "rat \<Rightarrow> int" where
  "decimal_point x =
     (let (p, q) = quotient_of x; d = int (length (show_nat (nat p))) - int (length (show_nat (nat q)))
      in if pow_int 10 d \<le> x then d + 1 else d)"

text \<open>The integer of \<open>n\<close> digits whose decimal is nearest to \<open>x\<close> among those that round to \<open>x\<close>, if there is one.\<close>

definition digits_at :: "rat \<Rightarrow> int \<Rightarrow> nat \<Rightarrow> int option" where
  "digits_at x dp n =
     (let unit = pow_int 10 (dp - int n); lo = \<lfloor>x / unit\<rfloor>; hi = lo + 1;
          ok_lo = (0 < lo \<and> round64 (of_int lo * unit) = x); ok_hi = (round64 (of_int hi * unit) = x)
      in if ok_lo \<and> ok_hi then Some (round_half_even (x / unit))
         else if ok_lo then Some lo else if ok_hi then Some hi else None)"

fun strip_zeros :: "string \<Rightarrow> string" where
  "strip_zeros [] = []"
| "strip_zeros (c # cs) =
     (case strip_zeros cs of [] \<Rightarrow> if c = CHR ''0'' then [] else [c] | t \<Rightarrow> c # t)"

text \<open>The digits without trailing zeros and the position of the point before them. Seventeen digits tell any two values apart.\<close>

definition shortest :: "rat \<Rightarrow> string \<times> int" where
  "shortest x =
     (let dp = decimal_point x;
          n = (case find (\<lambda>n. digits_at x dp n \<noteq> None) [1..<17] of None \<Rightarrow> 17 | Some n \<Rightarrow> n);
          c = (case digits_at x dp n of Some c \<Rightarrow> c | None \<Rightarrow> round_half_even (x / pow_int 10 (dp - int n)));
          t = show_nat (nat c)
      in (strip_zeros t, dp + int (length t) - int n))"

section \<open>Formatting\<close>

definition format_e :: "string \<Rightarrow> int \<Rightarrow> string" where
  "format_e ds e =
     take 1 ds @ (if length ds > 1 then CHR ''.'' # drop 1 ds else []) @ ''e'' @
     (if e < 0 then ''-'' else ''+'') @ (if \<bar>e\<bar> < 10 then ''0'' else []) @ show_nat (nat \<bar>e\<bar>)"

definition digit_at :: "string \<Rightarrow> int \<Rightarrow> char" where
  "digit_at ds i = (if 0 \<le> i \<and> nat i < length ds then ds ! nat i else CHR ''0'')"

definition format_f :: "string \<Rightarrow> int \<Rightarrow> string" where
  "format_f ds dp =
     (if 0 < dp then map (\<lambda>i. digit_at ds (int i)) [0..<nat dp] else ''0'') @
     (if dp < int (length ds)
      then CHR ''.'' # map (\<lambda>i. digit_at ds (dp + int i)) [0..<nat (int (length ds) - dp)] else [])"

definition format_pos :: "rat \<Rightarrow> string" where
  "format_pos x =
     (let (ds, dp) = shortest x; e = dp - 1
      in if e < - 4 \<or> 6 \<le> e then format_e ds e else format_f ds dp)"

definition format_float :: "float64 \<Rightarrow> string" where
  "format_float x = (if x = 0 then ''0'' else if 0 < x then format_pos x else CHR ''-'' # format_pos (- x))"


section \<open>Facts the metrics rest on\<close>

definition float_char :: "char \<Rightarrow> bool" where
  "float_char c \<longleftrightarrow> is_digit c \<or> c \<in> set ''.e+-''"

lemma set_strip_zeros: "set (strip_zeros s) \<subseteq> set s"
  by (induction s) (auto split: list.splits)

lemma shortest_digits: "c \<in> set (fst (shortest x)) \<Longrightarrow> is_digit c"
  using set_strip_zeros show_nat_digits by (fastforce simp: shortest_def Let_def)

lemma float_char_digit [simp]: "is_digit c \<Longrightarrow> float_char c"
  by (simp add: float_char_def)

lemma float_char_punct [simp]:
  "float_char (CHR ''.'')" "float_char (CHR ''e'')" "float_char (CHR ''+'')" "float_char (CHR ''-'')" "float_char (CHR ''0'')"
  by (code_simp, code_simp, code_simp, code_simp, code_simp)

lemma show_nat_float [simp]: "list_all float_char (show_nat n)"
  using show_nat_digits by (auto simp: list_all_iff)

lemma list_all_take_drop: "list_all P xs \<Longrightarrow> list_all P (take n xs) \<and> list_all P (drop n xs)"
  by (auto simp: list_all_iff dest: in_set_takeD in_set_dropD)

lemma format_e_chars: "list_all float_char ds \<Longrightarrow> list_all float_char (format_e ds e)"
  unfolding format_e_def by (simp add: list_all_take_drop del: One_nat_def)

lemma digit_at_char: "list_all float_char ds \<Longrightarrow> float_char (digit_at ds i)"
  by (simp add: digit_at_def list_all_iff)

lemma digits_chars: "list_all float_char ds \<Longrightarrow> list_all float_char (map (\<lambda>i. digit_at ds (f i)) is)"
  using digit_at_char by (auto simp: list_all_iff)

lemma format_f_chars: "list_all float_char ds \<Longrightarrow> list_all float_char (format_f ds dp)"
  by (simp add: format_f_def digits_chars)

lemma format_pos_chars: "list_all float_char (format_pos x)"
proof -
  have "list_all float_char (fst (shortest x))" using shortest_digits by (auto simp: list_all_iff)
  then show ?thesis
    by (cases "shortest x") (simp add: format_pos_def Let_def format_e_chars format_f_chars)
qed

lemma format_float_chars: "list_all float_char (format_float x)"
  by (simp add: format_float_def format_pos_chars)

lemma ilog2_bounds: "0 < n \<Longrightarrow> 2 ^ ilog2 n \<le> n \<and> n < 2 ^ Suc (ilog2 n)"
proof (induction n rule: ilog2.induct)
  case (1 n)
  show ?case
  proof (cases "n < 2")
    case True
    with "1.prems" show ?thesis by (simp add: ilog2.simps [of n])
  next
    case False
    with 1 have "2 ^ ilog2 (n div 2) \<le> n div 2 \<and> n div 2 < 2 ^ Suc (ilog2 (n div 2))" by simp
    moreover have "n = 2 * (n div 2) \<or> n = 2 * (n div 2) + 1" by presburger
    ultimately have "2 * 2 ^ ilog2 (n div 2) \<le> n \<and> n < 4 * 2 ^ ilog2 (n div 2)" by auto
    with False show ?thesis by (simp add: ilog2.simps [of n])
  qed
qed

lemma round_half_even_int [simp]: "round_half_even (of_int i) = i"
  by (simp add: round_half_even_def)

lemma round_pos_int:
  assumes "0 < i" and "i < 2 ^ 53"
  shows "round_pos (of_int i) = of_int i"
proof -
  define k where "k = ilog2 (nat i)"
  have b: "2 ^ k \<le> nat i" "nat i < 2 ^ Suc k" using ilog2_bounds [of "nat i"] assms(1) by (simp_all add: k_def)
  have "nat i < 2 ^ 53" using assms by (simp add: nat_less_iff)
  with b(1) have "(2 :: nat) ^ k < 2 ^ 53" by (rule le_less_trans)
  then have "k < 53" by (rule power_less_imp_less_exp [rotated]) simp
  then have k: "k \<le> 52" by simp
  have "ilog2 1 = 0" by (simp add: ilog2.simps)
  then have q: "binary_exponent (of_int i) = (if (of_int i :: rat) < 2 ^ 52 * pow_int 2 (int k - 52) then int k - 53 else int k - 52)"
    by (simp add: binary_exponent_def quotient_of_int k_def)
  have pw: "pow_int 2 (int k - 52) = 1 / 2 ^ (52 - k)"
    using k by (cases "k = 52") (simp_all add: pow_int_def nat_diff_distrib)
  have split: "(2 :: rat) ^ 52 = 2 ^ k * 2 ^ (52 - k)" using k by (simp flip: power_add)
  have "(2 :: int) ^ k \<le> i" using b(1) assms(1) by (simp add: le_nat_iff)
  then have "(2 :: rat) ^ k \<le> of_int i" by (metis of_int_le_iff of_int_numeral of_int_power)
  then have e: "binary_exponent (of_int i) = int k - 52"
    unfolding q pw split by simp
  have "(of_int i :: rat) / pow_int 2 (int k - 52) = of_int (i * 2 ^ (52 - k))"
    by (simp add: pw)
  then show ?thesis
    unfolding round_pos_def e Let_def by (simp only: round_half_even_int) (simp add: pw)
qed

text \<open>Every counter below \<open>2 ^ 53\<close> is represented exactly.\<close>

lemma float_of_int_exact: "\<bar>i\<bar> < 2 ^ 53 \<Longrightarrow> float_of_int i = of_int i"
  using round_pos_int [of i] round_pos_int [of "- i"]
  by (cases i "0 :: int" rule: linorder_cases) (simp_all add: float_of_int_def round64_def)

end
