(* ===== verification/Go_Flag.thy ===== *)
theory Go_Flag
  imports Go_Float
begin

text \<open>
  The parts of Go's \<open>flag\<close> and of \<open>time.Duration\<close>'s printing that the command line uses. A flag set is the list of
  its flags with whether each is a boolean; \<open>parse_flags\<close> is \<open>FlagSet.Parse\<close>: the assignments in the order they were made, and
  the arguments that are left.
\<close>

datatype flag_error =
    BadFlagSyntax string
  | HelpRequested
  | FlagNotDefined string
  | FlagNeedsArgument string
  | InvalidBoolean string

section \<open>Package flag\<close>

definition parse_bool :: "string \<Rightarrow> string option" where
  "parse_bool s =
     (if s \<in> set [''1'', ''t'', ''T'', ''true'', ''TRUE'', ''True''] then Some ''true''
      else if s \<in> set [''0'', ''f'', ''F'', ''false'', ''FALSE'', ''False''] then Some ''false'' else None)"

definition flag_name :: "string \<Rightarrow> string" where
  "flag_name s = drop (if s ! 1 = CHR ''-'' then 2 else 1) s"

definition is_flag :: "string \<Rightarrow> bool" where
  "is_flag s \<longleftrightarrow> 2 \<le> length s \<and> hd s = CHR ''-''"

text \<open>The name and, after an equals sign that is not its first byte, the value.\<close>

definition flag_value :: "string \<Rightarrow> string \<times> string option" where
  "flag_value n = (case cut (CHR ''='') n of None \<Rightarrow> (n, None) | Some (a, v) \<Rightarrow> (a, Some v))"

definition assign_flag ::
  "string \<Rightarrow> string \<Rightarrow> flag_error + (string \<times> string) list \<times> string list \<Rightarrow>
   flag_error + (string \<times> string) list \<times> string list" where
  "assign_flag name v r = rmap (apfst ((#) (name, v))) r"

fun parse_flags ::
  "(string \<times> bool) list \<Rightarrow> string list \<Rightarrow> flag_error + (string \<times> string) list \<times> string list" where
  "parse_flags flags [] = Inr ([], [])"
| "parse_flags flags (s # args) =
     (if \<not> is_flag s then Inr ([], s # args)
      else if s = ''--'' then Inr ([], args)
      else if flag_name s = [] \<or> hd (flag_name s) \<in> {CHR ''-'', CHR ''=''} then Inl (BadFlagSyntax s)
      else let (name, value) = flag_value (flag_name s)
           in case map_of flags name of
                None \<Rightarrow> Inl (if name = ''help'' \<or> name = ''h'' then HelpRequested else FlagNotDefined name)
              | Some True \<Rightarrow>
                  (case value of
                     None \<Rightarrow> assign_flag name ''true'' (parse_flags flags args)
                   | Some v \<Rightarrow>
                       (case parse_bool v of
                          None \<Rightarrow> Inl (InvalidBoolean v)
                        | Some b \<Rightarrow> assign_flag name b (parse_flags flags args)))
              | Some False \<Rightarrow>
                  (case value of
                     Some v \<Rightarrow> assign_flag name v (parse_flags flags args)
                   | None \<Rightarrow>
                       (case args of
                          [] \<Rightarrow> Inl (FlagNeedsArgument name)
                        | v # rest \<Rightarrow> assign_flag name v (parse_flags flags rest))))"

text \<open>The variable of a flag after parsing: its last assignment, else its default.\<close>

definition flag_var :: "(string \<times> string) list \<Rightarrow> string \<Rightarrow> string \<Rightarrow> string" where
  "flag_var asg name dflt = (case map_of (rev asg) name of None \<Rightarrow> dflt | Some v \<Rightarrow> v)"

section \<open>Durations\<close>

definition max_int64 :: int where "max_int64 = 2 ^ 63 - 1"

definition duration_round :: "int \<Rightarrow> int \<Rightarrow> int" where
  "duration_round d m =
     (if m \<le> 0 then d
      else let r = \<bar>d smod m\<bar>
           in if d < 0 then
                (if 2 * r < m then d + r else if - max_int64 - 1 \<le> d - m + r then d - m + r else - max_int64 - 1)
              else if 2 * r < m then d - r else if d + m - r \<le> max_int64 then d + m - r else max_int64)"

definition pad_zeros :: "nat \<Rightarrow> string \<Rightarrow> string" where
  "pad_zeros n s = replicate (n - length s) (CHR ''0'') @ s"

text \<open>\<open>u\<close> in units of \<open>10 ^ p\<close>: the integer part and, without trailing zeros, the fraction.\<close>

definition fraction :: "nat \<Rightarrow> nat \<Rightarrow> string" where
  "fraction u p =
     (let f = strip_zeros (pad_zeros p (show_nat (u mod 10 ^ p))) in if f = [] then [] else CHR ''.'' # f)"

definition in_unit :: "nat \<Rightarrow> nat \<Rightarrow> string \<Rightarrow> string" where
  "in_unit u p unit_name = show_nat (u div 10 ^ p) @ fraction u p @ unit_name"

definition duration_string :: "int \<Rightarrow> string" where
  "duration_string d =
     (let u = nat \<bar>d\<bar>; s = u div 10 ^ 9;
          t = (if u = 0 then ''0s''
               else if u < 10 ^ 3 then in_unit u 0 ''ns''
               else if u < 10 ^ 6 then in_unit u 3 [CHR 0xC2, CHR 0xB5, CHR ''s'']
               else if u < 10 ^ 9 then in_unit u 6 ''ms''
               else (if 3600 \<le> s then show_nat (s div 3600) @ ''h'' else []) @
                    (if 60 \<le> s then show_nat (s div 60 mod 60) @ ''m'' else []) @
                    show_nat (s mod 60) @ fraction u 9 @ ''s'')
      in if d < 0 then CHR ''-'' # t else t)"

section \<open>Facts\<close>

lemma assign_flag_Inr [simp]:
  "assign_flag n v r = Inr x \<longleftrightarrow> (\<exists>a rest. r = Inr (a, rest) \<and> x = ((n, v) # a, rest))"
  by (cases r) (auto simp: assign_flag_def)

lemma assign_flag_simps [simp]:
  "assign_flag n v (Inr (a, rest)) = Inr ((n, v) # a, rest)" "assign_flag n v (Inl e) = Inl e"
  by (simp_all add: assign_flag_def)

text \<open>A flag given as \<open>-name value\<close>, and a boolean one given as \<open>-name\<close>.\<close>

lemma parse_string_flag:
  assumes "map_of flags n = Some False" and "n \<noteq> []" and "hd n \<noteq> CHR ''-''" and "CHR ''='' \<notin> set n"
  shows "parse_flags flags ((CHR ''-'' # n) # v # args) = assign_flag n v (parse_flags flags args)"
  using assms by (cases n) (auto simp: is_flag_def flag_name_def flag_value_def cut_None_iff [THEN iffD2])

lemma parse_bool_flag:
  assumes "map_of flags n = Some True" and "n \<noteq> []" and "hd n \<noteq> CHR ''-''" and "CHR ''='' \<notin> set n"
  shows "parse_flags flags ((CHR ''-'' # n) # args) = assign_flag n ''true'' (parse_flags flags args)"
  using assms by (cases n) (auto simp: is_flag_def flag_name_def flag_value_def cut_None_iff [THEN iffD2])

end
