(* ===== verification/Bind.thy ===== *)
theory Bind
  imports Netip
begin

text \<open>
  \<open>internal/tunnel/bind.go\<close>: the UDP socket of the downstream device, bound to one local address. The
  operating system's sockets, reached through \<open>net\<close>, are the fields of \<open>udp_net\<close>; \<open>udp_laws\<close> states what the
  package documents of them: a new socket is fresh and open, a closed one stays closed, and reading or
  writing a closed one fails. \<open>Send\<close> releases the mutex before it writes, so the step relation
  \<open>bind_step\<close> lets opening, closing, sending and receiving interleave at every point where the mutex is free.
\<close>

record ('s, 'w, 'e) udp_net =
  un_listen :: "string \<Rightarrow> addr_port \<Rightarrow> 'w \<Rightarrow> ('e + 's) \<times> 'w"
  un_close :: "'s \<Rightarrow> 'w \<Rightarrow> 'e option \<times> 'w"
  un_write :: "'s \<Rightarrow> u8 list \<Rightarrow> addr_port \<Rightarrow> 'w \<Rightarrow> 'e option \<times> 'w"
  un_read :: "'s \<Rightarrow> nat \<Rightarrow> 'w \<Rightarrow> ('e + u8 list \<times> addr_port) \<times> 'w"
  un_local_port :: "'s \<Rightarrow> 'w \<Rightarrow> u16"

record 's addressBind =
  ab_addr :: addr
  ab_socket :: "'s option"

datatype 'e bind_error =
    BindAlreadyOpen
  | ListenAddrInvalid
  | NetError 'e
  | NetClosed
  | WrongEndpointType
  | EndpointInvalid
  | MarkUnsupported
  | NoBuffer

text \<open>\<open>conn.Endpoint\<close> is an interface; the only implementation the bind accepts is a \<open>StdNetEndpoint\<close>.\<close>

datatype endpoint = StdNetEndpoint addr_port | StdNetNil | OtherEndpoint

definition newAddressBind :: "addr \<Rightarrow> 's addressBind" where
  "newAddressBind a = \<lparr>ab_addr = unmap a, ab_socket = None\<rparr>"

text \<open>\<open>Open\<close> returns the socket its one receive function has captured, and the port it got.\<close>

definition bind_open ::
  "('s, 'w, 'e) udp_net \<Rightarrow> u16 \<Rightarrow> 's addressBind \<times> 'w \<Rightarrow>
   ('e bind_error + 's \<times> u16) \<times> 's addressBind \<times> 'w" where
  "bind_open net port st =
     (let (b, w) = st
      in if ab_socket b \<noteq> None then (Inl BindAlreadyOpen, st)
         else if ab_addr b = NoAddr then (Inl ListenAddrInvalid, st)
         else
           let network = (if is4 (ab_addr b) then ''udp4'' else ''udp6'')
           in case un_listen net network (AddrPort (ab_addr b) port) w of
                (Inl e, w') \<Rightarrow> (Inl (NetError e), (b, w'))
              | (Inr s, w') \<Rightarrow> (Inr (s, un_local_port net s w'), (b\<lparr>ab_socket := Some s\<rparr>, w')))"

text \<open>
  The receive function on its captured socket: one packet into the first buffer, its size and its sender
  into the first cells of the other two slices. Indexing an empty slice panics.
\<close>

definition receive ::
  "('s, 'w, 'e) udp_net \<Rightarrow> 's \<Rightarrow> u8 list list \<Rightarrow> nat list \<Rightarrow> endpoint list \<Rightarrow> 'w \<Rightarrow>
   ('e bind_error + nat \<times> u8 list list \<times> nat list \<times> endpoint list) \<times> 'w" where
  "receive net s bufs sizes endpoints w =
     (case bufs of
        [] \<Rightarrow> (Inl NoBuffer, w)
      | buf # rest \<Rightarrow>
          (case un_read net s (length buf) w of
             (Inl e, w') \<Rightarrow> (Inl (NetError e), w')
           | (Inr (packet, sender), w') \<Rightarrow>
               if sizes = [] \<or> endpoints = [] then (Inl NoBuffer, w')
               else (Inr (1, (packet @ drop (length packet) buf) # rest, sizes[0 := length packet],
                          endpoints[0 := StdNetEndpoint sender]), w')))"

definition bind_close ::
  "('s, 'w, 'e) udp_net \<Rightarrow> 's addressBind \<times> 'w \<Rightarrow> 'e bind_error option \<times> 's addressBind \<times> 'w" where
  "bind_close net st =
     (let (b, w) = st
      in case ab_socket b of
           None \<Rightarrow> (None, st)
         | Some s \<Rightarrow> (let (r, w') = un_close net s w in (map_option NetError r, (b\<lparr>ab_socket := None\<rparr>, w'))))"

text \<open>The part of \<open>Send\<close> before its loop: the socket, read under the mutex, and the destination.\<close>

definition send_target :: "'s addressBind \<Rightarrow> endpoint \<Rightarrow> 'e bind_error + 's \<times> addr_port" where
  "send_target b ep =
     (case ab_socket b of
        None \<Rightarrow> Inl NetClosed
      | Some s \<Rightarrow> (case ep of StdNetEndpoint ap \<Rightarrow> Inr (s, ap) | _ \<Rightarrow> Inl WrongEndpointType))"

fun send_loop ::
  "('s, 'w, 'e) udp_net \<Rightarrow> 's \<Rightarrow> addr_port \<Rightarrow> u8 list list \<Rightarrow> 'w \<Rightarrow> 'e bind_error option \<times> 'w" where
  "send_loop net s ap [] w = (None, w)"
| "send_loop net s ap (buf # bufs) w =
     (case un_write net s buf ap w of
        (Some e, w') \<Rightarrow> (Some (NetError e), w')
      | (None, w') \<Rightarrow> send_loop net s ap bufs w')"

definition bind_send ::
  "('s, 'w, 'e) udp_net \<Rightarrow> u8 list list \<Rightarrow> endpoint \<Rightarrow> 's addressBind \<times> 'w \<Rightarrow>
   'e bind_error option \<times> 's addressBind \<times> 'w" where
  "bind_send net bufs ep st =
     (let (b, w) = st
      in case send_target b ep of
           Inl e \<Rightarrow> (Some e, st)
         | Inr (s, ap) \<Rightarrow> (let (r, w') = send_loop net s ap bufs w in (r, (b, w'))))"

definition ParseEndpoint :: "string \<Rightarrow> 'e bind_error + endpoint" where
  "ParseEndpoint s =
     (case parse_addr_port s of
        None \<Rightarrow> Inl EndpointInvalid
      | Some ap \<Rightarrow> Inr (StdNetEndpoint (AddrPort (unmap (ap_addr ap)) (ap_port ap))))"

definition BatchSize :: nat where "BatchSize = 1"

definition SetMark :: "u32 \<Rightarrow> 'e bind_error option" where
  "SetMark mark = (if mark \<noteq> 0 then Some MarkUnsupported else None)"

section \<open>Interleaved calls\<close>

text \<open>
  A configuration of the bind: its fields, the world, the receive functions handed out so far (the socket
  each captured), the \<open>Send\<close> calls that are past the mutex (socket, destination, packets left) and the
  packets written so far.
\<close>

record ('s, 'w) bind_run =
  br_bind :: "'s addressBind"
  br_world :: 'w
  br_receivers :: "'s list"
  br_sends :: "('s \<times> addr_port \<times> u8 list list) list"
  br_written :: "('s \<times> u8 list \<times> addr_port) list"

definition bind_start :: "addr \<Rightarrow> 'w \<Rightarrow> ('s, 'w) bind_run" where
  "bind_start a w =
     \<lparr>br_bind = newAddressBind a, br_world = w, br_receivers = [], br_sends = [], br_written = []\<rparr>"

inductive bind_step :: "('s, 'w, 'e) udp_net \<Rightarrow> ('s, 'w) bind_run \<Rightarrow> ('s, 'w) bind_run \<Rightarrow> bool"
  for net :: "('s, 'w, 'e) udp_net" where
  step_open:
    "bind_open net port (br_bind r, br_world r) = (Inr (s, p), (b, w)) \<Longrightarrow>
     bind_step net r (r\<lparr>br_bind := b, br_world := w, br_receivers := s # br_receivers r\<rparr>)"
| step_open_fails:
    "bind_open net port (br_bind r, br_world r) = (Inl e, (b, w)) \<Longrightarrow>
     bind_step net r (r\<lparr>br_bind := b, br_world := w\<rparr>)"
| step_close:
    "bind_close net (br_bind r, br_world r) = (res, (b, w)) \<Longrightarrow>
     bind_step net r (r\<lparr>br_bind := b, br_world := w\<rparr>)"
| step_send:
    "send_target (br_bind r) ep = (Inr (s, ap) :: 'e bind_error + 's \<times> addr_port) \<Longrightarrow>
     bind_step net r (r\<lparr>br_sends := (s, ap, bufs) # br_sends r\<rparr>)"
| step_write:
    "i < length (br_sends r) \<Longrightarrow> br_sends r ! i = (s, ap, buf # bufs) \<Longrightarrow>
     un_write net s buf ap (br_world r) = (None, w) \<Longrightarrow>
     bind_step net r
       (r\<lparr>br_world := w, br_sends := (br_sends r)[i := (s, ap, bufs)],
          br_written := (s, buf, ap) # br_written r\<rparr>)"
| step_write_fails:
    "i < length (br_sends r) \<Longrightarrow> br_sends r ! i = (s, ap, buf # bufs) \<Longrightarrow>
     un_write net s buf ap (br_world r) = (Some e, w) \<Longrightarrow>
     bind_step net r (r\<lparr>br_world := w, br_sends := (br_sends r)[i := (s, ap, [])]\<rparr>)"
| step_receive:
    "s \<in> set (br_receivers r) \<Longrightarrow> receive net s bufs sizes eps (br_world r) = (res, w) \<Longrightarrow>
     bind_step net r (r\<lparr>br_world := w\<rparr>)"

inductive bind_reachable :: "('s, 'w, 'e) udp_net \<Rightarrow> addr \<Rightarrow> 'w \<Rightarrow> ('s, 'w) bind_run \<Rightarrow> bool"
  for net :: "('s, 'w, 'e) udp_net" and a :: addr and w :: 'w where
  bind_init: "bind_reachable net a w (bind_start a w)"
| bind_next: "bind_reachable net a w r \<Longrightarrow> bind_step net r r' \<Longrightarrow> bind_reachable net a w r'"

section \<open>The sockets of the operating system\<close>

locale udp_laws =
  fixes net :: "('s, 'w, 'e) udp_net"
    and is_open :: "'w \<Rightarrow> 's \<Rightarrow> bool"
    and made :: "'w \<Rightarrow> 's \<Rightarrow> bool"
  assumes open_made: "is_open w s \<Longrightarrow> made w s"
    and listen_fresh: "un_listen net n ap w = (Inr s, w') \<Longrightarrow> \<not> made w s"
    and listen_made: "un_listen net n ap w = (Inr s, w') \<Longrightarrow> made w' t \<longleftrightarrow> t = s \<or> made w t"
    and listen_open: "un_listen net n ap w = (Inr s, w') \<Longrightarrow> is_open w' t \<longleftrightarrow> t = s \<or> is_open w t"
    and listen_failed: "un_listen net n ap w = (Inl e, w') \<Longrightarrow> made w' = made w \<and> is_open w' = is_open w"
    and close_made: "un_close net s w = (r, w') \<Longrightarrow> made w' = made w"
    and close_open: "un_close net s w = (r, w') \<Longrightarrow> is_open w' t \<longleftrightarrow> t \<noteq> s \<and> is_open w t"
    and write_frame: "un_write net s buf ap w = (r, w') \<Longrightarrow> made w' = made w \<and> is_open w' = is_open w"
    and write_open: "un_write net s buf ap w = (None, w') \<Longrightarrow> is_open w s"
    and read_frame: "un_read net s k w = (rd, w') \<Longrightarrow> made w' = made w \<and> is_open w' = is_open w"
    and read_open: "un_read net s k w = (Inr x, w') \<Longrightarrow> is_open w s"
begin

text \<open>What every configuration keeps, for the sockets \<open>made w0\<close> that existed before the bind.\<close>

definition exclusive :: "'w \<Rightarrow> ('s, 'w) bind_run \<Rightarrow> bool" where
  "exclusive w0 r \<longleftrightarrow>
     distinct (br_receivers r) \<and>
     (\<forall>t \<in> set (br_receivers r). \<not> made w0 t \<and> made (br_world r) t \<and>
        (is_open (br_world r) t \<longleftrightarrow> ab_socket (br_bind r) = Some t)) \<and>
     (\<forall>s. ab_socket (br_bind r) = Some s \<longrightarrow> s \<in> set (br_receivers r)) \<and>
     fst ` set (br_sends r) \<subseteq> set (br_receivers r) \<and>
     (\<forall>t. made w0 t \<longrightarrow> made (br_world r) t \<and> is_open (br_world r) t = is_open w0 t)"

lemma exclusive_start: "exclusive w (bind_start a w)"
  by (simp add: exclusive_def bind_start_def newAddressBind_def)

lemma exclusive_world:
  assumes "exclusive w0 r" and "made w = made (br_world r) \<and> is_open w = is_open (br_world r)"
    and "fst ` set sends \<subseteq> set (br_receivers r)"
  shows "exclusive w0 (r\<lparr>br_world := w, br_sends := sends, br_written := x\<rparr>)"
  using assms by (simp add: exclusive_def)

lemma receive_frame:
  "receive net s bufs sizes eps w = (res, w') \<Longrightarrow> made w' = made w \<and> is_open w' = is_open w"
  using read_frame by (fastforce simp: receive_def split: list.splits prod.splits sum.splits if_splits)

lemma receive_ok_open:
  "receive net s bufs sizes eps w = (Inr x, w') \<Longrightarrow> is_open w s"
  using read_open by (fastforce simp: receive_def split: list.splits prod.splits sum.splits if_splits)

lemma exclusive_open:
  assumes ex: "exclusive w0 r" and op: "bind_open net port (br_bind r, br_world r) = (Inr (s, p), (b, w))"
  shows "exclusive w0 (r\<lparr>br_bind := b, br_world := w, br_receivers := s # br_receivers r\<rparr>)"
proof -
  from op obtain n ap where none: "ab_socket (br_bind r) = None" and b: "b = (br_bind r)\<lparr>ab_socket := Some s\<rparr>"
      and l: "un_listen net n ap (br_world r) = (Inr s, w)"
    by (auto simp: bind_open_def Let_def split: if_splits prod.splits sum.splits)
  note fresh = listen_fresh [OF l] and mk = listen_made [OF l] and opn = listen_open [OF l]
  from ex none have "\<forall>t \<in> set (br_receivers r). \<not> made w0 t \<and> made (br_world r) t \<and> \<not> is_open (br_world r) t"
    by (simp add: exclusive_def)
  moreover from ex fresh have "\<not> made w0 s" by (auto simp: exclusive_def)
  ultimately show ?thesis using ex fresh
    by (auto simp: exclusive_def mk opn b)
qed

lemma exclusive_open_fails:
  assumes "exclusive w0 r" and "bind_open net port (br_bind r, br_world r) = (Inl e, (b, w))"
  shows "exclusive w0 (r\<lparr>br_bind := b, br_world := w\<rparr>)"
proof -
  from assms(2) have "b = br_bind r \<and> made w = made (br_world r) \<and> is_open w = is_open (br_world r)"
    using listen_failed
    by (fastforce simp: bind_open_def Let_def split: if_splits prod.splits sum.splits)
  with assms(1) show ?thesis by (simp add: exclusive_def)
qed

lemma exclusive_close:
  assumes ex: "exclusive w0 r" and cl: "bind_close net (br_bind r, br_world r) = (res, (b, w))"
  shows "exclusive w0 (r\<lparr>br_bind := b, br_world := w\<rparr>)"
proof (cases "ab_socket (br_bind r)")
  case None
  with cl have "br_bind r = b \<and> br_world r = w" by (simp add: bind_close_def)
  with ex show ?thesis by (auto simp: exclusive_def)
next
  case (Some s)
  with cl obtain x where c: "un_close net s (br_world r) = (x, w)" and b: "b = (br_bind r)\<lparr>ab_socket := None\<rparr>"
    by (auto simp: bind_close_def split: prod.splits)
  note cm = close_made [OF c] and co = close_open [OF c]
  from ex Some have "s \<in> set (br_receivers r)" and "\<not> made w0 s" by (auto simp: exclusive_def)
  with ex Some show ?thesis by (auto simp: exclusive_def cm co b)
qed

lemma exclusive_sends:
  assumes "exclusive w0 r" and "i < length (br_sends r)" and "br_sends r ! i = (s, ap, bufs)"
  shows "fst ` set ((br_sends r)[i := (s, ap, bufs')]) \<subseteq> set (br_receivers r)"
proof -
  have sub: "fst ` set (br_sends r) \<subseteq> set (br_receivers r)" using assms(1) by (simp add: exclusive_def)
  have "fst (br_sends r ! i) \<in> fst ` set (br_sends r)" using assms(2) by simp
  then have "s \<in> set (br_receivers r)" using sub assms(3) by auto
  moreover have "fst ` set ((br_sends r)[i := (s, ap, bufs')]) \<subseteq> insert s (fst ` set (br_sends r))"
    using image_mono [OF set_update_subset_insert [of "br_sends r" i "(s, ap, bufs')"], of fst] by simp
  ultimately show ?thesis using sub by blast
qed

lemma exclusive_step:
  assumes "bind_step net r r'" and "exclusive w0 r"
  shows "exclusive w0 r'"
  using assms
proof (cases rule: bind_step.cases)
  case (step_send ep s ap bufs)
  then have "ab_socket (br_bind r) = Some s"
    by (auto simp: send_target_def split: option.splits endpoint.splits)
  with step_send assms(2) show ?thesis by (auto simp: exclusive_def)
next
  case (step_write i s ap buf bufs w)
  note sends = exclusive_sends [OF assms(2) step_write(2,3), of bufs]
  show ?thesis
    using exclusive_world [OF assms(2) write_frame [OF step_write(4)] sends] unfolding step_write(1) .
next
  case (step_write_fails i s ap buf bufs e w)
  note sends = exclusive_sends [OF assms(2) step_write_fails(2,3), of "[]"]
  show ?thesis
    using exclusive_world [OF assms(2) write_frame [OF step_write_fails(4)] sends, of "br_written r"]
    unfolding step_write_fails(1) by simp
next
  case (step_receive s bufs sizes eps res w)
  have "fst ` set (br_sends r) \<subseteq> set (br_receivers r)" using assms(2) by (simp add: exclusive_def)
  then show ?thesis
    using exclusive_world [OF assms(2) receive_frame [OF step_receive(3)], of "br_sends r" "br_written r"]
    unfolding step_receive(1) by simp
qed (simp_all add: exclusive_open exclusive_open_fails exclusive_close)

lemma exclusive_reachable:
  assumes "bind_reachable net a w0 r"
  shows "exclusive w0 r"
  using assms by (induction rule: bind_reachable.induct) (simp_all add: exclusive_start exclusive_step)

lemma sends_captured:
  assumes "exclusive w0 r" and "(s, ap, bufs) \<in> set (br_sends r)"
  shows "s \<in> set (br_receivers r)"
  using assms by (force simp: exclusive_def)

end

section \<open>An executable operating system\<close>

text \<open>
  A host on which sockets are numbered as they are made. Listening fails when another open socket holds the
  address; every open socket has a queue of packets to read.
\<close>

record udp_os =
  uo_next :: nat
  uo_open :: "(nat \<times> addr_port) list"
  uo_queue :: "(nat \<times> (u8 list \<times> addr_port) list) list"
  uo_sent :: "(nat \<times> u8 list \<times> addr_port) list"

definition os_listen :: "string \<Rightarrow> addr_port \<Rightarrow> udp_os \<Rightarrow> (string + nat) \<times> udp_os" where
  "os_listen network ap os =
     (if ap \<in> snd ` set (uo_open os) then (Inl ''address already in use'', os)
      else (Inr (uo_next os), os\<lparr>uo_next := uo_next os + 1, uo_open := (uo_next os, ap) # uo_open os\<rparr>))"

definition os_is_open :: "udp_os \<Rightarrow> nat \<Rightarrow> bool" where
  "os_is_open os s \<longleftrightarrow> s < uo_next os \<and> s \<in> fst ` set (uo_open os)"

definition os_close :: "nat \<Rightarrow> udp_os \<Rightarrow> string option \<times> udp_os" where
  "os_close s os =
     (if os_is_open os s then (None, os\<lparr>uo_open := filter (\<lambda>(t, _). t \<noteq> s) (uo_open os)\<rparr>)
      else (Some ''use of closed network connection'', os))"

definition os_write :: "nat \<Rightarrow> u8 list \<Rightarrow> addr_port \<Rightarrow> udp_os \<Rightarrow> string option \<times> udp_os" where
  "os_write s buf ap os =
     (if os_is_open os s then (None, os\<lparr>uo_sent := (s, buf, ap) # uo_sent os\<rparr>)
      else (Some ''use of closed network connection'', os))"

definition os_read :: "nat \<Rightarrow> nat \<Rightarrow> udp_os \<Rightarrow> (string + u8 list \<times> addr_port) \<times> udp_os" where
  "os_read s n os =
     (if \<not> os_is_open os s then (Inl ''use of closed network connection'', os)
      else case mget (uo_queue os) s [] of
             [] \<Rightarrow> (Inl ''i/o timeout'', os)
           | (packet, from_addr) # rest \<Rightarrow>
               (Inr (take n packet, from_addr), os\<lparr>uo_queue := mput s rest (uo_queue os)\<rparr>))"

definition os_port :: "nat \<Rightarrow> udp_os \<Rightarrow> u16" where
  "os_port s os = ap_port (mget (uo_open os) s (AddrPort NoAddr 0))"

definition os_net :: "(nat, udp_os, string) udp_net" where
  "os_net = \<lparr>un_listen = os_listen, un_close = os_close, un_write = os_write, un_read = os_read, un_local_port = os_port\<rparr>"

definition os_made :: "udp_os \<Rightarrow> nat \<Rightarrow> bool" where
  "os_made os s \<longleftrightarrow> s < uo_next os"

lemmas os_defs = os_net_def os_listen_def os_close_def os_write_def os_read_def os_is_open_def os_made_def

interpretation udp: udp_laws os_net os_is_open os_made
proof unfold_locales
  fix n ap w s w' t
  assume l: "un_listen os_net n ap w = (Inr s, w')"
  show "\<not> os_made w s" using l by (auto simp: os_defs split: if_splits)
  show "os_made w' t \<longleftrightarrow> t = s \<or> os_made w t" using l by (auto simp: os_defs split: if_splits)
  show "os_is_open w' t \<longleftrightarrow> t = s \<or> os_is_open w t" using l by (auto simp: os_defs split: if_splits)
next
  fix s w r w' t
  assume c: "un_close os_net s w = (r, w')"
  show "os_made w' = os_made w" using c by (auto simp: os_defs fun_eq_iff split: if_splits)
  show "os_is_open w' t \<longleftrightarrow> t \<noteq> s \<and> os_is_open w t"
    using c by (auto simp: os_defs image_iff Bex_def split: if_splits)
next
  fix s k w rd w'
  assume r: "un_read os_net s k w = (rd, w')"
  show "os_made w' = os_made w \<and> os_is_open w' = os_is_open w"
    using r by (auto simp: os_defs fun_eq_iff split: if_splits list.splits prod.splits)
qed (auto simp: os_defs fun_eq_iff split: if_splits)

section \<open>The properties\<close>

text \<open>C20. However opens, closes, sends and receives of the downstream bind interleave, it owns at most one open
  socket, the one in its field: a receive function of an earlier \<open>Open\<close> never reads a later socket, a \<open>Send\<close> that
  is past the mutex writes nothing once its socket was replaced or closed, no two \<open>Open\<close> calls share a socket, and the
  sockets other programs had open are left as they were.\<close>

theorem bind_exclusive:
  fixes net :: "('s, 'w, 'e) udp_net"
  assumes "udp_laws net is_open made" and "bind_reachable net a w0 r"
  shows "distinct (br_receivers r) \<and>
    (\<forall>t \<in> set (br_receivers r). is_open (br_world r) t \<longleftrightarrow> ab_socket (br_bind r) = Some t) \<and>
    (\<forall>t \<in> set (br_receivers r). \<forall>bufs sizes eps x w.
       receive net t bufs sizes eps (br_world r) = (Inr x, w) \<longrightarrow> ab_socket (br_bind r) = Some t) \<and>
    (\<forall>(s, ap, bufs) \<in> set (br_sends r). \<forall>buf w.
       un_write net s buf ap (br_world r) = (None, w) \<longrightarrow> ab_socket (br_bind r) = Some s) \<and>
    (\<forall>t. made w0 t \<longrightarrow> is_open (br_world r) t = is_open w0 t)"
proof -
  note ex = udp_laws.exclusive_reachable [OF assms]
  have op: "is_open (br_world r) t \<longleftrightarrow> ab_socket (br_bind r) = Some t" if "t \<in> set (br_receivers r)" for t
    using ex that unfolding udp_laws.exclusive_def [OF assms(1)] by simp
  have other: "is_open (br_world r) t = is_open w0 t" if "made w0 t" for t
    using ex that unfolding udp_laws.exclusive_def [OF assms(1)] by simp
  have dis: "distinct (br_receivers r)" using ex unfolding udp_laws.exclusive_def [OF assms(1)] by simp
  have sent: "ab_socket (br_bind r) = Some s"
    if "(s, ap, bufs) \<in> set (br_sends r)" and "un_write net s buf ap (br_world r) = (None, w)" for s ap bufs buf w
    using op [OF udp_laws.sends_captured [OF assms(1) ex that(1)]] udp_laws.write_open [OF assms(1) that(2)] by simp
  show ?thesis
    using dis op other sent udp_laws.receive_ok_open [OF assms(1)] by blast
qed

definition sample_os :: udp_os where
  "sample_os = \<lparr>uo_next = 1, uo_open = [(0, AddrPort (V4 1) 53)], uo_queue = [], uo_sent = []\<rparr>"

definition sample_send_run :: "(nat, udp_os) bind_run" where
  "sample_send_run =
     \<lparr>br_bind = \<lparr>ab_addr = V4 7, ab_socket = Some 2\<rparr>,
      br_world = \<lparr>uo_next = 3, uo_open = [(2, AddrPort (V4 7) 51820), (0, AddrPort (V4 1) 53)], uo_queue = [], uo_sent = []\<rparr>,
      br_receivers = [2, 1], br_sends = [(1, AddrPort (V4 9) 80, [[1]])], br_written = []\<rparr>"

text \<open>The bind opens, a \<open>Send\<close> gets past the mutex, the bind closes and opens again.\<close>

lemma sample_send_run_reachable: "bind_reachable os_net (V4 7) sample_os sample_send_run"
proof -
  let ?r0 = "bind_start (V4 7) sample_os :: (nat, udp_os) bind_run"
  have r0: "bind_reachable os_net (V4 7) sample_os ?r0" by (rule bind_init)
  let ?r1 = "?r0\<lparr>br_bind := \<lparr>ab_addr = V4 7, ab_socket = Some 1\<rparr>,
      br_world := \<lparr>uo_next = 2, uo_open = [(1, AddrPort (V4 7) 51820), (0, AddrPort (V4 1) 53)], uo_queue = [], uo_sent = []\<rparr>,
      br_receivers := 1 # br_receivers ?r0\<rparr>"
  have r1: "bind_reachable os_net (V4 7) sample_os ?r1"
    by (rule bind_next [OF r0 step_open [where port = 51820 and p = 51820]])
      (simp add: bind_open_def bind_start_def newAddressBind_def sample_os_def os_defs os_port_def mget_def)
  let ?r2 = "?r1\<lparr>br_sends := (1, AddrPort (V4 9) 80, [[1]]) # br_sends ?r1\<rparr>"
  have r2: "bind_reachable os_net (V4 7) sample_os ?r2"
    by (rule bind_next [OF r1 step_send [where ep = "StdNetEndpoint (AddrPort (V4 9) 80)"]])
      (simp add: send_target_def)
  let ?r3 = "?r2\<lparr>br_bind := \<lparr>ab_addr = V4 7, ab_socket = None\<rparr>,
      br_world := \<lparr>uo_next = 2, uo_open = [(0, AddrPort (V4 1) 53)], uo_queue = [], uo_sent = []\<rparr>\<rparr>"
  have r3: "bind_reachable os_net (V4 7) sample_os ?r3"
    by (rule bind_next [OF r2 step_close [where res = None]]) (simp add: bind_close_def os_defs)
  let ?r4 = "?r3\<lparr>br_bind := \<lparr>ab_addr = V4 7, ab_socket = Some 2\<rparr>,
      br_world := \<lparr>uo_next = 3, uo_open = [(2, AddrPort (V4 7) 51820), (0, AddrPort (V4 1) 53)], uo_queue = [], uo_sent = []\<rparr>,
      br_receivers := 2 # br_receivers ?r3\<rparr>"
  have r4: "bind_reachable os_net (V4 7) sample_os ?r4"
    by (rule bind_next [OF r3 step_open [where port = 51820 and p = 51820]])
      (simp add: bind_open_def os_defs os_port_def mget_def)
  have "?r4 = sample_send_run" by (simp add: sample_send_run_def bind_start_def)
  with r4 show ?thesis by simp
qed

theorem bind_exclusive_witness:
  "distinct [2, 1 :: nat] \<and> \<not> os_is_open (br_world sample_send_run) 1 \<and> os_is_open (br_world sample_send_run) 2"
proof -
  have "distinct (br_receivers sample_send_run) \<and>
      (\<forall>t \<in> set (br_receivers sample_send_run).
         os_is_open (br_world sample_send_run) t \<longleftrightarrow> ab_socket (br_bind sample_send_run) = Some t)"
    using bind_exclusive [OF udp.udp_laws_axioms sample_send_run_reachable] by blast
  then show ?thesis by (simp add: sample_send_run_def)
qed

end
