(* ===== verification/Tunnel.thy ===== *)
theory Tunnel
  imports Bind Go_Time Awg_Roundtrip
begin

text \<open>
  \<open>internal/tunnel/tunnel.go\<close>: the operations on an amneziawg-go device and the parser of its state report.
  The device itself is outside the repository: its constructor, its UAPI and its switches are the fields of
  \<open>awg_lib\<close>, on a handle \<open>'h\<close>.
\<close>

record ('h, 'b, 't, 'w, 'e) awg_lib =
  al_new :: "'t \<Rightarrow> 'b \<Rightarrow> 'w \<Rightarrow> 'h \<times> 'w"
  al_ipc_set :: "'h \<Rightarrow> string \<Rightarrow> 'w \<Rightarrow> 'e option \<times> 'w"
  al_ipc_get :: "'h \<Rightarrow> 'w \<Rightarrow> 'e + string"
  al_up :: "'h \<Rightarrow> 'w \<Rightarrow> 'e option \<times> 'w"
  al_close :: "'h \<Rightarrow> 'w \<Rightarrow> 'w"
  al_default_bind :: 'b
  al_bind :: "nat addressBind \<Rightarrow> 'b"

record 'h device =
  dv_name :: string
  dv_dev :: 'h

definition newWithBind ::
  "('h, 'b, 't, 'w, 'e) awg_lib \<Rightarrow> string \<Rightarrow> 't \<Rightarrow> 'b \<Rightarrow> 'w \<Rightarrow> 'h device \<times> 'w" where
  "newWithBind lib name t bind w = (let (h, w') = al_new lib t bind w in (\<lparr>dv_name = name, dv_dev = h\<rparr>, w'))"

definition new_device :: "('h, 'b, 't, 'w, 'e) awg_lib \<Rightarrow> string \<Rightarrow> 't \<Rightarrow> 'w \<Rightarrow> 'h device \<times> 'w" where
  "new_device lib name t w = newWithBind lib name t (al_default_bind lib) w"

definition NewBound :: "('h, 'b, 't, 'w, 'e) awg_lib \<Rightarrow> string \<Rightarrow> 't \<Rightarrow> addr \<Rightarrow> 'w \<Rightarrow> 'h device \<times> 'w" where
  "NewBound lib name t a w = newWithBind lib name t (al_bind lib (newAddressBind a)) w"

text \<open>Errors of the device are returned with its name.\<close>

definition Configure ::
  "('h, 'b, 't, 'w, 'e) awg_lib \<Rightarrow> 'h device \<Rightarrow> string \<Rightarrow> 'w \<Rightarrow> (string \<times> 'e) option \<times> 'w" where
  "Configure lib d uapi w =
     (let (r, w') = al_ipc_set lib (dv_dev d) uapi w in (map_option (\<lambda>e. (dv_name d, e)) r, w'))"

definition AddPeer ::
  "('h, 'b, 't, 'w, 'e) awg_lib \<Rightarrow> 'h device \<Rightarrow> awg_peer \<Rightarrow> 'w \<Rightarrow> (string \<times> 'e) option \<times> 'w" where
  "AddPeer lib d p w = Configure lib d (peer_uapi p) w"

definition RemovePeer ::
  "('h, 'b, 't, 'w, 'e) awg_lib \<Rightarrow> 'h device \<Rightarrow> key \<Rightarrow> 'w \<Rightarrow> (string \<times> 'e) option \<times> 'w" where
  "RemovePeer lib d pub w =
     Configure lib d (''public_key='' @ key_hex pub @ [CHR 0x0A] @ ''remove=true'' @ [CHR 0x0A]) w"

definition device_up ::
  "('h, 'b, 't, 'w, 'e) awg_lib \<Rightarrow> 'h device \<Rightarrow> 'w \<Rightarrow> (string \<times> 'e) option \<times> 'w" where
  "device_up lib d w = (let (r, w') = al_up lib (dv_dev d) w in (map_option (\<lambda>e. (dv_name d, e)) r, w'))"

definition device_close :: "('h, 'b, 't, 'w, 'e) awg_lib \<Rightarrow> 'h device \<Rightarrow> 'w \<Rightarrow> 'w" where
  "device_close lib d w = al_close lib (dv_dev d) w"

section \<open>The state report\<close>

record peer_status =
  ps_public :: key
  ps_endpoint :: string
  ps_handshake :: gotime
  ps_rx :: u64
  ps_tx :: u64

definition zero_peer_status :: "key \<Rightarrow> peer_status" where
  "zero_peer_status k = \<lparr>ps_public = k, ps_endpoint = [], ps_handshake = zero_time, ps_rx = 0, ps_tx = 0\<rparr>"

text \<open>\<open>NoPeerYet\<close> is the panic of writing through \<open>cur\<close> before any peer was read.\<close>

datatype peers_error = PeerKeyInvalid key_error | NoPeerYet

type_synonym peers_state = "peer_status list \<times> i64 \<times> i64"

definition update_cur :: "(peer_status \<Rightarrow> peer_status) \<Rightarrow> peers_state \<Rightarrow> peers_error + peers_state" where
  "update_cur f st =
     (let (peers, sec, nsec) = st
      in if peers = [] then Inl NoPeerYet else Inr (butlast peers @ [f (last peers)], sec, nsec))"

definition parse_peer_line :: "string \<Rightarrow> peers_state \<Rightarrow> peers_error + peers_state" where
  "parse_peer_line line st =
     (case cut (CHR ''='') line of
        None \<Rightarrow> Inr st
      | Some (key, value) \<Rightarrow>
          (let (peers, sec, nsec) = st
           in if key = ''public_key'' then
                (case ParseHexKey value of
                   Inl e \<Rightarrow> Inl (PeerKeyInvalid e)
                 | Inr b \<Rightarrow> Inr (peers @ [zero_peer_status b], 0, 0))
              else if key = ''endpoint'' then update_cur (ps_endpoint_update (\<lambda>_. value)) st
              else if key = ''last_handshake_time_sec'' then Inr (peers, int_value value, nsec)
              else if key = ''last_handshake_time_nsec'' then
                (if sec \<noteq> 0 then
                   update_cur (ps_handshake_update (\<lambda>_. time_unix sec (int_value value))) (peers, sec, int_value value)
                 else Inr (peers, sec, int_value value))
              else if key = ''rx_bytes'' then update_cur (ps_rx_update (\<lambda>_. uint_value value)) st
              else if key = ''tx_bytes'' then update_cur (ps_tx_update (\<lambda>_. uint_value value)) st
              else Inr st))"

fun parse_peers_loop :: "string list \<Rightarrow> peers_state \<Rightarrow> peers_error + peers_state" where
  "parse_peers_loop [] st = Inr st"
| "parse_peers_loop (l # ls) st = rbind (parse_peer_line l st) (parse_peers_loop ls)"

definition parsePeers :: "string \<Rightarrow> peers_error + peer_status list" where
  "parsePeers raw = rmap fst (parse_peers_loop (split_on (CHR 0x0A) raw) ([], 0, 0))"

datatype 'e device_peers_error = IpcGetFailed string 'e | BadReport peers_error

definition device_peers ::
  "('h, 'b, 't, 'w, 'e) awg_lib \<Rightarrow> 'h device \<Rightarrow> 'w \<Rightarrow> 'e device_peers_error + peer_status list" where
  "device_peers lib d w =
     (case al_ipc_get lib (dv_dev d) w of
        Inl e \<Rightarrow> Inl (IpcGetFailed (dv_name d) e)
      | Inr raw \<Rightarrow> wrap_err BadReport (parsePeers raw))"

section \<open>The report of a device\<close>

text \<open>
  What the UAPI documents of its \<open>get\<close> report: the lines of the device, then a block for each peer that starts with its
  key. \<open>field_line\<close> is such a line; the lines that name none of the six keys the parser reads may stand anywhere.
  The seconds of the last handshake come before its nanoseconds, and are both zero if there was none.
\<close>

definition field_line :: "string \<Rightarrow> string \<Rightarrow> string" where
  "field_line key value = key @ CHR ''='' # value"

definition read_keys :: "string list" where
  "read_keys = [''public_key'', ''endpoint'', ''last_handshake_time_sec'', ''last_handshake_time_nsec'',
     ''rx_bytes'', ''tx_bytes'']"

definition unread_line :: "string \<Rightarrow> bool" where
  "unread_line l \<longleftrightarrow> CHR 0x0A \<notin> set l \<and>
     (case cut (CHR ''='') l of None \<Rightarrow> True | Some (k, v) \<Rightarrow> k \<notin> set read_keys)"

record peer_report =
  pr_status :: peer_status
  pr_sec :: i64
  pr_nsec :: i64
  pr_before :: "string list"
  pr_between :: "string list"
  pr_after :: "string list"

definition peer_block :: "peer_report \<Rightarrow> string list" where
  "peer_block r =
     (let p = pr_status r
      in [field_line ''public_key'' (key_hex (ps_public p))] @ pr_before r @
         (if ps_endpoint p = [] then [] else [field_line ''endpoint'' (ps_endpoint p)]) @
         [field_line ''last_handshake_time_sec'' (show_int (sint (pr_sec r))),
          field_line ''last_handshake_time_nsec'' (show_int (sint (pr_nsec r)))] @ pr_between r @
         [field_line ''tx_bytes'' (show_nat (unat (ps_tx p))), field_line ''rx_bytes'' (show_nat (unat (ps_rx p)))] @
         pr_after r)"

definition peer_report_ok :: "peer_report \<Rightarrow> bool" where
  "peer_report_ok r \<longleftrightarrow>
     key_ok (ps_public (pr_status r)) \<and> CHR 0x0A \<notin> set (ps_endpoint (pr_status r)) \<and>
     ps_handshake (pr_status r) = (if pr_sec r = 0 then zero_time else time_unix (pr_sec r) (pr_nsec r)) \<and>
     list_all unread_line (pr_before r @ pr_between r @ pr_after r)"

definition uapi_report :: "string list \<Rightarrow> peer_report list \<Rightarrow> string" where
  "uapi_report dev rs = with_newlines (dev @ concat (map peer_block rs))"

section \<open>The parser reads what the device reports\<close>

lemma parse_peers_loop_append:
  "parse_peers_loop (ls @ ms) st = rbind (parse_peers_loop ls st) (parse_peers_loop ms)"
proof (induction ls arbitrary: st)
  case (Cons l ls)
  then have "parse_peers_loop (ls @ ms) = (\<lambda>st. rbind (parse_peers_loop ls st) (parse_peers_loop ms))" by blast
  then show ?case by (simp add: rbind_assoc)
qed simp

lemma cut_field: "CHR ''='' \<notin> set k \<Longrightarrow> cut (CHR ''='') (field_line k v) = Some (k, v)"
  by (simp add: field_line_def cut_append)

lemma parse_unread: "unread_line l \<Longrightarrow> parse_peer_line l st = Inr st"
  by (cases st) (auto simp: unread_line_def parse_peer_line_def read_keys_def split: option.splits)

lemma parse_unread_all: "list_all unread_line ls \<Longrightarrow> parse_peers_loop ls st = Inr st"
  by (induction ls) (simp_all add: parse_unread)


lemma read_keys_eq: "k \<in> set read_keys \<Longrightarrow> CHR ''='' \<notin> set k"
  by (auto simp: read_keys_def)

lemma parse_field_simps [simp]:
  "parse_peer_line (field_line ''public_key'' v) (ps, s, n) =
     (case ParseHexKey v of Inl e \<Rightarrow> Inl (PeerKeyInvalid e) | Inr b \<Rightarrow> Inr (ps @ [zero_peer_status b], 0, 0))"
  "parse_peer_line (field_line ''endpoint'' v) st = update_cur (ps_endpoint_update (\<lambda>_. v)) st"
  "parse_peer_line (field_line ''last_handshake_time_sec'' v) (ps, s, n) = Inr (ps, int_value v, n)"
  "parse_peer_line (field_line ''last_handshake_time_nsec'' v) (ps, s, n) =
     (if s \<noteq> 0 then update_cur (ps_handshake_update (\<lambda>_. time_unix s (int_value v))) (ps, s, int_value v)
      else Inr (ps, s, int_value v))"
  "parse_peer_line (field_line ''rx_bytes'' v) st = update_cur (ps_rx_update (\<lambda>_. uint_value v)) st"
  "parse_peer_line (field_line ''tx_bytes'' v) st = update_cur (ps_tx_update (\<lambda>_. uint_value v)) st"
  by (cases st; simp add: parse_peer_line_def cut_field)+

lemma update_cur_snoc [simp]: "update_cur f (ps @ [p], s, n) = Inr (ps @ [f p], s, n)"
  by (simp add: update_cur_def)

lemma parse_peer_block:
  assumes "peer_report_ok r"
  shows "parse_peers_loop (peer_block r) (ps, s, n) = Inr (ps @ [pr_status r], pr_sec r, pr_nsec r)"
proof -
  obtain k ep hs rx tx where p: "pr_status r = \<lparr>ps_public = k, ps_endpoint = ep, ps_handshake = hs, ps_rx = rx, ps_tx = tx\<rparr>"
    by (cases "pr_status r") auto
  have lines: "list_all unread_line (pr_before r)" "list_all unread_line (pr_between r)" "list_all unread_line (pr_after r)"
    and k: "ParseHexKey (key_hex k) = Inr k"
    and hs: "hs = (if pr_sec r = 0 then zero_time else time_unix (pr_sec r) (pr_nsec r))"
    using assms by (simp_all add: peer_report_ok_def p ParseHexKey_hex)
  show ?thesis
    by (simp add: peer_block_def Let_def p k parse_peers_loop_append parse_unread_all [OF lines(1)]
        parse_unread_all [OF lines(2)] parse_unread_all [OF lines(3)] zero_peer_status_def hs)
qed

lemma parse_peer_blocks:
  "list_all peer_report_ok rs \<Longrightarrow>
   \<exists>s' n'. parse_peers_loop (concat (map peer_block rs)) (ps, s, n) = Inr (ps @ map pr_status rs, s', n')"
proof (induction rs arbitrary: ps s n)
  case (Cons r rs)
  then show ?case
    using Cons.IH [of "ps @ [pr_status r]" "pr_sec r" "pr_nsec r"]
    by (simp add: parse_peers_loop_append parse_peer_block)
qed simp

lemma show_int_no_newline: "CHR 0x0A \<notin> set (show_int i)"
  using show_nat_digits [of "CHR 0x0A"] by (auto simp: show_int_def is_digit_def)

lemma show_nat_no_newline: "CHR 0x0A \<notin> set (show_nat n)"
  using show_nat_digits [of "CHR 0x0A"] by (auto simp: is_digit_def)

lemma key_hex_no_newline: "CHR 0x0A \<notin> set (key_hex k)"
proof -
  have "CHR 0x0A \<notin> set hex_alphabet" by (simp add: hex_alphabet_def)
  then show ?thesis unfolding key_hex_def
  proof (induction k)
    case (Cons b k)
    have "CHR 0x0A \<noteq> hex_alphabet ! i" if "i < 16" for i
      using that Cons.prems nth_mem [of i hex_alphabet] by (auto simp: hex_alphabet_def)
    from this [of "unat b div 16"] this [of "unat b mod 16"] Cons show ?case using unat_u8 [of b] by simp
  qed simp
qed

lemma peer_block_lines: "peer_report_ok r \<Longrightarrow> l \<in> set (peer_block r) \<Longrightarrow> CHR 0x0A \<notin> set l"
  by (auto simp: peer_block_def Let_def peer_report_ok_def list_all_iff unread_line_def field_line_def
      show_int_no_newline show_nat_no_newline key_hex_no_newline split: if_splits)

text \<open>C36. The parser of a device's state report returns exactly the peers the report was written from, in its order,
  with every counter and time at full width, whatever other lines the device adds.\<close>

theorem peers_roundtrip:
  assumes "list_all unread_line dev" and "list_all peer_report_ok rs"
  shows "parsePeers (uapi_report dev rs) = Inr (map pr_status rs)"
proof -
  have "\<forall>l \<in> set (dev @ concat (map peer_block rs)). CHR 0x0A \<notin> set l"
    using assms peer_block_lines by (auto simp: list_all_iff unread_line_def)
  from split_with_newlines [OF this] parse_peer_blocks [OF assms(2), of "[]" 0 0]
  show ?thesis
    by (auto simp: parsePeers_def uapi_report_def parse_peers_loop_append parse_unread_all [OF assms(1)]
        parse_unread unread_line_def)
qed


definition sample_report :: peer_report where
  "sample_report =
     \<lparr>pr_status = \<lparr>ps_public = replicate 32 1, ps_endpoint = ''192.0.2.1:51820'', ps_handshake = time_unix 1700000000 5,
                    ps_rx = 18446744073709551615, ps_tx = 7\<rparr>,
      pr_sec = 1700000000, pr_nsec = 5, pr_before = [''preshared_key=00'', ''protocol_version=1''], pr_between = [],
      pr_after = [''persistent_keepalive_interval=25'', ''allowed_ip=10.8.0.2/32'']\<rparr>"

definition silent_report :: peer_report where
  "silent_report =
     \<lparr>pr_status = zero_peer_status (replicate 32 2), pr_sec = 0, pr_nsec = 0, pr_before = [], pr_between = [], pr_after = []\<rparr>"

lemma sample_report_ok: "list_all peer_report_ok [sample_report, silent_report]"
  by (simp add: peer_report_ok_def sample_report_def silent_report_def zero_peer_status_def key_ok_def
      unread_line_def read_keys_def)

theorem peers_roundtrip_witness:
  "parsePeers (uapi_report [''private_key=01'', ''listen_port=51820'', ''jc=4''] [sample_report, silent_report])
     = Inr [pr_status sample_report, pr_status silent_report]"
  using peers_roundtrip [OF _ sample_report_ok, of "[''private_key=01'', ''listen_port=51820'', ''jc=4'']"]
  by (simp add: unread_line_def read_keys_def)

end
