(* ===== verification/Metrics.thy ===== *)
theory Metrics
  imports Go_Float Awg_Roundtrip "HOL-Library.Multiset"
begin

text \<open>
  \<open>internal/metrics/metrics.go\<close>: the Prometheus text writer. The order \<open>slices.SortFunc\<close> gives to samples of one
  family with equal labels is unspecified, so the sort is an argument \<open>srt\<close> with the law \<open>sorts_by\<close>. The destination of
  \<open>Write\<close> is the text written; its own failures are not modelled. \<open>read_exposition\<close> is a reader of the format, which the
  program does not contain: it states what a scraper gets.
\<close>

record label =
  lb_name :: string
  lb_value :: string

record sample =
  sm_name :: string
  sm_labels :: "label list"
  sm_value :: float64

record family =
  fm_name :: string
  fm_type :: string
  fm_help :: string

text \<open>\<open>NewReplacer\<close> with one-byte patterns replaces byte by byte.\<close>

definition escape_char :: "char \<Rightarrow> string" where
  "escape_char c =
     (if c = CHR 0x5C then [CHR 0x5C, CHR 0x5C] else if c = CHR 0x22 then [CHR 0x5C, CHR 0x22]
      else if c = CHR 0x0A then [CHR 0x5C, CHR ''n''] else [c])"

definition escape :: "string \<Rightarrow> string" where
  "escape s = concat (map escape_char s)"

definition label_part :: "label \<Rightarrow> string" where
  "label_part l = lb_name l @ [CHR ''='', CHR 0x22] @ escape (lb_value l) @ [CHR 0x22]"

definition labelSet :: "label list \<Rightarrow> string" where
  "labelSet ls = (if ls = [] then [] else ''{'' @ join '','' (map label_part ls) @ ''}'')"

definition sample_line :: "sample \<Rightarrow> string" where
  "sample_line s = sm_name s @ labelSet (sm_labels s) @ '' '' @ format_float (sm_value s) @ [CHR 0x0A]"

definition family_header :: "family \<Rightarrow> string" where
  "family_header f =
     ''# HELP '' @ fm_name f @ '' '' @ fm_help f @ [CHR 0x0A] @ ''# TYPE '' @ fm_name f @ '' '' @ fm_type f @ [CHR 0x0A]"

fun by_sample_name :: "sample list \<Rightarrow> (string \<times> sample list) list \<Rightarrow> (string \<times> sample list) list" where
  "by_sample_name [] m = m"
| "by_sample_name (s # ss) m = by_sample_name ss (mput (sm_name s) (mget m (sm_name s) [] @ [s]) m)"

text \<open>The group is sorted in place: the map keeps the sorted slice.\<close>

fun write_families ::
  "(sample list \<Rightarrow> sample list) \<Rightarrow> family list \<Rightarrow> (string \<times> sample list) list \<Rightarrow> string" where
  "write_families srt [] byName = []"
| "write_families srt (f # fs) byName =
     (let group = srt (mget byName (fm_name f) [])
      in family_header f @ concat (map sample_line group) @ write_families srt fs (mput (fm_name f) group byName))"

definition write_metrics :: "(sample list \<Rightarrow> sample list) \<Rightarrow> family list \<Rightarrow> sample list \<Rightarrow> string" where
  "write_metrics srt families samples = write_families srt families (by_sample_name samples [])"

definition metrics_handler ::
  "(sample list \<Rightarrow> sample list) \<Rightarrow> family list \<Rightarrow> ('w \<Rightarrow> sample list) \<Rightarrow> 'w \<Rightarrow> (string \<times> string) list \<times> string" where
  "metrics_handler srt families snapshot w =
     ([(''Content-Type'', ''text/plain; version=0.0.4; charset=utf-8'')], write_metrics srt families (snapshot w))"

section \<open>The sort\<close>

definition sorts_by :: "('a \<Rightarrow> 'k :: linorder) \<Rightarrow> ('a list \<Rightarrow> 'a list) \<Rightarrow> bool" where
  "sorts_by key srt \<longleftrightarrow> (\<forall>xs. mset (srt xs) = mset xs \<and> sorted (map key (srt xs)))"

definition sample_key :: "sample \<Rightarrow> string" where
  "sample_key s = labelSet (sm_labels s)"

lemma sorts_by_sort_key: "sorts_by key (sort_key key)"
  by (simp add: sorts_by_def)

lemma sorts_by_set: "sorts_by key srt \<Longrightarrow> set (srt xs) = set xs"
  by (metis set_mset_mset sorts_by_def)

section \<open>A reader of the format\<close>

fun read_value :: "string \<Rightarrow> (string \<times> string) option" where
  "read_value [] = None"
| "read_value (c # cs) =
     (if c = CHR 0x22 then Some ([], cs)
      else if c = CHR 0x5C then
        (case cs of
           [] \<Rightarrow> None
         | d # ds \<Rightarrow> map_option (apfst ((#) (if d = CHR ''n'' then CHR 0x0A else d))) (read_value ds))
      else map_option (apfst ((#) c)) (read_value cs))"

text \<open>The labels after an opening brace, each \<open>name="value"\<close>, and what follows the closing one. The first argument is fuel.\<close>

fun read_labels :: "nat \<Rightarrow> string \<Rightarrow> (label list \<times> string) option" where
  "read_labels 0 s = None"
| "read_labels (Suc n) s =
     (case cut (CHR ''='') s of
        Some (name, q # rest) \<Rightarrow>
          (if q \<noteq> CHR 0x22 then None
           else case read_value rest of
             Some (v, c # cs) \<Rightarrow>
               if c = CHR ''}'' then Some ([\<lparr>lb_name = name, lb_value = v\<rparr>], cs)
               else if c = CHR '','' then map_option (apfst ((#) \<lparr>lb_name = name, lb_value = v\<rparr>)) (read_labels n cs)
               else None
           | _ \<Rightarrow> None)
      | _ \<Rightarrow> None)"

definition name_char :: "char \<Rightarrow> bool" where
  "name_char c \<longleftrightarrow> is_digit c \<or> c = CHR ''_'' \<or> 97 \<le> (of_char c :: nat) \<and> (of_char c :: nat) \<le> 122"

definition read_sample :: "string \<Rightarrow> (string \<times> label list \<times> string) option" where
  "read_sample line =
     (let name = takeWhile name_char line; rest = dropWhile name_char line
      in case rest of
           c # cs \<Rightarrow>
             if c = CHR ''{'' then
               (case read_labels (length cs) cs of
                  Some (ls, d # v) \<Rightarrow> if d = CHR '' '' then Some (name, ls, v) else None
                | _ \<Rightarrow> None)
             else if c = CHR '' '' then Some (name, [], cs) else None
         | [] \<Rightarrow> None)"

definition is_comment :: "string \<Rightarrow> bool" where
  "is_comment line \<longleftrightarrow> line = [] \<or> hd line = CHR ''#''"

definition read_exposition :: "string \<Rightarrow> (string \<times> label list \<times> string) option list" where
  "read_exposition s = map read_sample (filter (\<lambda>l. \<not> is_comment l) (split_on (CHR 0x0A) s))"


section \<open>What is written can be read back\<close>

definition plain_name :: "string \<Rightarrow> bool" where
  "plain_name n \<longleftrightarrow> n \<noteq> [] \<and> list_all name_char n"

definition sample_ok :: "sample \<Rightarrow> bool" where
  "sample_ok s \<longleftrightarrow> plain_name (sm_name s) \<and> (\<forall>l \<in> set (sm_labels s). plain_name (lb_name l))"

definition family_ok :: "family \<Rightarrow> bool" where
  "family_ok f \<longleftrightarrow> CHR 0x0A \<notin> set (fm_name f) \<and> CHR 0x0A \<notin> set (fm_help f) \<and> CHR 0x0A \<notin> set (fm_type f)"

lemma name_char_punct [simp]:
  "\<not> name_char (CHR ''='')" "\<not> name_char (CHR ''{'')" "\<not> name_char (CHR '' '')" "\<not> name_char (CHR ''#'')"
  "\<not> name_char (CHR 0x0A)"
  by (code_simp, code_simp, code_simp, code_simp, code_simp)

lemma float_char_newline [simp]: "\<not> float_char (CHR 0x0A)"
  by code_simp

lemma escape_Nil [simp]: "escape [] = []"
  by (simp add: escape_def)

lemma escape_Cons [simp]: "escape (c # s) = escape_char c @ escape s"
  by (simp add: escape_def)

lemma read_value_escape: "read_value (escape s @ CHR 0x22 # rest) = Some (s, rest)"
  by (induction s) (simp_all add: escape_char_def)

lemma escape_no_newline: "CHR 0x0A \<notin> set (escape s)"
  by (induction s) (simp_all add: escape_char_def)

lemma plain_name_notin: "plain_name n \<Longrightarrow> \<not> name_char c \<Longrightarrow> c \<notin> set n"
  by (auto simp: plain_name_def list_all_iff)

lemma read_labels_join:
  assumes "ls \<noteq> []" and "\<forall>l \<in> set ls. plain_name (lb_name l)" and "length ls \<le> n"
  shows "read_labels n (join '','' (map label_part ls) @ CHR ''}'' # rest) = Some (ls, rest)"
  using assms
proof (induction ls arbitrary: n)
  case (Cons l ls)
  then obtain m where n: "n = Suc m" and m: "length ls \<le> m" by (cases n) auto
  have nm: "CHR ''='' \<notin> set (lb_name l)" using Cons.prems(2) plain_name_notin by simp
  have cut: "cut (CHR ''='') (label_part l @ x) = Some (lb_name l, CHR 0x22 # escape (lb_value l) @ CHR 0x22 # x)" for x
    using cut_append [OF nm] by (simp add: label_part_def)
  show ?case
  proof (cases ls)
    case Nil
    then show ?thesis by (simp add: n cut read_value_escape)
  next
    case (Cons k ks)
    then have "join '','' (map label_part (l # ls)) @ CHR ''}'' # rest =
        label_part l @ CHR '','' # (join '','' (map label_part ls) @ CHR ''}'' # rest)" by simp
    with Cons.IH [OF _ _ m] Cons.prems Cons show ?thesis by (simp add: n cut read_value_escape)
  qed
qed simp

lemma label_part_nonempty: "label_part l \<noteq> []"
  by (simp add: label_part_def)

lemma length_join_parts: "length ls \<le> length (join '','' (map label_part ls)) + 1"
proof (induction ls)
  case (Cons l ls)
  then show ?case by (cases ls) auto
qed simp

lemma takeWhile_name: "plain_name n \<Longrightarrow> \<not> name_char c \<Longrightarrow>
    takeWhile name_char (n @ c # cs) = n \<and> dropWhile name_char (n @ c # cs) = c # cs"
  by (auto simp: plain_name_def list_all_iff takeWhile_append dropWhile_append)

definition sample_row :: "sample \<Rightarrow> string" where
  "sample_row s = sm_name s @ labelSet (sm_labels s) @ '' '' @ format_float (sm_value s)"

lemma read_sample_row:
  assumes "sample_ok s"
  shows "read_sample (sample_row s) = Some (sm_name s, sm_labels s, format_float (sm_value s))"
proof (cases "sm_labels s = []")
  case True
  with assms takeWhile_name [of "sm_name s" "CHR '' ''"] show ?thesis
    by (simp add: read_sample_def sample_row_def labelSet_def sample_ok_def)
next
  case False
  let ?j = "join '','' (map label_part (sm_labels s))"
  let ?v = "CHR '' '' # format_float (sm_value s)"
  have row: "sample_row s = sm_name s @ CHR ''{'' # (?j @ CHR ''}'' # ?v)"
    using False by (simp add: sample_row_def labelSet_def)
  have "length (sm_labels s) \<le> length (?j @ CHR ''}'' # ?v)" using length_join_parts [of "sm_labels s"] by simp
  from read_labels_join [OF False _ this, of ?v] assms
  have "read_labels (length (?j @ CHR ''}'' # ?v)) (?j @ CHR ''}'' # ?v) = Some (sm_labels s, ?v)"
    by (simp add: sample_ok_def)
  with takeWhile_name [of "sm_name s" "CHR ''{''" "?j @ CHR ''}'' # ?v"] assms show ?thesis
    by (simp add: read_sample_def row sample_ok_def)
qed


section \<open>The lines of an exposition\<close>

definition header_lines :: "family \<Rightarrow> string list" where
  "header_lines f =
     [''# HELP '' @ fm_name f @ '' '' @ fm_help f, ''# TYPE '' @ fm_name f @ '' '' @ fm_type f]"

lemma with_newlines_append: "with_newlines (a @ b) = with_newlines a @ with_newlines b"
  by (simp add: with_newlines_def)

lemma sample_lines: "concat (map sample_line ss) = with_newlines (map sample_row ss)"
  by (induction ss) (simp_all add: with_newlines_def sample_line_def sample_row_def)

lemma family_header_lines: "family_header f = with_newlines (header_lines f)"
  by (simp add: family_header_def header_lines_def with_newlines_def)

lemma by_sample_name_get:
  "mget (by_sample_name ss m) n [] = mget m n [] @ filter (\<lambda>s. sm_name s = n) ss"
  by (induction ss m rule: by_sample_name.induct) auto

lemma write_families_lines:
  "distinct (map fm_name fs) \<Longrightarrow>
   write_families srt fs m =
     with_newlines (concat (map (\<lambda>f. header_lines f @ map sample_row (srt (mget m (fm_name f) []))) fs))"
proof (induction srt fs m rule: write_families.induct)
  case (2 srt f fs m)
  let ?grp = "srt (mget m (fm_name f) [])"
  have same: "map (\<lambda>g. header_lines g @ map sample_row (srt (mget (mput (fm_name f) ?grp m) (fm_name g) []))) fs =
      map (\<lambda>g. header_lines g @ map sample_row (srt (mget m (fm_name g) []))) fs"
    using "2.prems" by (intro map_cong refl) (auto simp: image_iff)
  have ih: "write_families srt fs (mput (fm_name f) ?grp m) =
      with_newlines (concat (map (\<lambda>g. header_lines g @ map sample_row (srt (mget m (fm_name g) []))) fs))"
    unfolding same [symmetric] by (rule "2.IH" [OF refl]) (use "2.prems" in simp)
  show ?case
    by (simp only: write_families.simps Let_def ih sample_lines family_header_lines list.map concat.simps
        with_newlines_append append_assoc)
qed (simp add: with_newlines_def)

lemma labelSet_no_newline:
  assumes "\<forall>l \<in> set ls. plain_name (lb_name l)"
  shows "CHR 0x0A \<notin> set (labelSet ls)"
proof -
  have "CHR 0x0A \<notin> set (label_part l)" if "l \<in> set ls" for l
    using assms that plain_name_notin escape_no_newline by (simp add: label_part_def)
  then have "CHR 0x0A \<notin> \<Union> (set ` set (map label_part ls))" by auto
  then show ?thesis using join_set [of "'',''" "map label_part ls"] by (auto simp: labelSet_def)
qed

lemma sample_row_no_newline: "sample_ok s \<Longrightarrow> CHR 0x0A \<notin> set (sample_row s)"
  using format_float_chars [of "sm_value s"] plain_name_notin [of "sm_name s" "CHR 0x0A"] labelSet_no_newline
  by (auto simp: sample_row_def sample_ok_def list_all_iff)

lemma sample_row_not_comment: "sample_ok s \<Longrightarrow> \<not> is_comment (sample_row s)"
  by (cases "sm_name s") (auto simp: is_comment_def sample_row_def sample_ok_def plain_name_def)

lemma header_lines_comment: "filter (\<lambda>l. \<not> is_comment l) (header_lines f) = []"
  by (simp add: header_lines_def is_comment_def)

lemma filter_rows:
  "\<forall>s \<in> set ss. sample_ok s \<Longrightarrow> filter (\<lambda>l. \<not> is_comment l) (map sample_row ss) = map sample_row ss"
  by (simp add: filter_id_conv sample_row_not_comment)

lemma read_groups:
  assumes "\<And>f. f \<in> set fs \<Longrightarrow> \<forall>s \<in> set (g f). sample_ok s"
  shows "map read_sample (filter (\<lambda>l. \<not> is_comment l) (concat (map (\<lambda>f. header_lines f @ map sample_row (g f)) fs)))
    = map (\<lambda>s. Some (sm_name s, sm_labels s, format_float (sm_value s))) (concat (map g fs))"
  using assms
proof (induction fs)
  case (Cons f fs)
  from Cons.prems [of f] have f: "\<forall>s \<in> set (g f). sample_ok s" by simp
  then have "map read_sample (map sample_row (g f)) =
      map (\<lambda>s. Some (sm_name s, sm_labels s, format_float (sm_value s))) (g f)"
    by (simp add: read_sample_row)
  moreover have "map read_sample (filter (\<lambda>l. \<not> is_comment l) (concat (map (\<lambda>f. header_lines f @ map sample_row (g f)) fs)))
      = map (\<lambda>s. Some (sm_name s, sm_labels s, format_float (sm_value s))) (concat (map g fs))"
    by (rule Cons.IH) (rule Cons.prems, simp)
  ultimately show ?case using f by (simp add: header_lines_comment filter_rows del: map_map map_concat)
qed simp

lemma mset_groups:
  assumes "sorts_by key srt" and "distinct (map fm_name fs)"
  shows "mset (concat (map (\<lambda>f. srt (filter (\<lambda>s. sm_name s = fm_name f) ss)) fs))
    = filter_mset (\<lambda>s. sm_name s \<in> fm_name ` set fs) (mset ss)"
  using assms(2)
proof (induction fs)
  case (Cons f fs)
  have "filter_mset (\<lambda>s. sm_name s = fm_name f \<or> sm_name s \<in> fm_name ` set fs) (mset ss) =
      filter_mset (\<lambda>s. sm_name s = fm_name f) (mset ss) + filter_mset (\<lambda>s. sm_name s \<in> fm_name ` set fs) (mset ss)"
    using Cons.prems by (intro multiset_eqI) auto
  with Cons assms(1) show ?case by (simp add: sorts_by_def)
qed simp

text \<open>A scraper that reads what \<open>Write\<close> writes gets back, family by family and within a family sorted by label set,
  every sample of a listed family exactly once with its name, its labels and their values whatever bytes these hold, and no
  sample of any other family.\<close>

theorem exposition_read:
  assumes "sorts_by sample_key srt" and "distinct (map fm_name families)"
    and "\<forall>f \<in> set families. family_ok f" and "\<forall>s \<in> set samples. sample_ok s"
  shows "\<exists>groups. map fst groups = map fm_name families \<and>
    read_exposition (write_metrics srt families samples) =
      map (\<lambda>s. Some (sm_name s, sm_labels s, format_float (sm_value s))) (concat (map snd groups)) \<and>
    (\<forall>(n, g) \<in> set groups. sorted (map sample_key g) \<and> (\<forall>s \<in> set g. sm_name s = n)) \<and>
    mset (concat (map snd groups)) = filter_mset (\<lambda>s. sm_name s \<in> fm_name ` set families) (mset samples)"
proof -
  let ?g = "\<lambda>f. srt (filter (\<lambda>s. sm_name s = fm_name f) samples)"
  let ?lines = "concat (map (\<lambda>f. header_lines f @ map sample_row (?g f)) families)"
  have written: "write_metrics srt families samples = with_newlines ?lines"
    by (simp only: write_metrics_def write_families_lines [OF assms(2)] by_sample_name_get)
      (simp add: mget_def)
  have mem: "\<forall>s \<in> set (?g f). sample_ok s" for f :: family
    using assms(4) sorts_by_set [OF assms(1)] by auto
  have "\<forall>l \<in> set ?lines. CHR 0x0A \<notin> set l"
    using assms(3) mem sample_row_no_newline by (auto simp: header_lines_def family_ok_def)
  from split_with_newlines [OF this]
  have rd: "read_exposition (write_metrics srt families samples) =
      map (\<lambda>s. Some (sm_name s, sm_labels s, format_float (sm_value s))) (concat (map ?g families))"
    using read_groups [of families ?g, OF mem] by (simp add: read_exposition_def written is_comment_def)
  have srt: "sorted (map sample_key (?g f)) \<and> (\<forall>s \<in> set (?g f). sm_name s = fm_name f)" for f :: family
    using assms(1) sorts_by_set [OF assms(1)] by (simp add: sorts_by_def)
  let ?gs = "map (\<lambda>f. (fm_name f, ?g f)) families"
  define ok where "ok n g \<longleftrightarrow> sorted (map sample_key g) \<and> (\<forall>s \<in> set g. sm_name s = n)" for n g
  have "ok (fm_name f) (?g f)" for f :: family unfolding ok_def by (rule srt)
  then have oks: "\<forall>(n, g) \<in> set ?gs. ok n g" by simp
  have fsts: "map fst ?gs = map fm_name families" and snds: "map snd ?gs = map ?g families" by (simp_all add: comp_def)
  show ?thesis
    by (rule exI [of _ ?gs], intro conjI, rule fsts, simp only: snds rd, rule oks [unfolded ok_def],
        simp only: snds mset_groups [OF assms(1,2)])
qed

end
