(* ===== verification/Daemon_Status.thy ===== *)
theory Daemon_Status
  imports Daemon Tunnel Metrics
begin

text \<open>
  What the daemon reports: \<open>Status\<close> of \<open>internal/daemon/daemon.go\<close> and \<open>Metrics\<close> of
  \<open>internal/daemon/metrics.go\<close>, with the clock reading \<open>now\<close> and the reports \<open>peers\<close> of the devices (by interface
  name, \<open>device_peers\<close>) as arguments. Both walk Go maps, whose order is that of the association lists.
\<close>

type_synonym 'x peer_reports = "string \<Rightarrow> 'x + peer_status list"

definition ActiveWindow :: int where "ActiveWindow = 3 * 60 * second"

definition downstreamHandshakes :: "'x peer_reports \<Rightarrow> 'e daemon \<Rightarrow> (key \<times> gotime) list" where
  "downstreamHandshakes peers d =
     (if \<not> d_down d then []
      else case peers DownstreamInterface of
             Inl e \<Rightarrow> []
           | Inr ps \<Rightarrow> foldl (\<lambda>out p. mput (ps_public p) (ps_handshake p) out) [] ps)"

definition handshaken :: "gotime \<Rightarrow> gotime \<Rightarrow> bool" where
  "handshaken now t \<longleftrightarrow> sint (time_sub now t) < ActiveWindow"

section \<open>Status\<close>

record upstream_status =
  us_name :: string
  us_interface :: string
  us_state :: health_state
  us_latency :: int
  us_handshake :: gotime
  us_routed :: nat
  us_active :: nat

record client_status =
  cs_user :: string
  cs_device :: string
  cs_profile :: string
  cs_upstream :: string
  cs_handshake :: gotime

record daemon_status =
  st_upstreams :: "upstream_status list"
  st_peers :: "client_status list"

definition client_status_of :: "(key \<times> gotime) list \<Rightarrow> 'e daemon \<Rightarrow> key \<times> store_peer \<Rightarrow> client_status" where
  "client_status_of handshakes d kp =
     (let (key, p) = kp
      in \<lparr>cs_user = sp_user p, cs_device = sp_device p, cs_profile = sp_profile p,
          cs_upstream = mget (d_assignments d) (sp_ip p) [], cs_handshake = mget handshakes key zero_time\<rparr>)"

definition incr :: "string \<Rightarrow> (string \<times> nat) list \<Rightarrow> (string \<times> nat) list" where
  "incr n m = mput n (mget m n 0 + 1) m"

text \<open>The loop over the device peers: the statuses so far and the counts by upstream.\<close>

fun status_loop ::
  "gotime \<Rightarrow> (key \<times> gotime) list \<Rightarrow> 'e daemon \<Rightarrow> (key \<times> store_peer) list \<Rightarrow>
   client_status list \<times> (string \<times> nat) list \<times> (string \<times> nat) list \<Rightarrow>
   client_status list \<times> (string \<times> nat) list \<times> (string \<times> nat) list" where
  "status_loop now handshakes d [] acc = acc"
| "status_loop now handshakes d (kp # kps) (peers, routed, active) =
     (let ps = client_status_of handshakes d kp
      in if cs_upstream ps = [] then status_loop now handshakes d kps (peers @ [ps], routed, active)
         else status_loop now handshakes d kps
                (peers @ [ps], incr (cs_upstream ps) routed,
                 if handshaken now (cs_handshake ps) then incr (cs_upstream ps) active else active))"

definition client_key :: "client_status \<Rightarrow> string \<times> string \<times> string" where
  "client_key c = (cs_user c, cs_device c, cs_profile c)"

definition upstream_status_of ::
  "'x peer_reports \<Rightarrow> (string \<times> nat) list \<Rightarrow> (string \<times> nat) list \<Rightarrow> upstream \<Rightarrow> upstream_status" where
  "upstream_status_of peers routed active u =
     \<lparr>us_name = up_name u, us_interface = device_name u, us_state = t_state (up_tracker u),
      us_latency = t_latency (up_tracker u),
      us_handshake = (case peers (device_name u) of Inr [p] \<Rightarrow> ps_handshake p | _ \<Rightarrow> zero_time),
      us_routed = mget routed (up_name u) 0, us_active = mget active (up_name u) 0\<rparr>"

definition daemon_status ::
  "(client_status list \<Rightarrow> client_status list) \<Rightarrow> gotime \<Rightarrow> 'x peer_reports \<Rightarrow> 'e daemon \<Rightarrow> daemon_status" where
  "daemon_status srt now peers d =
     (let (ps, routed, active) = status_loop now (downstreamHandshakes peers d) d (d_devicePeers d) ([], [], [])
      in \<lparr>st_upstreams = map (upstream_status_of peers routed active) (d_ups d), st_peers = srt ps\<rparr>)"

section \<open>Metrics\<close>

definition fam :: "string \<Rightarrow> string \<Rightarrow> string \<Rightarrow> family" where
  "fam n t h = \<lparr>fm_name = n, fm_type = t, fm_help = h\<rparr>"

definition Families :: "family list" where
  "Families =
     [fam ''lotsman_build_info'' ''gauge'' ''Build version; always 1.'',
      fam ''lotsman_client_mtu'' ''gauge'' ''MTU written into client configs.'',
      fam ''lotsman_upstream_up'' ''gauge'' ''1 while the upstream passes its health probes.'',
      fam ''lotsman_upstream_probe_latency_seconds'' ''gauge'' ''Latency of the last successful probe.'',
      fam ''lotsman_upstream_probes_total'' ''counter'' ''Probes by result.'',
      fam ''lotsman_upstream_last_handshake_timestamp_seconds'' ''gauge''
        ''Unix time of the last handshake with the provider; 0 if none yet.'',
      fam ''lotsman_upstream_clients'' ''gauge'' ''Clients whose traffic is routed through the upstream, connected or not.'',
      fam ''lotsman_upstream_active_clients'' ''gauge'' ''Routed clients with a handshake in the last 3 minutes.'',
      fam ''lotsman_upstream_receive_bytes_total'' ''counter'' ''Bytes received from the provider.'',
      fam ''lotsman_upstream_transmit_bytes_total'' ''counter'' ''Bytes sent to the provider.'',
      fam ''lotsman_peer_receive_bytes_total'' ''counter'' ''Bytes received from the client.'',
      fam ''lotsman_peer_transmit_bytes_total'' ''counter'' ''Bytes sent to the client.'',
      fam ''lotsman_peer_last_handshake_timestamp_seconds'' ''gauge''
        (''Unix time of the client'' @ [CHR 0x27] @ ''s last handshake; 0 if none yet.''),
      fam ''lotsman_peer_upstream'' ''gauge'' ''1 for the upstream the client is routed through.'',
      fam ''lotsman_reroutes_total'' ''counter'' ''Times a client was routed to the upstream, including the first time.'',
      fam ''lotsman_reloads_total'' ''counter'' ''Configuration reloads by result.'']"

definition mk_sample :: "string \<Rightarrow> float64 \<Rightarrow> label list \<Rightarrow> sample" where
  "mk_sample n v ls = \<lparr>sm_name = n, sm_labels = ls, sm_value = v\<rparr>"

definition mk_label :: "string \<Rightarrow> string \<Rightarrow> label" where
  "mk_label n v = \<lparr>lb_name = n, lb_value = v\<rparr>"

definition boolean :: "bool \<Rightarrow> float64" where
  "boolean b = (if b then 1 else 0)"

definition unixOrZero :: "gotime \<Rightarrow> float64" where
  "unixOrZero t = (if time_is_zero t then 0 else float_of_int (sint (unix_seconds t)))"

definition float_of_u64 :: "u64 \<Rightarrow> float64" where
  "float_of_u64 x = float_of_int (uint x)"

fun clients_loop ::
  "gotime \<Rightarrow> (key \<times> gotime) list \<Rightarrow> 'e daemon \<Rightarrow> (key \<times> store_peer) list \<Rightarrow>
   (string \<times> nat) list \<times> (string \<times> nat) list \<Rightarrow> (string \<times> nat) list \<times> (string \<times> nat) list" where
  "clients_loop now handshakes d [] acc = acc"
| "clients_loop now handshakes d ((key, p) # kps) (clients, active) =
     (case map_of (d_assignments d) (sp_ip p) of
        None \<Rightarrow> clients_loop now handshakes d kps (clients, active)
      | Some name \<Rightarrow>
          clients_loop now handshakes d kps
            (incr name clients, if handshaken now (mget handshakes key zero_time) then incr name active else active))"

definition upstream_samples ::
  "'x peer_reports \<Rightarrow> 'e daemon \<Rightarrow> (string \<times> nat) list \<Rightarrow> (string \<times> nat) list \<Rightarrow> upstream \<Rightarrow> sample list" where
  "upstream_samples peers d clients active u =
     (let up = mk_label ''upstream'' (up_name u)
      in [mk_sample ''lotsman_upstream_up'' (boolean (t_state (up_tracker u) = Up)) [up],
          mk_sample ''lotsman_upstream_probe_latency_seconds'' (duration_seconds (t_latency (up_tracker u))) [up],
          mk_sample ''lotsman_upstream_clients'' (float_of_int (int (mget clients (up_name u) 0))) [up],
          mk_sample ''lotsman_upstream_active_clients'' (float_of_int (int (mget active (up_name u) 0))) [up],
          mk_sample ''lotsman_reroutes_total'' (float_of_u64 (mget (d_reroutes d) (up_name u) 0)) [up]] @
         (case map_of (d_probes d) (up_name u) of
            None \<Rightarrow> []
          | Some (ok, fail) \<Rightarrow>
              [mk_sample ''lotsman_upstream_probes_total'' (float_of_u64 ok) [up, mk_label ''result'' ''ok''],
               mk_sample ''lotsman_upstream_probes_total'' (float_of_u64 fail) [up, mk_label ''result'' ''fail'']]) @
         (case peers (device_name u) of
            Inr [p] \<Rightarrow>
              [mk_sample ''lotsman_upstream_last_handshake_timestamp_seconds'' (unixOrZero (ps_handshake p)) [up],
               mk_sample ''lotsman_upstream_receive_bytes_total'' (float_of_u64 (ps_rx p)) [up],
               mk_sample ''lotsman_upstream_transmit_bytes_total'' (float_of_u64 (ps_tx p)) [up]]
          | _ \<Rightarrow> []))"

definition peer_samples ::
  "(key \<times> peer_status) list \<Rightarrow> 'e daemon \<Rightarrow> key \<times> store_peer \<Rightarrow> sample list" where
  "peer_samples status d kp =
     (let (key, p) = kp;
          labels = [mk_label ''user'' (sp_user p), mk_label ''device'' (sp_device p), mk_label ''profile'' (sp_profile p)]
      in (case map_of status key of
            None \<Rightarrow> []
          | Some st \<Rightarrow>
              [mk_sample ''lotsman_peer_receive_bytes_total'' (float_of_u64 (ps_rx st)) labels,
               mk_sample ''lotsman_peer_transmit_bytes_total'' (float_of_u64 (ps_tx st)) labels,
               mk_sample ''lotsman_peer_last_handshake_timestamp_seconds'' (unixOrZero (ps_handshake st)) labels]) @
         (case map_of (d_assignments d) (sp_ip p) of
            None \<Rightarrow> []
          | Some name \<Rightarrow> [mk_sample ''lotsman_peer_upstream'' 1 (labels @ [mk_label ''upstream'' name])]))"

definition global_samples :: "string \<Rightarrow> 'e daemon \<Rightarrow> sample list" where
  "global_samples version d =
     [mk_sample ''lotsman_build_info'' 1 [mk_label ''version'' version],
      mk_sample ''lotsman_client_mtu'' (float_of_int (daemon_mtu d)) [],
      mk_sample ''lotsman_reloads_total'' (float_of_u64 (fst (d_reloads d))) [mk_label ''result'' ''ok''],
      mk_sample ''lotsman_reloads_total'' (float_of_u64 (snd (d_reloads d))) [mk_label ''result'' ''error'']]"

definition device_status :: "'x peer_reports \<Rightarrow> (key \<times> peer_status) list" where
  "device_status peers =
     (case peers DownstreamInterface of Inl e \<Rightarrow> [] | Inr ps \<Rightarrow> foldl (\<lambda>m p. mput (ps_public p) p m) [] ps)"

definition daemon_metrics :: "string \<Rightarrow> gotime \<Rightarrow> 'x peer_reports \<Rightarrow> 'e daemon \<Rightarrow> sample list" where
  "daemon_metrics version now peers d =
     (let (clients, active) = clients_loop now (downstreamHandshakes peers d) d (d_devicePeers d) ([], []);
          out = global_samples version d @ concat (map (upstream_samples peers d clients active) (d_ups d))
      in if \<not> d_down d then out else out @ concat (map (peer_samples (device_status peers) d) (d_devicePeers d)))"

text \<open>The texts the daemon sends to its downstream device are those of \<open>AddPeer\<close> and \<open>RemovePeer\<close>.\<close>

lemma device_texts:
  "RemovePeer lib dev pub w = Configure lib dev (remove_peer_text pub) w"
  "AddPeer lib dev (device_peer p) w = Configure lib dev (peer_uapi (device_peer p)) w"
  by (simp_all add: RemovePeer_def AddPeer_def remove_peer_text_def uapi_line_def)

section \<open>The counts by upstream\<close>

definition routed_to :: "'e daemon \<Rightarrow> string \<Rightarrow> key \<times> store_peer \<Rightarrow> bool" where
  "routed_to d n kp \<longleftrightarrow> map_of (d_assignments d) (sp_ip (snd kp)) = Some n"

definition active_peer :: "gotime \<Rightarrow> (key \<times> gotime) list \<Rightarrow> key \<times> store_peer \<Rightarrow> bool" where
  "active_peer now handshakes kp \<longleftrightarrow> handshaken now (mget handshakes (fst kp) zero_time)"

lemma mget_incr [simp]: "mget (incr n m) k 0 = mget m k 0 + (if k = n then 1 else 0)"
  by (simp add: incr_def)

lemma clients_loop_counts:
  "mget (fst (clients_loop now hs d kps (c, a))) n 0 = mget c n 0 + length (filter (routed_to d n) kps)"
  "mget (snd (clients_loop now hs d kps (c, a))) n 0
     = mget a n 0 + length (filter (\<lambda>kp. routed_to d n kp \<and> active_peer now hs kp) kps)"
  by (induction kps arbitrary: c a) (auto simp: routed_to_def active_peer_def split: option.splits)

lemma upstream_of_client:
  assumes "[] \<notin> snd ` set (d_assignments d)"
  shows "cs_upstream (client_status_of hs d kp) = n \<and> n \<noteq> [] \<longleftrightarrow> routed_to d n kp"
proof -
  have "map_of (d_assignments d) ip \<noteq> Some []" for ip
    using assms map_of_SomeD by (metis image_eqI snd_conv)
  then show ?thesis
    by (auto simp: client_status_of_def routed_to_def mget_def split: option.splits prod.splits)
qed

lemma handshake_of_client: "handshaken now (cs_handshake (client_status_of hs d kp)) = active_peer now hs kp"
  by (simp add: client_status_of_def active_peer_def split: prod.splits)

lemma status_loop_counts:
  assumes "[] \<notin> snd ` set (d_assignments d)"
  shows "fst (status_loop now hs d kps (ps, r, a)) = ps @ map (client_status_of hs d) kps"
    and "mget (fst (snd (status_loop now hs d kps (ps, r, a)))) n 0 = mget r n 0 + length (filter (routed_to d n) kps)"
    and "mget (snd (snd (status_loop now hs d kps (ps, r, a)))) n 0
      = mget a n 0 + length (filter (\<lambda>kp. routed_to d n kp \<and> active_peer now hs kp) kps)"
proof (induction kps arbitrary: ps r a)
  case (Cons kp kps)
  note up = upstream_of_client [OF assms, of hs kp] and hs = handshake_of_client [of now hs d kp]
  {
    case 1
    then show ?case by (simp add: Let_def Cons)
  next
    case 2
    then show ?case using up [of n] up [of "cs_upstream (client_status_of hs d kp)"]
      by (auto simp: Let_def Cons)
  next
    case 3
    then show ?case using up [of n] up [of "cs_upstream (client_status_of hs d kp)"]
      by (auto simp: Let_def Cons hs)
  }
qed simp_all

definition count_routed :: "'e daemon \<Rightarrow> string \<Rightarrow> nat" where
  "count_routed d n = length (filter (routed_to d n) (d_devicePeers d))"

definition count_active :: "gotime \<Rightarrow> 'x peer_reports \<Rightarrow> 'e daemon \<Rightarrow> string \<Rightarrow> nat" where
  "count_active now peers d n =
     length (filter (\<lambda>kp. routed_to d n kp \<and> active_peer now (downstreamHandshakes peers d) kp) (d_devicePeers d))"


definition named :: "string \<Rightarrow> sample list \<Rightarrow> sample list" where
  "named n ss = filter (\<lambda>s. sm_name s = n) ss"

lemma named_append [simp]: "named n (ss @ ts) = named n ss @ named n ts"
  by (simp add: named_def)

lemma named_concat: "named n (concat (map f xs)) = concat (map (\<lambda>x. named n (f x)) xs)"
  by (induction xs) (simp_all add: named_def)

lemma named_mk [simp]:
  "named n [] = []" "named n (mk_sample m v ls # ss) = (if m = n then [mk_sample m v ls] else []) @ named n ss"
  by (simp_all add: named_def mk_sample_def)

lemma named_upstream:
  "named ''lotsman_upstream_clients'' (upstream_samples peers d c a u) =
     [mk_sample ''lotsman_upstream_clients'' (float_of_int (int (mget c (up_name u) 0))) [mk_label ''upstream'' (up_name u)]]"
  "named ''lotsman_upstream_active_clients'' (upstream_samples peers d c a u) =
     [mk_sample ''lotsman_upstream_active_clients'' (float_of_int (int (mget a (up_name u) 0))) [mk_label ''upstream'' (up_name u)]]"
  by (auto simp: upstream_samples_def Let_def split: option.splits sum.splits list.splits)

lemma named_peer:
  "named ''lotsman_upstream_clients'' (peer_samples status d kp) = []"
  "named ''lotsman_upstream_active_clients'' (peer_samples status d kp) = []"
  by (auto simp: peer_samples_def Let_def split: option.splits prod.splits)

lemma named_global:
  "named ''lotsman_upstream_clients'' (global_samples version d) = []"
  "named ''lotsman_upstream_active_clients'' (global_samples version d) = []"
  by (simp_all add: global_samples_def)

lemma daemon_metrics_parts:
  assumes "clients_loop now (downstreamHandshakes peers d) d (d_devicePeers d) ([], []) = (c, a)"
  shows "daemon_metrics version now peers d =
    global_samples version d @ concat (map (upstream_samples peers d c a) (d_ups d)) @
    concat (map (peer_samples (device_status peers) d) (if d_down d then d_devicePeers d else []))"
  using assms by (simp add: daemon_metrics_def)

text \<open>C35. The status file and the metrics tell the same story: for every upstream, \<open>Routed\<close> and the clients gauge are the number
  of device peers assigned to it, \<open>Active\<close> and the active gauge the number of those whose last handshake is within the
  window; the peers of the status are all device peers, sorted by user, device and profile.\<close>

theorem status_agrees:
  assumes "[] \<notin> snd ` set (d_assignments d)" and "sorts_by client_key srt"
  shows "map (\<lambda>u. (us_name u, us_routed u, us_active u)) (st_upstreams (daemon_status srt now peers d))
      = map (\<lambda>u. (up_name u, count_routed d (up_name u), count_active now peers d (up_name u))) (d_ups d) \<and>
    named ''lotsman_upstream_clients'' (daemon_metrics version now peers d)
      = map (\<lambda>u. mk_sample ''lotsman_upstream_clients'' (float_of_int (int (count_routed d (up_name u))))
               [mk_label ''upstream'' (up_name u)]) (d_ups d) \<and>
    named ''lotsman_upstream_active_clients'' (daemon_metrics version now peers d)
      = map (\<lambda>u. mk_sample ''lotsman_upstream_active_clients'' (float_of_int (int (count_active now peers d (up_name u))))
               [mk_label ''upstream'' (up_name u)]) (d_ups d) \<and>
    mset (st_peers (daemon_status srt now peers d))
      = mset (map (client_status_of (downstreamHandshakes peers d) d) (d_devicePeers d)) \<and>
    sorted (map client_key (st_peers (daemon_status srt now peers d)))"
proof -
  let ?hs = "downstreamHandshakes peers d"
  obtain ps r a where st: "status_loop now ?hs d (d_devicePeers d) ([], [], []) = (ps, r, a)" by (metis prod.exhaust)
  note counts = status_loop_counts [OF assms(1), of now ?hs "d_devicePeers d" "[]" "[]" "[]", unfolded st]
  obtain c b where cl: "clients_loop now ?hs d (d_devicePeers d) ([], []) = (c, b)" by fastforce
  note loop = clients_loop_counts [of now ?hs d "d_devicePeers d" "[]" "[]", unfolded cl]
  show ?thesis
    using counts loop assms(2)
    by (simp add: daemon_status_def st upstream_status_of_def count_routed_def count_active_def
        daemon_metrics_parts [OF cl] named_concat named_upstream named_peer named_global mget_def [of "[]"] sorts_by_def)
qed


section \<open>The schema of the metrics\<close>

text \<open>The labels each family has, by name.\<close>

definition label_schema :: "(string \<times> string list) list" where
  "label_schema =
     [(''lotsman_build_info'', [''version'']),
      (''lotsman_client_mtu'', []),
      (''lotsman_upstream_up'', [''upstream'']),
      (''lotsman_upstream_probe_latency_seconds'', [''upstream'']),
      (''lotsman_upstream_probes_total'', [''upstream'', ''result'']),
      (''lotsman_upstream_last_handshake_timestamp_seconds'', [''upstream'']),
      (''lotsman_upstream_clients'', [''upstream'']),
      (''lotsman_upstream_active_clients'', [''upstream'']),
      (''lotsman_upstream_receive_bytes_total'', [''upstream'']),
      (''lotsman_upstream_transmit_bytes_total'', [''upstream'']),
      (''lotsman_peer_receive_bytes_total'', [''user'', ''device'', ''profile'']),
      (''lotsman_peer_transmit_bytes_total'', [''user'', ''device'', ''profile'']),
      (''lotsman_peer_last_handshake_timestamp_seconds'', [''user'', ''device'', ''profile'']),
      (''lotsman_peer_upstream'', [''user'', ''device'', ''profile'', ''upstream'']),
      (''lotsman_reroutes_total'', [''upstream'']),
      (''lotsman_reloads_total'', [''result''])]"

definition counters :: "string list" where
  "counters = map fm_name (filter (\<lambda>f. fm_type f = ''counter'') Families)"

definition sample_typed :: "sample \<Rightarrow> bool" where
  "sample_typed s \<longleftrightarrow>
     map_of label_schema (sm_name s) = Some (map lb_name (sm_labels s)) \<and> sample_ok s \<and>
     (sm_name s \<in> set counters \<longrightarrow> 0 \<le> sm_value s)"

lemma schema_families: "map fst label_schema = map fm_name Families"
  by code_simp

lemma families_distinct: "distinct (map fm_name Families)"
  by code_simp

lemma families_ok: "list_all family_ok Families"
  by code_simp

lemma letters: "list_all name_char ''_abcdefghijklmnopqrstuvwxyz''"
  by code_simp

lemma schema_plain: "list_all (\<lambda>(n, ls). plain_name n \<and> list_all plain_name ls) label_schema"
  using letters by (simp add: label_schema_def plain_name_def)

lemma schema_plainD:
  assumes "map_of label_schema n = Some ls"
  shows "plain_name n" and "list_all plain_name ls"
  using map_of_SomeD [OF assms] schema_plain by (auto simp: list_all_iff)

lemma round_pos_nonneg:
  assumes "0 < x"
  shows "0 \<le> round_pos x"
proof -
  have p: "0 < pow_int 2 (binary_exponent x)" by (simp add: pow_int_def)
  then have "0 \<le> x / pow_int 2 (binary_exponent x)" using assms by simp
  then have "0 \<le> round_half_even (x / pow_int 2 (binary_exponent x))"
    by (simp add: round_half_even_def Let_def)
  with p show ?thesis by (simp add: round_pos_def Let_def)
qed

lemma float_of_int_nonneg: "0 \<le> i \<Longrightarrow> 0 \<le> float_of_int i"
  using round_pos_nonneg [of "rat_of_int i"] by (simp add: float_of_int_def round64_def)

lemma float_of_u64_nonneg [simp]: "0 \<le> float_of_u64 x"
  unfolding float_of_u64_def by (rule float_of_int_nonneg) simp

lemma counter_typed:
  assumes "map_of label_schema n = Some (map lb_name ls)" and "0 \<le> v"
  shows "sample_typed (mk_sample n v ls)"
  using assms schema_plainD [OF assms(1)] by (simp add: sample_typed_def sample_ok_def mk_sample_def list_all_iff)

lemma gauge_typed:
  assumes "map_of label_schema n = Some (map lb_name ls)" and "n \<notin> set counters"
  shows "sample_typed (mk_sample n v ls)"
  using assms schema_plainD [OF assms(1)] by (simp add: sample_typed_def sample_ok_def mk_sample_def list_all_iff)

lemma counters_eq: "counters = [''lotsman_upstream_probes_total'', ''lotsman_upstream_receive_bytes_total'',
    ''lotsman_upstream_transmit_bytes_total'', ''lotsman_peer_receive_bytes_total'', ''lotsman_peer_transmit_bytes_total'',
    ''lotsman_reroutes_total'', ''lotsman_reloads_total'']"
  by code_simp

lemma lb_name_mk [simp]: "lb_name (mk_label n v) = n"
  by (simp add: mk_label_def)

text \<open>The samples by name, each with its own labels.\<close>

lemma typed_samples [simp]:
  "lb_name a = ''version'' \<Longrightarrow> sample_typed (mk_sample ''lotsman_build_info'' v [a])"
  "sample_typed (mk_sample ''lotsman_client_mtu'' v [])"
  "lb_name r = ''result'' \<Longrightarrow> 0 \<le> v \<Longrightarrow> sample_typed (mk_sample ''lotsman_reloads_total'' v [r])"
  "lb_name u = ''upstream'' \<Longrightarrow> sample_typed (mk_sample ''lotsman_upstream_up'' v [u])"
  "lb_name u = ''upstream'' \<Longrightarrow> sample_typed (mk_sample ''lotsman_upstream_probe_latency_seconds'' v [u])"
  "lb_name u = ''upstream'' \<Longrightarrow> sample_typed (mk_sample ''lotsman_upstream_clients'' v [u])"
  "lb_name u = ''upstream'' \<Longrightarrow> sample_typed (mk_sample ''lotsman_upstream_active_clients'' v [u])"
  "lb_name u = ''upstream'' \<Longrightarrow> 0 \<le> v \<Longrightarrow> sample_typed (mk_sample ''lotsman_reroutes_total'' v [u])"
  "lb_name u = ''upstream'' \<Longrightarrow> lb_name r = ''result'' \<Longrightarrow> 0 \<le> v \<Longrightarrow>
     sample_typed (mk_sample ''lotsman_upstream_probes_total'' v [u, r])"
  "lb_name u = ''upstream'' \<Longrightarrow> sample_typed (mk_sample ''lotsman_upstream_last_handshake_timestamp_seconds'' v [u])"
  "lb_name u = ''upstream'' \<Longrightarrow> 0 \<le> v \<Longrightarrow> sample_typed (mk_sample ''lotsman_upstream_receive_bytes_total'' v [u])"
  "lb_name u = ''upstream'' \<Longrightarrow> 0 \<le> v \<Longrightarrow> sample_typed (mk_sample ''lotsman_upstream_transmit_bytes_total'' v [u])"
  by (simp_all add: gauge_typed counter_typed label_schema_def counters_eq)

lemma typed_peer_samples:
  assumes "map lb_name ls = [''user'', ''device'', ''profile'']"
  shows "0 \<le> v \<Longrightarrow> sample_typed (mk_sample ''lotsman_peer_receive_bytes_total'' v ls)"
    and "0 \<le> v \<Longrightarrow> sample_typed (mk_sample ''lotsman_peer_transmit_bytes_total'' v ls)"
    and "sample_typed (mk_sample ''lotsman_peer_last_handshake_timestamp_seconds'' v ls)"
    and "lb_name u = ''upstream'' \<Longrightarrow> sample_typed (mk_sample ''lotsman_peer_upstream'' v (ls @ [u]))"
  using assms by (simp_all add: gauge_typed counter_typed label_schema_def counters_eq)

lemma global_typed: "list_all sample_typed (global_samples version d)"
  by (simp add: global_samples_def)

lemma upstream_typed: "list_all sample_typed (upstream_samples peers d c a u)"
  by (auto simp: upstream_samples_def Let_def split: option.splits sum.splits list.splits)

lemma peer_typed: "list_all sample_typed (peer_samples status d (key, p))"
proof -
  define ls where "ls = [mk_label ''user'' (sp_user p), mk_label ''device'' (sp_device p), mk_label ''profile'' (sp_profile p)]"
  have "map lb_name ls = [''user'', ''device'', ''profile'']" by (simp add: ls_def)
  note ts = typed_peer_samples [OF this]
  show ?thesis
    unfolding peer_samples_def Let_def prod.case ls_def [symmetric]
    by (simp add: ts split: option.splits)
qed

lemma list_all_concat_map: "(\<And>x. list_all P (f x)) \<Longrightarrow> list_all P (concat (map f xs))"
  by (induction xs) auto

lemma daemon_metrics_typed: "list_all sample_typed (daemon_metrics version now peers d)"
proof -
  obtain c a where cl: "clients_loop now (downstreamHandshakes peers d) d (d_devicePeers d) ([], []) = (c, a)" by fastforce
  have "list_all sample_typed (peer_samples (device_status peers) d kp)" for kp
    by (cases kp) (simp add: peer_typed)
  then show ?thesis
    by (simp add: daemon_metrics_parts [OF cl] global_typed list_all_concat_map upstream_typed)
qed

text \<open>C40. The metrics are typed: the families are declared once each, and every sample of every snapshot belongs to a declared
  family, carries exactly the labels of that family in their order, has well-formed names, and is not negative if its family
  is a counter.\<close>

theorem metrics_typed:
  "map fst label_schema = map fm_name Families \<and> distinct (map fm_name Families) \<and> list_all family_ok Families \<and>
   list_all sample_typed (daemon_metrics version now peers d)"
  by (simp add: schema_families families_distinct families_ok daemon_metrics_typed)


section \<open>A scrape\<close>

definition series :: "sample \<Rightarrow> string \<times> label list" where
  "series s = (sm_name s, sm_labels s)"

lemma series_mk [simp]: "series (mk_sample n v ls) = (n, ls)"
  by (simp add: series_def mk_sample_def)

lemma mk_label_inject [simp]: "mk_label n v = mk_label m w \<longleftrightarrow> n = m \<and> v = w"
  by (simp add: mk_label_def)

text \<open>The name of a series tells which part of the snapshot it is from, and a tag of its labels tells the upstream or peer.\<close>

definition peer_families :: "string list" where
  "peer_families = [''lotsman_peer_receive_bytes_total'', ''lotsman_peer_transmit_bytes_total'',
     ''lotsman_peer_last_handshake_timestamp_seconds'', ''lotsman_peer_upstream'']"

definition global_families :: "string list" where
  "global_families = [''lotsman_build_info'', ''lotsman_client_mtu'', ''lotsman_reloads_total'']"

lemma distinct_concat_tag:
  assumes "distinct (map key xs)" and "\<And>x. distinct (map series (f x))"
    and "\<And>x sr. sr \<in> series ` set (f x) \<Longrightarrow> tag sr = key x"
  shows "distinct (map series (concat (map f xs)))"
  using assms(1)
proof (induction xs)
  case (Cons x xs)
  have "tag sr \<noteq> key x" if "sr \<in> series ` set (concat (map f xs))" for sr
  proof -
    from that obtain y where y: "y \<in> set xs" and "sr \<in> series ` set (f y)" by auto
    then have "tag sr = key y" using assms(3) by blast
    moreover have "key y \<noteq> key x" using Cons.prems imageI [OF y, of key] by auto
    ultimately show ?thesis by simp
  qed
  with assms(3) [of _ x] have "series ` set (f x) \<inter> series ` set (concat (map f xs)) = {}" by blast
  with Cons assms(2) show ?case by simp
qed simp

lemma distinct_parts:
  assumes "distinct (map g as)" and "distinct (map g bs)" and "distinct (map g cs)"
    and "g ` set as \<inter> g ` set (bs @ cs) = {}" and "g ` set bs \<inter> g ` set cs = {}"
  shows "distinct (map g (as @ bs @ cs))"
  using assms by (simp add: image_Un)

lemma global_series:
  "distinct (map series (global_samples version d))"
  "sr \<in> series ` set (global_samples version d) \<Longrightarrow> fst sr \<in> set global_families"
  by (auto simp: global_samples_def global_families_def)

lemma upstream_series:
  "distinct (map series (upstream_samples peers d c a u))"
  "sr \<in> series ` set (upstream_samples peers d c a u) \<Longrightarrow>
     fst sr \<notin> set global_families \<and> fst sr \<notin> set peer_families \<and> lb_value (hd (snd sr)) = up_name u"
  by (auto simp: upstream_samples_def Let_def global_families_def peer_families_def mk_label_def
      split: option.splits sum.splits list.splits)

definition peer_tag :: "string \<times> label list \<Rightarrow> string list" where
  "peer_tag sr = map lb_value (take 3 (snd sr))"

lemma peer_series:
  "distinct (map series (peer_samples status d kp))"
  "sr \<in> series ` set (peer_samples status d kp) \<Longrightarrow> fst sr \<in> set peer_families \<and>
     peer_tag sr = [sp_user (snd kp), sp_device (snd kp), sp_profile (snd kp)]"
  by (auto simp: peer_samples_def Let_def peer_families_def peer_tag_def mk_label_def split: option.splits prod.splits)

definition peer_names :: "'e daemon \<Rightarrow> (string \<times> string \<times> string) list" where
  "peer_names d = map (\<lambda>(k, p). (sp_user p, sp_device p, sp_profile p)) (d_devicePeers d)"

lemma series_distinct:
  assumes "distinct (map up_name (d_ups d))" and "distinct (peer_names d)"
  shows "distinct (map series (daemon_metrics version now peers d))"
proof -
  obtain c a where cl: "clients_loop now (downstreamHandshakes peers d) d (d_devicePeers d) ([], []) = (c, a)" by fastforce
  let ?us = "concat (map (upstream_samples peers d c a) (d_ups d))"
  let ?kps = "if d_down d then d_devicePeers d else []"
  let ?ps = "concat (map (peer_samples (device_status peers) d) ?kps)"
  have us: "distinct (map series ?us)"
    by (rule distinct_concat_tag [OF assms(1) upstream_series(1), where tag = "\<lambda>sr. lb_value (hd (snd sr))"])
      (simp add: upstream_series(2))
  have "distinct (map (\<lambda>kp. [sp_user (snd kp), sp_device (snd kp), sp_profile (snd kp)]) ?kps)"
    using assms(2) by (auto simp: peer_names_def distinct_map inj_on_def split: prod.splits)
  then have ps: "distinct (map series ?ps)"
    by (rule distinct_concat_tag [OF _ peer_series(1), where tag = peer_tag]) (simp add: peer_series(2))
  have "fst sr \<notin> set global_families \<and> fst sr \<notin> set peer_families" if "sr \<in> series ` set ?us" for sr
    using that upstream_series(2) by fastforce
  moreover have "fst sr \<in> set peer_families" if "sr \<in> series ` set ?ps" for sr
    using that peer_series(2) by fastforce
  moreover have "fst sr \<in> set global_families" if "sr \<in> series ` set (global_samples version d)" for sr
    using that global_series(2) by blast
  moreover have "set global_families \<inter> set peer_families = {}" by (simp add: global_families_def peer_families_def)
  ultimately have "series ` set (global_samples version d) \<inter> series ` set (?us @ ?ps) = {}"
      and "series ` set ?us \<inter> series ` set ?ps = {}"
    by (simp_all only: set_append image_Un) blast+
  with us ps show ?thesis unfolding daemon_metrics_parts [OF cl] by (intro distinct_parts global_series(1))
qed



section \<open>A daemon with an upstream and two clients\<close>

definition report_upstream :: upstream where
  "report_upstream =
     \<lparr>up_cfg = \<lparr>u_name = ''de1'', u_conf = ''de1.conf'', u_geo = ''de'', u_provider = ''p''\<rparr>,
      up_conf = \<lparr>c_iface = zero_iface, c_peers = []\<rparr>, up_source = [], up_endpoint = [], up_addr = Prefix (V4 1) 32,
      up_mtu = 1420, up_tracker = NewTracker 1 1\<rparr>"

definition report_peer :: "string \<Rightarrow> u32 \<Rightarrow> u8 \<Rightarrow> key \<times> store_peer" where
  "report_peer user ip k =
     (replicate 32 k, \<lparr>sp_id = 1, sp_user = user, sp_device = DefaultDevice, sp_profile = ''main'',
        sp_private = replicate 32 k, sp_public = replicate 32 k, sp_ip = V4 ip, sp_created = ''now''\<rparr>)"

definition report_daemon :: "unit daemon" where
  "report_daemon =
     (new_daemon default_config \<lparr>id_private = zero_key, id_params = zero_params\<rparr>)
       \<lparr>d_down := True, d_ups := [report_upstream], d_assignments := [(V4 2, ''de1'')],
        d_devicePeers := [report_peer ''bob'' 3 8, report_peer ''anna'' 2 7]\<rparr>"

definition report_now :: gotime where "report_now = time_unix 1700000000 0"

definition report_peers :: "unit peer_reports" where
  "report_peers i =
     (if i = DownstreamInterface then Inr [(zero_peer_status (replicate 32 7))\<lparr>ps_handshake := time_unix 1699999990 0\<rparr>]
      else Inl ())"

lemma report_fields:
  "d_assignments report_daemon = [(V4 2, ''de1'')]" "d_ups report_daemon = [report_upstream]"
  "up_name report_upstream = ''de1''" "d_devicePeers report_daemon = [report_peer ''bob'' 3 8, report_peer ''anna'' 2 7]"
  "d_down report_daemon"
  by (simp_all add: report_daemon_def report_upstream_def)

lemma report_counts:
  "count_routed report_daemon ''de1'' = 1" "count_active report_now report_peers report_daemon ''de1'' = 1"
proof -
  have "handshaken report_now (time_unix 1699999990 0)" by code_simp
  then show "count_active report_now report_peers report_daemon ''de1'' = 1" "count_routed report_daemon ''de1'' = 1"
    by (simp_all add: count_active_def count_routed_def report_fields routed_to_def report_peer_def active_peer_def
        downstreamHandshakes_def report_peers_def zero_peer_status_def mget_def)
qed

theorem status_agrees_witness:
  "map us_active (st_upstreams (daemon_status (sort_key client_key) report_now report_peers report_daemon)) = [1] \<and>
   map us_routed (st_upstreams (daemon_status (sort_key client_key) report_now report_peers report_daemon)) = [1]"
proof -
  have "map (\<lambda>u. (us_name u, us_routed u, us_active u))
      (st_upstreams (daemon_status (sort_key client_key) report_now report_peers report_daemon)) = [(''de1'', 1, 1)]"
    using status_agrees [OF _ sorts_by_sort_key, of report_daemon report_now report_peers]
    by (simp add: report_fields report_counts)
  then show ?thesis by auto
qed


section \<open>A series twice\<close>

text \<open>A device that is removed and added again while the dataplane refuses to unroute its old address: both peers stay on the
  device list under the same names, so the snapshot holds one series twice. The last hypothesis of \<open>metrics_scrape\<close>
  exclude it.\<close>

definition refusing_host :: "(unit, unit) host" where
  "refusing_host = \<lparr>hs_dp = \<lparr>dp_setup = \<lambda>_ _ _ w. (None, w), dp_set_upstreams = \<lambda>_ _ w. (None, w),
       dp_route = \<lambda>_ _ w. (None, w), dp_unroute = \<lambda>_ w. (Some (), w), dp_set_alive = \<lambda>_ _ w. (None, w), dp_teardown = \<lambda>w. (None, w)\<rparr>,
     hs_new_tun = \<lambda>_ _ w. (None, w), hs_configure = \<lambda>_ _ w. (None, w), hs_up = \<lambda>_ w. (None, w), hs_close = \<lambda>_ w. w,
     hs_list_peers = \<lambda>_. Inr [snd (report_peer ''anna'' 3 9)], hs_read_file = \<lambda>_ _. None, hs_lookup = \<lambda>_ _. None\<rparr>"

definition readded_daemon :: "unit daemon" where
  "readded_daemon = report_daemon\<lparr>d_cfg := default_config\<lparr>cf_profiles := [\<lparr>pr_name = ''main'', pr_prefer = []\<rparr>]\<rparr>,
     d_ups := [report_upstream\<lparr>up_tracker := fst (observe (NewTracker 1 1) True 5)\<rparr>], d_devicePeers := [report_peer ''anna'' 2 7]\<rparr>"

lemma pending_cleanup_repeats_series:
  "\<exists>es d'. reconcile refusing_host (readded_daemon, ()) = (es, (d', ())) \<and> distinct (peer_names readded_daemon) \<and>
     \<not> distinct (map series (daemon_metrics version now peers d'))"
proof -
  let ?e = "readded_daemon\<lparr>d_unroutePending := [(V4 2, True)],
    d_devicePeers := [report_peer ''anna'' 2 7, report_peer ''anna'' 3 9]\<rparr>"
  let ?d = "?e\<lparr>d_assignments := [(V4 2, ''de1''), (V4 3, ''de1'')], d_reroutes := [(''de1'', 1)]\<rparr>"
  have sel: "select_upstream \<lparr>pr_name = ''main'', pr_prefer = []\<rparr> (candidates ?e) [] = Some ''de1''"
    by (simp add: readded_daemon_def select_upstream_def candidates_def collect_def collect_step_def tier_of_def
        report_upstream_def observe_def NewTracker_def)
  have empty: "d_unroutePending report_daemon = []" "d_reroutes report_daemon = []"
    by (simp_all add: report_daemon_def new_daemon_def)
  have rec: "reconcile refusing_host (readded_daemon, ()) = ([HostError ()], (?d, ()))"
    using sel by (simp add: empty reconcile_def refusing_host_def readded_daemon_def report_fields report_peer_def remove_peer_def unroute_def
        lift_err_def add_device_peer_def route_peer_def config_profile_def assign_def mget_def report_upstream_def)
  have "distinct (peer_names readded_daemon)" by (simp add: peer_names_def readded_daemon_def)
  obtain c a where "clients_loop now (downstreamHandshakes peers ?d) ?d (d_devicePeers ?d) ([], []) = (c, a)"
    by (cases "clients_loop now (downstreamHandshakes peers ?d) ?d (d_devicePeers ?d) ([], [])") blast
  note parts = daemon_metrics_parts [OF this, of version]
  have "d_down ?d" by (simp add: readded_daemon_def report_fields)
  then have "\<not> distinct (map series (daemon_metrics version now peers ?d))"
    unfolding parts by (simp add: peer_samples_def report_peer_def Let_def)
  with rec \<open>distinct (peer_names readded_daemon)\<close> show ?thesis by blast
qed

end
