(* ===== verification/Store_Open.thy ===== *)
theory Store_Open
  imports Store_Migrate
begin

text \<open>
  \<open>Open\<close>, \<open>makePrivate\<close> and \<open>glob\<close> of \<open>internal/store/store.go\<close>. Files are their permission bits by path; which opens and
  changes of mode the system refuses are the arguments \<open>denied\<close> and \<open>chmod_fails\<close>. \<open>glob_match\<close> is \<open>filepath.Match\<close> for
  patterns without character classes (\<open>glob\<close> escapes every \<open>[\<close>), and \<open>glob_files\<close> the existing paths that match.
\<close>

type_synonym file_modes = "(string \<times> nat) list"

datatype open_error = OpenFileFailed | ChmodFailed string | MigrateFailed migrate_error

definition owner_only :: nat where "owner_only = 6 * 64"

section \<open>Package filepath\<close>

function glob_match :: "string \<Rightarrow> string \<Rightarrow> bool" where
  "glob_match [] s = (s = [])"
| "glob_match (c # p) s =
     (if c = CHR ''*'' then
        glob_match p s \<or> (case s of [] \<Rightarrow> False | x # xs \<Rightarrow> x \<noteq> CHR ''/'' \<and> glob_match (c # p) xs)
      else case s of
             [] \<Rightarrow> False
           | x # xs \<Rightarrow>
               if c = CHR ''?'' then x \<noteq> CHR ''/'' \<and> glob_match p xs
               else if c = CHR 0x5C then
                 (case p of [] \<Rightarrow> False | d # q \<Rightarrow> x = d \<and> glob_match q xs)
               else c = x \<and> glob_match p xs)"
  by pat_completeness auto
termination by (relation "measure (\<lambda>(p, s). length p + length s)") auto

declare glob_match.simps(2) [simp del]

definition glob_files :: "string \<Rightarrow> file_modes \<Rightarrow> string list" where
  "glob_files pattern files = filter (glob_match pattern) (map fst files)"

section \<open>Opening\<close>

definition escape_glob :: "char \<Rightarrow> string" where
  "escape_glob c = (if c \<in> set [CHR 0x5C, CHR ''*'', CHR ''?'', CHR ''[''] then [CHR 0x5C, c] else [c])"

definition glob :: "string \<Rightarrow> string" where
  "glob path = concat (map escape_glob path)"

text \<open>The loop of \<open>Chmod\<close>: a missing file is skipped, another failure returned.\<close>

fun chmod_all :: "(string \<Rightarrow> bool) \<Rightarrow> string list \<Rightarrow> file_modes \<Rightarrow> open_error + file_modes" where
  "chmod_all chmod_fails [] files = Inr files"
| "chmod_all chmod_fails (f # fs) files =
     (if f \<notin> keys files then chmod_all chmod_fails fs files
      else if chmod_fails f then Inl (ChmodFailed f)
      else chmod_all chmod_fails fs (mput f owner_only files))"

definition makePrivate ::
  "(string \<Rightarrow> bool) \<Rightarrow> (string \<Rightarrow> bool) \<Rightarrow> string \<Rightarrow> file_modes \<Rightarrow> open_error + file_modes" where
  "makePrivate denied chmod_fails path files =
     (if denied path then Inl OpenFileFailed
      else
        let files1 = (if path \<in> keys files then files else mput path owner_only files);
            old = glob_files (glob path @ ''.v*.bak'') files1
        in chmod_all chmod_fails ([path, path @ ''-wal'', path @ ''-shm''] @ old) files1)"

text \<open>A backup that \<open>migrate\<close> makes is created with the mode of its \<open>OpenFile\<close>.\<close>

definition store_open ::
  "(string \<Rightarrow> bool) \<Rightarrow> (string \<Rightarrow> bool) \<Rightarrow> string \<Rightarrow> string \<Rightarrow> bool \<Rightarrow> (nat \<Rightarrow> bool) \<Rightarrow> file_modes \<times> disk \<Rightarrow>
   open_error option \<times> file_modes \<times> disk" where
  "store_open denied chmod_fails path now vacuum_fails fails st =
     (let (files, d) = st
      in case makePrivate denied chmod_fails path files of
           Inl e \<Rightarrow> (Some e, st)
         | Inr files1 \<Rightarrow>
             (let (d', e) = migrate path now vacuum_fails fails d; backup = backup_name path (schemaVersion (dk_db d)) now;
                  files2 = (if backup \<in> keys (dk_backups d') \<and> backup \<notin> keys (dk_backups d)
                            then mput backup owner_only files1 else files1)
              in (map_option MigrateFailed e, files2, d')))"

section \<open>The pattern matches exactly the backups\<close>

lemma glob_match_star:
  "glob_match (CHR ''*'' # p) s \<longleftrightarrow> (\<exists>x t. s = x @ t \<and> CHR ''/'' \<notin> set x \<and> glob_match p t)"
proof (induction s)
  case Nil
  then show ?case by (simp add: glob_match.simps(2))
next
  case (Cons c s)
  have "glob_match (CHR ''*'' # p) (c # s) \<longleftrightarrow>
      glob_match p (c # s) \<or> c \<noteq> CHR ''/'' \<and> (\<exists>x t. s = x @ t \<and> CHR ''/'' \<notin> set x \<and> glob_match p t)"
    using Cons glob_match.simps(2) [of "CHR ''*''" p "c # s"] by simp
  also have "\<dots> \<longleftrightarrow> (\<exists>x t. c # s = x @ t \<and> CHR ''/'' \<notin> set x \<and> glob_match p t)"
  proof
    assume "glob_match p (c # s) \<or> c \<noteq> CHR ''/'' \<and> (\<exists>x t. s = x @ t \<and> CHR ''/'' \<notin> set x \<and> glob_match p t)"
    then show "\<exists>x t. c # s = x @ t \<and> CHR ''/'' \<notin> set x \<and> glob_match p t"
    proof
      assume "glob_match p (c # s)"
      then have "c # s = [] @ (c # s) \<and> CHR ''/'' \<notin> set [] \<and> glob_match p (c # s)" by simp
      then show ?thesis by blast
    next
      assume "c \<noteq> CHR ''/'' \<and> (\<exists>x t. s = x @ t \<and> CHR ''/'' \<notin> set x \<and> glob_match p t)"
      then obtain x t where "c \<noteq> CHR ''/''" "s = x @ t" "CHR ''/'' \<notin> set x" "glob_match p t" by blast
      then have "c # s = (c # x) @ t \<and> CHR ''/'' \<notin> set (c # x) \<and> glob_match p t" by simp
      then show ?thesis by blast
    qed
  next
    assume "\<exists>x t. c # s = x @ t \<and> CHR ''/'' \<notin> set x \<and> glob_match p t"
    then show "glob_match p (c # s) \<or> c \<noteq> CHR ''/'' \<and> (\<exists>x t. s = x @ t \<and> CHR ''/'' \<notin> set x \<and> glob_match p t)"
    proof (elim exE conjE)
      fix x t assume "c # s = x @ t" "CHR ''/'' \<notin> set x" "glob_match p t"
      then show ?thesis by (cases x) auto
    qed
  qed
  finally show ?case .
qed

lemma glob_match_literal:
  "list_all (\<lambda>c. c \<notin> set [CHR 0x5C, CHR ''*'', CHR ''?'']) l \<Longrightarrow> glob_match (l @ p) s \<longleftrightarrow> (\<exists>t. s = l @ t \<and> glob_match p t)"
proof (induction l arbitrary: s)
  case (Cons c l)
  then show ?case by (cases s) (auto simp: glob_match.simps(2))
qed simp

lemma glob_match_escaped: "glob_match (glob path @ p) s \<longleftrightarrow> (\<exists>t. s = path @ t \<and> glob_match p t)"
proof (induction path arbitrary: s)
  case (Cons c path)
  then show ?case by (cases s) (auto simp: glob_def escape_glob_def glob_match.simps(2))
qed (simp add: glob_def)

lemma glob_backups:
  "glob_match (glob path @ ''.v*.bak'') f \<longleftrightarrow> (\<exists>x. f = path @ ''.v'' @ x @ ''.bak'' \<and> CHR ''/'' \<notin> set x)"
proof -
  have bak: "glob_match ''.bak'' t \<longleftrightarrow> t = ''.bak''" for t
    using glob_match_literal [of "''.bak''" "[]" t] by simp
  have "glob_match (''.v'' @ CHR ''*'' # ''.bak'') s \<longleftrightarrow> (\<exists>x. s = ''.v'' @ x @ ''.bak'' \<and> CHR ''/'' \<notin> set x)" for s
    using glob_match_literal [of "''.v''" "CHR ''*'' # ''.bak''" s] by (auto simp: glob_match_star bak)
  then show ?thesis unfolding glob_match_escaped by auto
qed

section \<open>Everything that holds keys is private\<close>

lemma chmod_all_ok:
  "chmod_all chmod_fails fs files = Inr files' \<Longrightarrow>
   map_of files' f = (if f \<in> set fs \<and> f \<in> keys files then Some owner_only else map_of files f)"
  by (induction chmod_fails fs files rule: chmod_all.induct)
    (auto split: if_splits simp: map_of_eq_None_iff)

definition secret_file :: "string \<Rightarrow> string \<Rightarrow> bool" where
  "secret_file path f \<longleftrightarrow> f = path \<or> f = path @ ''-wal'' \<or> f = path @ ''-shm'' \<or>
     (\<exists>x. f = path @ ''.v'' @ x @ ''.bak'' \<and> CHR ''/'' \<notin> set x)"

lemma makePrivate_ok:
  assumes "makePrivate denied chmod_fails path files = Inr files'"
  shows "map_of files' f = (if f = path \<or> secret_file path f \<and> f \<in> keys files then Some owner_only else map_of files f)"
proof -
  let ?f1 = "if path \<in> keys files then files else mput path owner_only files"
  let ?old = "glob_files (glob path @ ''.v*.bak'') ?f1"
  have "chmod_all chmod_fails ([path, path @ ''-wal'', path @ ''-shm''] @ ?old) ?f1 = Inr files'"
    using assms by (simp add: makePrivate_def Let_def split: if_splits)
  note c = chmod_all_ok [OF this, of f]
  have k: "f \<in> keys ?f1 \<longleftrightarrow> f = path \<or> f \<in> keys files" by auto
  have "f \<in> set ?old \<longleftrightarrow> f \<in> keys ?f1 \<and> (\<exists>x. f = path @ ''.v'' @ x @ ''.bak'' \<and> CHR ''/'' \<notin> set x)"
    unfolding glob_files_def by (simp only: set_filter set_map mem_Collect_eq glob_backups)
  then have "f \<in> set ([path, path @ ''-wal'', path @ ''-shm''] @ ?old) \<and> f \<in> keys ?f1 \<longleftrightarrow>
      f = path \<or> secret_file path f \<and> f \<in> keys files"
    unfolding k by (auto simp: secret_file_def)
  then show ?thesis unfolding c by auto
qed



text \<open>A database of the first release in a directory with an old public backup: opening migrates it and closes both.\<close>

definition first_release :: disk where
  "first_release = \<lparr>dk_db = \<lparr>df_version = 0, df_users = Some [], df_peers = OldPeers []\<rparr>, dk_backups = []\<rparr>"

definition open_files :: file_modes where
  "open_files = [(''[a].db'', 420), (''[a].db.v1-old.bak'', 420), (''a.db.v1.bak'', 420)]"

lemma chmod_all_total: "\<exists>files'. chmod_all (\<lambda>_. False) fs files = Inr files'"
  by (induction "\<lambda>_ :: string. False" fs files rule: chmod_all.induct) auto


end
