(* ===== verification/Cmd_User.thy ===== *)
theory Cmd_User
  imports Go_Flag Daemon_Status Client Store_Open
begin

text \<open>
  The command line of \<open>cmd/lotsman\<close>: \<open>main.go\<close> and \<open>user.go\<close>. What a command finds around it is \<open>cmd_host\<close>: environment,
  files, the YAML decoder, the identity (\<open>LoadOrCreateIdentity\<close>), \<open>store.Open\<close>, resolver, row ids, randomness, key
  derivation, clock and the daemon's last status. What it changes is \<open>cmd_world\<close>: the database, the text and tables printed,
  the codes drawn on the terminal and the signals sent. The alignment of \<open>text/tabwriter\<close> is not modelled: a table is its rows.
\<close>

record status_file =
  sf_updated :: gotime
  sf_mtu :: int
  sf_upstreams :: "upstream_status list"
  sf_peers :: "client_status list"

record cmd_host =
  ch_getenv :: "string \<Rightarrow> string"
  ch_read_file :: "string \<Rightarrow> string option"
  ch_yaml :: "string \<Rightarrow> config \<Rightarrow> config option"
  ch_identity :: "string \<Rightarrow> identity_error + identity"
  ch_open :: "string \<Rightarrow> open_error option"
  ch_lookup :: "string \<Rightarrow> addr list option"
  ch_pick :: "int set \<Rightarrow> int"
  ch_pub :: "key \<Rightarrow> key"
  ch_rand :: "u8 list option"
  ch_created :: string
  ch_now :: gotime
  ch_json :: "string \<Rightarrow> status_file option"
  ch_version :: string

record cmd_world =
  cw_db :: store_db
  cw_out :: string
  cw_rows :: "string list list"
  cw_codes :: "string list"
  cw_signals :: "int list"

datatype cmd_error =
    FlagFailed flag_error
  | NoCommand
  | UnexpectedArgument string string
  | UnknownCommand string
  | NameRequired string
  | ProfileRequired string
  | ConfigFailed config_error
  | IdentityFailed identity_error
  | OpenFailed open_error
  | UpstreamFailed upstream_error
  | ProfileNotInConfig string
  | AlreadyHasProfile string string string
  | StoreFailed store_error
  | PeerFailed string string string store_error
  | UserFailed string store_error
  | NoStatus
  | StatusUnreadable

type_synonym cmd_result = "cmd_error option \<times> cmd_world"

definition print :: "string \<Rightarrow> cmd_world \<Rightarrow> cmd_world" where
  "print s w = w\<lparr>cw_out := cw_out w @ s\<rparr>"

section \<open>Arguments\<close>

record user_args =
  ua_name :: string
  ua_device :: string
  ua_profile :: string
  ua_deviceSet :: bool
  ua_qr :: bool

definition user_flags :: "(string \<times> bool) list" where
  "user_flags = [(''profile'', False), (''device'', False), (''qr'', True)]"

definition parseUserArgs :: "string \<Rightarrow> string list \<Rightarrow> bool \<Rightarrow> cmd_error + user_args" where
  "parseUserArgs cmd args profileRequired =
     (case args of
        [] \<Rightarrow> Inl (NameRequired cmd)
      | name # flags \<Rightarrow>
          if name = [] \<or> hd name = CHR ''-'' then Inl (NameRequired cmd)
          else (case parse_flags user_flags flags of
                  Inl e \<Rightarrow> Inl (FlagFailed e)
                | Inr (asg, rest) \<Rightarrow>
                    if rest \<noteq> [] then Inl (UnexpectedArgument cmd (hd rest))
                    else
                      let a = \<lparr>ua_name = name, ua_device = flag_var asg ''device'' DefaultDevice,
                               ua_profile = flag_var asg ''profile'' [], ua_deviceSet = (''device'' \<in> fst ` set asg),
                               ua_qr = (flag_var asg ''qr'' ''false'' = ''true'')\<rparr>
                      in if profileRequired \<and> ua_profile a = [] then Inl (ProfileRequired cmd) else Inr a))"

section \<open>The environment of a command\<close>

record cmd_env =
  ce_cfg :: config
  ce_id :: identity

text \<open>\<open>filepath.Clean\<close>: the elements that remain, the last one first.\<close>

fun clean_parts :: "bool \<Rightarrow> string list \<Rightarrow> string list \<Rightarrow> string list" where
  "clean_parts rooted [] acc = acc"
| "clean_parts rooted (p # ps) acc =
     clean_parts rooted ps
       (if p = [] \<or> p = ''.'' then acc
        else if p = ''..'' then
          (case acc of
             [] \<Rightarrow> if rooted then [] else [p]
           | q # qs \<Rightarrow> if q = ''..'' then p # acc else qs)
        else p # acc)"

definition path_clean :: "string \<Rightarrow> string" where
  "path_clean s =
     (let rooted = has_prefix s ''/''; t = join ''/'' (rev (clean_parts rooted (split_on (CHR ''/'') s) []))
      in if rooted then CHR ''/'' # t else if t = [] then ''.'' else t)"

definition path_join :: "string \<Rightarrow> string \<Rightarrow> string" where
  "path_join dir name = path_clean (if dir = [] then name else dir @ ''/'' @ name)"

definition pidPath :: "string \<Rightarrow> string" where "pidPath dir = path_join dir ''lotsman.pid''"

definition statusPath :: "string \<Rightarrow> string" where "statusPath dir = path_join dir ''status.json''"

definition load_cfg :: "cmd_host \<Rightarrow> string \<Rightarrow> cmd_error + config" where
  "load_cfg h path = wrap_err ConfigFailed (load_config (ch_read_file h) (ch_yaml h) path)"

definition openEnv :: "cmd_host \<Rightarrow> string \<Rightarrow> cmd_error + cmd_env" where
  "openEnv h configPath =
     rbind (load_cfg h configPath) (\<lambda>cfg.
     rbind (wrap_err IdentityFailed (ch_identity h (cf_state_dir cfg))) (\<lambda>idn.
     case ch_open h (path_join (cf_state_dir cfg) ''lotsman.db'') of
       Some e \<Rightarrow> Inl (OpenFailed e)
     | None \<Rightarrow> Inr \<lparr>ce_cfg = cfg, ce_id = idn\<rparr>))"

definition env_clientMTU :: "cmd_host \<Rightarrow> cmd_env \<Rightarrow> cmd_error + int" where
  "env_clientMTU h e =
     rmap (\<lambda>ups. mtu_client (S4 (id_params (ce_id e))) (map (\<lambda>up. \<lparr>mu_mtu = up_mtu up, mu_s4 = S4 (i_params (c_iface (up_conf up)))\<rparr>) ups))
       (wrap_err UpstreamFailed
         (traverse (\<lambda>u. load_upstream (ch_read_file h) (ch_lookup h) u (cf_health (ce_cfg e))) (cf_upstreams (ce_cfg e))))"

definition printClientConfig :: "cmd_host \<Rightarrow> cmd_env \<Rightarrow> store_peer \<Rightarrow> bool \<Rightarrow> cmd_world \<Rightarrow> cmd_result" where
  "printClientConfig h e peer qr w =
     (case env_clientMTU h e of
        Inl er \<Rightarrow> (Some er, w)
      | Inr m \<Rightarrow>
          (let conf = config_string (client_config (ch_pub h) (ce_cfg e) (ce_id e) peer m); w1 = print conf w
           in (None, if qr then w1\<lparr>cw_codes := cw_codes w1 @ [conf]\<rparr> else w1)))"

text \<open>\<open>FindProcess\<close> does not fail on Unix; the outcome of the signal is ignored.\<close>

definition nudgeDaemon :: "cmd_host \<Rightarrow> cmd_env \<Rightarrow> cmd_world \<Rightarrow> cmd_world" where
  "nudgeDaemon h e w =
     (case ch_read_file h (pidPath (cf_state_dir (ce_cfg e))) of
        None \<Rightarrow> w
      | Some data \<Rightarrow> (case atoi data of Inl _ \<Rightarrow> w | Inr pid \<Rightarrow> w\<lparr>cw_signals := cw_signals w @ [pid]\<rparr>))"

section \<open>The user commands\<close>

definition userAdd :: "cmd_host \<Rightarrow> string \<Rightarrow> string list \<Rightarrow> cmd_world \<Rightarrow> cmd_result" where
  "userAdd h configPath args w =
     (case parseUserArgs ''user add'' args True of
        Inl e \<Rightarrow> (Some e, w)
      | Inr a \<Rightarrow>
     (case openEnv h configPath of
        Inl e \<Rightarrow> (Some e, w)
      | Inr e \<Rightarrow>
     (if config_profile (ce_cfg e) (ua_profile a) = None then (Some (ProfileNotInConfig (ua_profile a)), w)
      else
        (case (case create_user (ch_pick h) (ch_created h) (ua_name a) (cw_db w) of
                 Inr (u, db) \<Rightarrow> Inr db
               | Inl ErrExists \<Rightarrow> Inr (cw_db w)
               | Inl er \<Rightarrow> Inl er) of
           Inl er \<Rightarrow> (Some (StoreFailed er), w)
         | Inr db \<Rightarrow>
             (let w1 = w\<lparr>cw_db := db\<rparr>
              in case add_peer (ch_pick h) (ch_pub h) (ch_rand h) (ch_created h) (ua_name a) (ua_device a) (ua_profile a)
                        (cf_subnet (ce_cfg e)) db of
                   Inl ErrExists \<Rightarrow> (Some (AlreadyHasProfile (ua_name a) (ua_device a) (ua_profile a)), w1)
                 | Inl er \<Rightarrow> (Some (StoreFailed er), w1)
                 | Inr (peer, db') \<Rightarrow>
                     (case printClientConfig h e peer (ua_qr a) (w1\<lparr>cw_db := db'\<rparr>) of
                        (Some er, w2) \<Rightarrow> (Some er, w2)
                      | (None, w2) \<Rightarrow> (None, nudgeDaemon h e w2)))))))"

definition userShow :: "cmd_host \<Rightarrow> string \<Rightarrow> string list \<Rightarrow> cmd_world \<Rightarrow> cmd_result" where
  "userShow h configPath args w =
     (case parseUserArgs ''user show'' args True of
        Inl e \<Rightarrow> (Some e, w)
      | Inr a \<Rightarrow>
     (case openEnv h configPath of
        Inl e \<Rightarrow> (Some e, w)
      | Inr e \<Rightarrow>
     (case find_peer (ua_name a) (ua_device a) (ua_profile a) (cw_db w) of
        Inl er \<Rightarrow> (Some (PeerFailed (ua_name a) (ua_device a) (ua_profile a) er), w)
      | Inr peer \<Rightarrow> printClientConfig h e peer (ua_qr a) w)))"

definition userRemove :: "cmd_host \<Rightarrow> string \<Rightarrow> string list \<Rightarrow> cmd_world \<Rightarrow> cmd_result" where
  "userRemove h configPath args w =
     (case parseUserArgs ''user rm'' args False of
        Inl e \<Rightarrow> (Some e, w)
      | Inr a \<Rightarrow>
     (case openEnv h configPath of
        Inl e \<Rightarrow> (Some e, w)
      | Inr e \<Rightarrow>
     (case (if ua_profile a \<noteq> [] then delete_peer (ua_name a) (ua_device a) (ua_profile a) (cw_db w)
            else if ua_deviceSet a then delete_device (ua_name a) (ua_device a) (cw_db w)
            else delete_user (ua_name a) (cw_db w)) of
        Inl er \<Rightarrow> (Some (UserFailed (ua_name a) er), w)
      | Inr db \<Rightarrow> (None, nudgeDaemon h e (w\<lparr>cw_db := db\<rparr>)))))"

section \<open>Listing\<close>

definition readStatus :: "cmd_host \<Rightarrow> string \<Rightarrow> cmd_error + status_file" where
  "readStatus h stateDir =
     (case ch_read_file h (statusPath stateDir) of
        None \<Rightarrow> Inl NoStatus
      | Some data \<Rightarrow> (case ch_json h data of None \<Rightarrow> Inl StatusUnreadable | Some s \<Rightarrow> Inr s))"

definition ago :: "gotime \<Rightarrow> gotime \<Rightarrow> string" where
  "ago now t =
     (if time_is_zero t then ''never'' else duration_string (duration_round (sint (time_sub now t)) second) @ '' ago'')"

definition live_status :: "client_status list \<Rightarrow> ((string \<times> string \<times> string) \<times> client_status) list" where
  "live_status cs = foldl (\<lambda>m c. mput (client_key c) c m) [] cs"

definition list_row :: "gotime \<Rightarrow> ((string \<times> string \<times> string) \<times> client_status) list \<Rightarrow> store_peer \<Rightarrow> string list" where
  "list_row now live p =
     (let (upstream, handshake) =
        (case map_of live (sp_user p, sp_device p, sp_profile p) of
           None \<Rightarrow> (''-'', ''-'')
         | Some ps \<Rightarrow> (if cs_upstream ps = [] then ''blocked'' else cs_upstream ps, ago now (cs_handshake ps)))
      in [sp_user p, sp_device p, sp_profile p, show_addr (sp_ip p), upstream, handshake, take 10 (sp_created p)])"

definition userList :: "cmd_host \<Rightarrow> string \<Rightarrow> cmd_world \<Rightarrow> cmd_result" where
  "userList h configPath w =
     (case openEnv h configPath of
        Inl e \<Rightarrow> (Some e, w)
      | Inr e \<Rightarrow>
     (case list_peers (cw_db w) of
        Inl er \<Rightarrow> (Some (StoreFailed er), w)
      | Inr peers \<Rightarrow>
          (let live = (case readStatus h (cf_state_dir (ce_cfg e)) of Inl _ \<Rightarrow> [] | Inr st \<Rightarrow> live_status (sf_peers st))
           in (None, w\<lparr>cw_rows := cw_rows w @
                [[''USER'', ''DEVICE'', ''PROFILE'', ''ADDRESS'', ''UPSTREAM'', ''LAST HANDSHAKE'', ''CREATED'']] @
                map (list_row (ch_now h) live) peers\<rparr>))))"

end
