(* ===== verification/Cmd_Main.thy ===== *)
theory Cmd_Main
  imports Cmd_User
begin

text \<open>
  The rest of \<open>cmd/lotsman\<close> apart from the service: the dispatch of \<open>main.go\<close> and the status commands of
  \<open>status.go\<close>. \<open>serve\<close>, whose runs are those of \<open>Cmd_Serve\<close>, is an argument of \<open>run_command\<close>.
\<close>

section \<open>Dispatch\<close>

datatype command =
    CmdVersion
  | CmdServe
  | CmdConfigCheck
  | CmdUserAdd "string list"
  | CmdUserShow "string list"
  | CmdUserList
  | CmdUserRm "string list"
  | CmdUpstreamStatus

definition defaultConfigPath :: "cmd_host \<Rightarrow> string" where
  "defaultConfigPath h =
     (let p = ch_getenv h ''LOTSMAN_CONFIG'' in if p \<noteq> [] then p else ''/etc/lotsman/lotsman.yaml'')"

definition argumentless :: "string list" where
  "argumentless = [''version'', ''serve'', ''config check'', ''user list'', ''upstream status'']"

text \<open>The command word, joined with the second one for the commands of two words, and its arguments.\<close>

definition command_words :: "string list \<Rightarrow> string \<times> string list" where
  "command_words rest =
     (let cmd = hd rest; r = tl rest
      in if r \<noteq> [] \<and> cmd \<in> set [''user'', ''config'', ''upstream''] then (cmd @ '' '' @ hd r, tl r) else (cmd, r))"

definition choose_command :: "string \<Rightarrow> string list \<Rightarrow> cmd_error + command" where
  "choose_command cmd rest =
     (if cmd \<in> set argumentless \<and> rest \<noteq> [] then Inl (UnexpectedArgument cmd (hd rest))
      else if cmd = ''version'' then Inr CmdVersion
      else if cmd = ''serve'' then Inr CmdServe
      else if cmd = ''config check'' then Inr CmdConfigCheck
      else if cmd = ''user add'' then Inr (CmdUserAdd rest)
      else if cmd = ''user show'' then Inr (CmdUserShow rest)
      else if cmd = ''user list'' then Inr CmdUserList
      else if cmd = ''user rm'' then Inr (CmdUserRm rest)
      else if cmd = ''upstream status'' then Inr CmdUpstreamStatus
      else Inl (UnknownCommand cmd))"

definition dispatch :: "cmd_host \<Rightarrow> string list \<Rightarrow> cmd_error + string \<times> command" where
  "dispatch h args =
     (case parse_flags [(''config'', False)] args of
        Inl e \<Rightarrow> Inl (FlagFailed e)
      | Inr (asg, rest) \<Rightarrow>
          if rest = [] then Inl NoCommand
          else (let (cmd, r) = command_words rest
                in rmap (Pair (flag_var asg ''config'' (defaultConfigPath h))) (choose_command cmd r)))"

section \<open>Status\<close>

definition status_row :: "gotime \<Rightarrow> upstream_status \<Rightarrow> string list" where
  "status_row now u =
     [us_name u, us_interface u, state_string (us_state u), duration_string (duration_round (us_latency u) 1000000),
      ago now (us_handshake u), show_nat (us_routed u), show_nat (us_active u)]"

definition upstreamStatus :: "cmd_host \<Rightarrow> string \<Rightarrow> cmd_world \<Rightarrow> cmd_result" where
  "upstreamStatus h configPath w =
     (case load_cfg h configPath of
        Inl e \<Rightarrow> (Some e, w)
      | Inr cfg \<Rightarrow>
     (case readStatus h (cf_state_dir cfg) of
        Inl e \<Rightarrow> (Some e, w)
      | Inr s \<Rightarrow>
          (let line = ''updated '' @ duration_string (duration_round (sint (time_sub (ch_now h) (sf_updated s))) second) @
                 '' ago, client MTU '' @ show_int (sf_mtu s) @ [CHR 0x0A]
           in (None, (print line w)\<lparr>cw_rows := cw_rows w @
                [[''UPSTREAM'', ''INTERFACE'', ''STATE'', ''LATENCY'', ''LAST HANDSHAKE'', ''ROUTED'', ''ACTIVE'']] @
                map (status_row (ch_now h)) (sf_upstreams s)\<rparr>))))"

definition pad_right :: "nat \<Rightarrow> string \<Rightarrow> string" where
  "pad_right n s = s @ replicate (n - length s) (CHR '' '')"

definition upstream_line :: "cfg_upstream \<Rightarrow> upstream \<Rightarrow> string" where
  "upstream_line u up =
     ''upstream '' @ pad_right 10 (u_name u) @ '' '' @ interface_name u @ ''  endpoint '' @
     p_endpoint (c_peers (up_conf up) ! 0) @ ''  address '' @ show_prefix (up_addr up) @ ''  mtu '' @ show_int (up_mtu up) @
     ''  s4 '' @ show_nat (unat (S4 (i_params (c_iface (up_conf up))))) @ [CHR 0x0A]"

definition match_text :: "cfg_match \<Rightarrow> string" where
  "match_text m = ''{'' @ m_geo m @ '' '' @ m_provider m @ ''}''"

definition profile_line :: "profile \<Rightarrow> string" where
  "profile_line p =
     ''profile  '' @ pad_right 10 (pr_name p) @ '' prefer ['' @ join '' '' (map match_text (pr_prefer p)) @ '']'' @ [CHR 0x0A]"

fun check_upstream_files ::
  "cmd_host \<Rightarrow> health_cfg \<Rightarrow> cfg_upstream list \<Rightarrow> cmd_world \<Rightarrow> cmd_result" where
  "check_upstream_files h hc [] w = (None, w)"
| "check_upstream_files h hc (u # us) w =
     (case load_upstream (ch_read_file h) (ch_lookup h) u hc of
        Inl e \<Rightarrow> (Some (UpstreamFailed e), w)
      | Inr up \<Rightarrow> check_upstream_files h hc us (print (upstream_line u up) w))"

definition checkConfig :: "cmd_host \<Rightarrow> string \<Rightarrow> cmd_world \<Rightarrow> cmd_result" where
  "checkConfig h configPath w =
     (case load_cfg h configPath of
        Inl e \<Rightarrow> (Some e, w)
      | Inr cfg \<Rightarrow>
     (case check_upstream_files h (cf_health cfg) (cf_upstreams cfg) w of
        (Some e, w1) \<Rightarrow> (Some e, w1)
      | (None, w1) \<Rightarrow>
          (None, print (''config OK'' @ [CHR 0x0A]) (foldl (\<lambda>w p. print (profile_line p) w) w1 (cf_profiles cfg)))))"

section \<open>Running a command\<close>

definition run_command ::
  "(string \<Rightarrow> cmd_world \<Rightarrow> cmd_result) \<Rightarrow> cmd_host \<Rightarrow> string list \<Rightarrow> cmd_world \<Rightarrow> cmd_result" where
  "run_command serve h args w =
     (case dispatch h args of
        Inl e \<Rightarrow> (Some e, w)
      | Inr (path, c) \<Rightarrow>
          (case c of
             CmdVersion \<Rightarrow> (None, print (ch_version h @ [CHR 0x0A]) w)
           | CmdServe \<Rightarrow> serve path w
           | CmdConfigCheck \<Rightarrow> checkConfig h path w
           | CmdUserAdd rest \<Rightarrow> userAdd h path rest w
           | CmdUserShow rest \<Rightarrow> userShow h path rest w
           | CmdUserList \<Rightarrow> userList h path w
           | CmdUserRm rest \<Rightarrow> userRemove h path rest w
           | CmdUpstreamStatus \<Rightarrow> upstreamStatus h path w))"

end
