(* ===== verification/Cmd_Lifecycle.thy ===== *)
theory Cmd_Lifecycle
  imports Cmd_Main Daemon_World
begin

text \<open>
  What the user commands do one after the other: the configuration \<open>user add\<close> prints is the one \<open>user show\<close>
  prints again, and after \<open>user rm\<close> it is gone, while the other users notice nothing.
\<close>

section \<open>The steps of a command\<close>

lemma parse_any_command: "parseUserArgs c args b = Inr a \<Longrightarrow> parseUserArgs c' args b = Inr a"
  by (auto simp: parseUserArgs_def Let_def split: list.splits sum.splits if_splits prod.splits)

lemma parse_name:
  assumes "parseUserArgs c args b = Inr a"
  shows "parseUserArgs c' [ua_name a] False =
    Inr \<lparr>ua_name = ua_name a, ua_device = DefaultDevice, ua_profile = [], ua_deviceSet = False, ua_qr = False\<rparr>"
  using assms
  by (auto simp: parseUserArgs_def Let_def flag_var_def split: list.splits sum.splits if_splits prod.splits)

lemma openEnv_subnet:
  assumes "openEnv h path = Inr e"
  shows "is4 (paddr (cf_subnet (ce_cfg e)))"
proof -
  from assms obtain cfg where "load_cfg h path = Inr cfg" and e: "ce_cfg e = cfg"
    by (auto simp: openEnv_def split: option.splits)
  then have "validate cfg = None"
    by (auto simp: load_cfg_def load_config_def parse_config_def split: option.splits)
  with e show ?thesis by (auto simp: validate_iff config_valid_def is4_V4)
qed

lemma printClientConfig_ok:
  "printClientConfig h e peer qr w = (None, w') \<Longrightarrow>
   \<exists>m. env_clientMTU h e = Inr m \<and>
     cw_out w' = cw_out w @ config_string (client_config (ch_pub h) (ce_cfg e) (ce_id e) peer m) \<and> cw_db w' = cw_db w"
  by (auto simp: printClientConfig_def print_def Let_def split: sum.splits if_splits)

lemma printClientConfig_mtu:
  "env_clientMTU h e = Inr m \<Longrightarrow>
   \<exists>w'. printClientConfig h e peer qr w = (None, w') \<and> cw_db w' = cw_db w \<and>
     cw_out w' = cw_out w @ config_string (client_config (ch_pub h) (ce_cfg e) (ce_id e) peer m)"
  by (auto simp: printClientConfig_def print_def Let_def)

lemma nudge_frame [simp]: "cw_db (nudgeDaemon h e w) = cw_db w" "cw_out (nudgeDaemon h e w) = cw_out w"
  by (auto simp: nudgeDaemon_def split: option.splits sum.splits)

text \<open>The database \<open>user add\<close> hands to \<open>AddPeer\<close>: the user is in it, no tunnel is new.\<close>

definition with_user :: "cmd_host \<Rightarrow> string \<Rightarrow> store_db \<Rightarrow> store_db \<Rightarrow> bool" where
  "with_user h name db db1 \<longleftrightarrow>
     (\<exists>u. create_user (ch_pick h) (ch_created h) name db = Inr (u, db1)) \<or>
     create_user (ch_pick h) (ch_created h) name db = Inl ErrExists \<and> db1 = db"

lemma userAdd_ok:
  assumes "userAdd h path args w = (None, w')"
  obtains a e db1 sp m where
    "parseUserArgs ''user add'' args True = Inr a" "openEnv h path = Inr e" "with_user h (ua_name a) (cw_db w) db1"
    "add_peer (ch_pick h) (ch_pub h) (ch_rand h) (ch_created h) (ua_name a) (ua_device a) (ua_profile a)
       (cf_subnet (ce_cfg e)) db1 = Inr (sp, cw_db w')"
    "env_clientMTU h e = Inr m"
    "cw_out w' = cw_out w @ config_string (client_config (ch_pub h) (ce_cfg e) (ce_id e) sp m)"
proof -
  from assms obtain a e where a: "parseUserArgs ''user add'' args True = Inr a" and e: "openEnv h path = Inr e"
    by (auto simp: userAdd_def split: sum.splits)
  let ?create = "create_user (ch_pick h) (ch_created h) (ua_name a) (cw_db w)"
  let ?db = "case ?create of Inr (u, db) \<Rightarrow> Inr db | Inl ErrExists \<Rightarrow> Inr (cw_db w) | Inl er \<Rightarrow> Inl er"
  from assms a e obtain db1 where db: "?db = Inr db1"
    by (simp add: userAdd_def split: if_splits sum.splits)
  from db have wu: "with_user h (ua_name a) (cw_db w) db1"
    by (auto simp: with_user_def split: sum.splits store_error.splits prod.splits)
  let ?add = "add_peer (ch_pick h) (ch_pub h) (ch_rand h) (ch_created h) (ua_name a) (ua_device a) (ua_profile a)
       (cf_subnet (ce_cfg e)) db1"
  from assms a e db obtain sp db2 where add: "?add = Inr (sp, db2)"
    by (auto simp: userAdd_def Let_def split: if_splits sum.splits store_error.splits prod.splits)
  from assms a e db add obtain w2 where "printClientConfig h e sp (ua_qr a) (w\<lparr>cw_db := db2\<rparr>) = (None, w2)"
      and "w' = nudgeDaemon h e w2"
    by (auto simp: userAdd_def Let_def split: if_splits prod.splits option.splits)
  with printClientConfig_ok [OF this(1)] that [OF a e wu] add show thesis by auto
qed


text \<open>A removal or a lookup that fails changes nothing and does not disturb the daemon.\<close>

lemma userRemove_failed: "userRemove h path args w = (Some e, w') \<Longrightarrow> w' = w"
  by (auto simp: userRemove_def split: sum.splits)

lemma userShow_frame: "cw_db (snd (userShow h path args w)) = cw_db w \<and> cw_signals (snd (userShow h path args w)) = cw_signals w"
  by (auto simp: userShow_def printClientConfig_def print_def Let_def split: sum.splits)

text \<open>A command without arguments rejects any it is given.\<close>

lemma argumentless_rejects: "cmd \<in> set argumentless \<Longrightarrow> rest \<noteq> [] \<Longrightarrow> choose_command cmd rest = Inl (UnexpectedArgument cmd (hd rest))"
  by (simp add: choose_command_def)

section \<open>Lookups\<close>

lemma create_user_lookup:
  assumes fresh: "\<forall>S. finite S \<longrightarrow> pick S \<notin> S" and ok: "constraints db"
    and "create_user pick now name db = Inr (u, db1)"
  shows "find_peer n d p db1 = find_peer n d p db"
proof -
  have new: "pick (ur_id ` set (db_users db)) \<notin> ur_id ` set (db_users db)" using fresh by simp
  have "\<forall>q \<in> set (db_peers db). pw_user q \<in> ur_id ` set (db_users db)" using ok by (simp add: constraints_def)
  with new have "\<forall>q \<in> set (db_peers db). pick (ur_id ` set (db_users db)) \<noteq> pw_user q" by metis
  moreover from assms(3) have "db_peers db1 = db_peers db" "db_users db1 = db_users db @ [u]"
      "ur_id u = pick (ur_id ` set (db_users db))"
    by (auto simp: create_user_def Let_def split: if_splits)
  ultimately have "joined db1 = joined db"
    unfolding joined_def by - (rule arg_cong [of _ _ concat], rule map_cong, simp_all)
  then show ?thesis by (simp add: find_peer_def queryPeers_def)
qed

lemma with_user_keeps:
  assumes fresh: "\<forall>S. finite S \<longrightarrow> ch_pick h S \<notin> S" and ok: "db_ok (key_public smult) db" and "with_user h name db db1"
  shows "db_ok (key_public smult) db1" and "find_peer n d p db1 = find_peer n d p db"
proof -
  have env: "store_env (ch_pick h)" using fresh by unfold_locales blast
  show "db_ok (key_public smult) db1" using assms store_env.create_user_ok [OF env ok] by (auto simp: with_user_def)
  show "find_peer n d p db1 = find_peer n d p db"
    using assms create_user_lookup [OF fresh] by (auto simp: with_user_def db_ok_def)
qed

lemma delete_user_lookup:
  assumes "constraints db" and "find_peer name d p db = Inr sp"
  obtains db' where "delete_user name db = Inr db'"
    "\<And>n d p. find_peer n d p db' = (if n = name then Inl ErrNotFound else find_peer n d p db)"
proof -
  have "lookup_rows name d p db \<noteq> []" using assms(2) by (auto simp: find_peer_rows)
  then obtain x where "x \<in> set (lookup_rows name d p db)" by (meson last_in_set)
  then have "fst x \<in> set (db_users db) \<and> ur_name (fst x) = name" by (auto simp: lookup_rows_def joined_iff)
  then have "filter (\<lambda>u. ur_name u = name) (db_users db) \<noteq> []" by (auto simp: filter_empty_conv)
  then obtain db' where "delete_user name db = Inr db'"
    unfolding delete_user_def Let_def by (simp only: if_False)
  with lookup_rows_delete_user [OF assms(1) this] that show thesis by (simp add: find_peer_rows)
qed

section \<open>Add, show, remove\<close>

text \<open>C9. The life of a tunnel on the command line: after \<open>user add\<close> succeeds, \<open>user show\<close> with the same arguments succeeds
  and prints the very configuration that was printed, the database keeps its invariant and every other tunnel is found as
  before; \<open>user rm\<close> of the name then succeeds, after which \<open>user show\<close> reports that the tunnel is not found, and the tunnels
  of other users are still found as before.\<close>

theorem user_lifecycle:
  assumes fresh: "\<forall>S. finite S \<longrightarrow> ch_pick h S \<notin> S" and ok: "db_ok (key_public smult) (cw_db w)"
    and pub: "ch_pub h = key_public smult" and rand: "ch_rand h = Some k0" "length k0 = 32"
    and add: "userAdd h path args w = (None, w1)"
  shows "\<exists>a conf w2 w3. parseUserArgs ''user show'' args True = Inr a \<and> db_ok (key_public smult) (cw_db w1) \<and>
    cw_out w1 = cw_out w @ conf \<and>
    userShow h path args w1 = (None, w2) \<and> cw_out w2 = cw_out w1 @ conf \<and> cw_db w2 = cw_db w1 \<and>
    (\<forall>n d p. (n, d, p) \<noteq> (ua_name a, ua_device a, ua_profile a) \<longrightarrow> find_peer n d p (cw_db w1) = find_peer n d p (cw_db w)) \<and>
    userRemove h path [ua_name a] w2 = (None, w3) \<and>
    userShow h path args w3 = (Some (PeerFailed (ua_name a) (ua_device a) (ua_profile a) ErrNotFound), w3) \<and>
    (\<forall>n d p. n \<noteq> ua_name a \<longrightarrow> find_peer n d p (cw_db w3) = find_peer n d p (cw_db w))"
proof -
  from userAdd_ok [OF add] obtain a e db1 sp m where
    a: "parseUserArgs ''user add'' args True = Inr a" and e: "openEnv h path = Inr e"
    and wu: "with_user h (ua_name a) (cw_db w) db1"
    and ap: "add_peer (ch_pick h) (key_public smult) (Some k0) (ch_created h) (ua_name a) (ua_device a) (ua_profile a)
       (cf_subnet (ce_cfg e)) db1 = Inr (sp, cw_db w1)"
    and m: "env_clientMTU h e = Inr m"
    and out: "cw_out w1 = cw_out w @ config_string (client_config (ch_pub h) (ce_cfg e) (ce_id e) sp m)"
    unfolding pub rand by blast
  let ?conf = "config_string (client_config (ch_pub h) (ce_cfg e) (ce_id e) sp m)"
  have env: "store_env (ch_pick h)" using fresh by unfold_locales blast
  note wk = with_user_keeps [OF fresh ok wu]
  note f = wk(1) rand(2) openEnv_subnet [OF e] ap
  note ok1 = store_env.add_peer_ok [OF env f] and look = store_env.add_peer_lookup [OF env f]
  have found: "find_peer (ua_name a) (ua_device a) (ua_profile a) (cw_db w1) = Inr sp" by (simp add: look)
  have other: "find_peer n d p (cw_db w1) = find_peer n d p (cw_db w)"
    if "(n, d, p) \<noteq> (ua_name a, ua_device a, ua_profile a)" for n d p
    using that look wk(2) by auto
  note show_a = parse_any_command [OF a, of "''user show''"] and rm_a = parse_name [OF a, of "''user rm''"]
  obtain w2 where pr: "printClientConfig h e sp (ua_qr a) w1 = (None, w2)" "cw_db w2 = cw_db w1"
      "cw_out w2 = cw_out w1 @ ?conf" using printClientConfig_mtu [OF m] by blast
  have sh: "userShow h path args w1 = (None, w2)" by (simp add: userShow_def show_a e found pr(1))
  have "constraints (cw_db w1)" using ok1 by (simp add: db_ok_def)
  from delete_user_lookup [OF this found] obtain db' where del: "delete_user (ua_name a) (cw_db w1) = Inr db'"
      and gone: "\<And>n d p. find_peer n d p db' = (if n = ua_name a then Inl ErrNotFound else find_peer n d p (cw_db w1))"
    by blast
  let ?w3 = "nudgeDaemon h e (w2\<lparr>cw_db := db'\<rparr>)"
  have rm: "userRemove h path [ua_name a] w2 = (None, ?w3)" by (simp add: userRemove_def rm_a e del pr(2))
  have sh3: "userShow h path args ?w3 = (Some (PeerFailed (ua_name a) (ua_device a) (ua_profile a) ErrNotFound), ?w3)"
    by (simp add: userShow_def show_a e gone)
  have last: "find_peer n d p (cw_db ?w3) = find_peer n d p (cw_db w)" if "n \<noteq> ua_name a" for n d p
    using that gone other by simp
  show ?thesis
    by (rule exI [of _ a], rule exI [of _ ?conf], rule exI [of _ w2], rule exI [of _ ?w3])
      (use show_a ok1 out sh pr other rm sh3 last in blast)
qed


section \<open>A host\<close>

definition sample_host :: cmd_host where
  "sample_host =
     \<lparr>ch_getenv = \<lambda>_. [], ch_read_file = \<lambda>_. Some (config_string sample_config), ch_yaml = \<lambda>_ _. Some run_settings,
      ch_identity = \<lambda>_. Inr \<lparr>id_private = zero_key, id_params = zero_params\<rparr>, ch_open = \<lambda>_. None,
      ch_lookup = \<lambda>_. Some [V4 1], ch_pick = next_rowid, ch_pub = key_public (\<lambda>k. k), ch_rand = Some (replicate 32 1),
      ch_created = ''now'', ch_now = zero_time, ch_json = \<lambda>_. None, ch_version = ''dev''\<rparr>"

definition sample_world :: cmd_world where
  "sample_world = \<lparr>cw_db = sample_db, cw_out = [], cw_rows = [], cw_codes = [], cw_signals = []\<rparr>"

lemma run_settings_valid: "validate run_settings = None"
proof -
  have "upstreams_valid [run_upstream]" "profiles_valid [run_upstream] [\<lparr>pr_name = ''main'', pr_prefer = []\<rparr>]"
    by (simp_all add: run_upstream_def upstreams_valid_def upstreamNameRe_def name_matches_def lower_alnum_def
        is_digit_def profiles_valid_def profileNameRe_def)
  then show ?thesis
    using sample_settings_valid unfolding validate_iff config_valid_def by (simp add: run_settings_def)
qed

lemma sample_env: "openEnv sample_host [] = Inr \<lparr>ce_cfg = run_settings, ce_id = \<lparr>id_private = zero_key, id_params = zero_params\<rparr>\<rparr>"
  by (simp add: openEnv_def load_cfg_def load_config_def parse_config_def sample_host_def run_settings_valid)

lemma sample_args:
  "parseUserArgs c [''anna'', ''-profile'', ''main''] True =
     Inr \<lparr>ua_name = ''anna'', ua_device = DefaultDevice, ua_profile = ''main'', ua_deviceSet = False, ua_qr = False\<rparr>"
proof -
  have "parse_flags user_flags [''-profile'', ''main''] = Inr ([(''profile'', ''main'')], [])"
    using parse_string_flag [of user_flags "''profile''" "''main''" "[]"] by (simp add: user_flags_def)
  then show ?thesis by (simp add: parseUserArgs_def flag_var_def)
qed

lemma sample_run: "\<exists>w1. userAdd sample_host [] [''anna'', ''-profile'', ''main''] sample_world = (None, w1)"
proof -
  let ?e = "\<lparr>ce_cfg = run_settings, ce_id = \<lparr>id_private = zero_key, id_params = zero_params\<rparr>\<rparr>"
  obtain up where up: "load_upstream (\<lambda>_. Some (config_string sample_config)) (\<lambda>_. Some [V4 1]) run_upstream (cf_health run_settings) = Inr up"
    using run_load by blast
  obtain m where m: "env_clientMTU sample_host ?e = Inr m"
    using up by (simp add: env_clientMTU_def sample_host_def run_settings_def)
  obtain sp db where sp: "sample_add sample_db = Inr (sp, db)" using sample_add_Inr by blast
  have cu: "create_user next_rowid ''now'' ''anna'' sample_db = Inl ErrExists" by (simp add: create_user_def sample_db_def)
  obtain w2 where pr: "printClientConfig sample_host ?e sp False (sample_world\<lparr>cw_db := db\<rparr>) = (None, w2)"
    using printClientConfig_mtu [OF m] by blast
  have fields: "ch_pick sample_host = next_rowid" "ch_pub sample_host = key_public (\<lambda>k. k)"
    "ch_rand sample_host = Some (replicate 32 1)" "ch_created sample_host = ''now''" by (simp_all add: sample_host_def)
  have cfg: "cf_subnet run_settings = Prefix (V4 0x0A4D0000) 16" "config_profile run_settings ''main'' \<noteq> None"
    by (simp_all add: run_settings_def sample_settings_def default_config_def config_profile_def)
  have w: "cw_db sample_world = sample_db" "sample_world\<lparr>cw_db := sample_db\<rparr> = sample_world" by (simp_all add: sample_world_def)
  show ?thesis using sp cu pr cfg by (simp add: userAdd_def sample_args sample_env fields w)
qed

theorem user_lifecycle_witness:
  "\<exists>w1 w2 w3. userAdd sample_host [] [''anna'', ''-profile'', ''main''] sample_world = (None, w1) \<and>
    userShow sample_host [] [''anna'', ''-profile'', ''main''] w1 = (None, w2) \<and> cw_out w2 = cw_out w1 @ cw_out w1 \<and>
    userRemove sample_host [] [''anna''] w2 = (None, w3) \<and>
    userShow sample_host [] [''anna'', ''-profile'', ''main''] w3 = (Some (PeerFailed ''anna'' DefaultDevice ''main'' ErrNotFound), w3)"
proof -
  obtain w1 where add: "userAdd sample_host [] [''anna'', ''-profile'', ''main''] sample_world = (None, w1)"
    using sample_run by blast
  have h: "\<forall>S. finite S \<longrightarrow> ch_pick sample_host S \<notin> S" "ch_pub sample_host = key_public (\<lambda>k. k)"
    "ch_rand sample_host = Some (replicate 32 1)" by (simp_all add: sample_host_def next_rowid_fresh)
  have ok: "db_ok (key_public (\<lambda>k. k)) (cw_db sample_world)" by (simp add: sample_world_def sample_db_ok)
  have "cw_out sample_world = []" by (simp add: sample_world_def)
  with user_lifecycle [OF h(1) ok h(2,3) _ add] add show ?thesis by (auto simp: sample_args)
qed

end
