(* ===== verification/Daemon_Cycle.thy ===== *)
theory Daemon_Cycle
  imports Daemon_Runs
begin

text \<open>
  \<open>Run\<close> of \<open>internal/daemon/daemon.go\<close>. A round is \<open>probeAll\<close> followed by \<open>Reconcile\<close>; the results of its probes are given in the
  order in which they are applied, each for an upstream in service, which is the order the mutex gives them when nothing
  else runs between. Calls from other goroutines in between are steps of \<open>daemon_step\<close>, of which a round is a sequence.
\<close>

fun probe_all :: "('w, 'e) host \<Rightarrow> (nat \<times> int option) list \<Rightarrow> ('w, 'e) dstate \<Rightarrow> ('w, 'e) dstate" where
  "probe_all host [] st = st"
| "probe_all host ((i, r) # rs) st = probe_all host rs (probe_upstream host r i st)"

definition run_round :: "('w, 'e) host \<Rightarrow> (nat \<times> int option) list \<Rightarrow> ('w, 'e) dstate \<Rightarrow> ('w, 'e) dstate" where
  "run_round host rs st = snd (reconcile host (probe_all host rs st))"

text \<open>The result, the state after \<open>stop\<close>, and whether \<open>Ready\<close> was closed, which the first round does.\<close>

definition daemon_run ::
  "('w, 'e) host \<Rightarrow> (nat \<times> int option) list \<Rightarrow> (nat \<times> int option) list list \<Rightarrow> ('w, 'e) dstate \<Rightarrow>
   'e daemon_error option \<times> ('w, 'e) dstate \<times> bool" where
  "daemon_run host first others st =
     (case start host st of
        (Some e, st1) \<Rightarrow> (Some e, stop host st1, False)
      | (None, st1) \<Rightarrow> (None, stop host (foldl (\<lambda>st rs. run_round host rs st) st1 (first # others)), True))"

text \<open>The store's answer names every key once and, for a key that is on the device, the address it has there.\<close>

definition store_stable :: "('w, 'e) host \<Rightarrow> ('w, 'e) dstate \<Rightarrow> bool" where
  "store_stable host st \<longleftrightarrow>
     (\<forall>ps. hs_list_peers host (snd st) = Inr ps \<longrightarrow> keys_stable (fst st) ps \<and> distinct (map sp_public ps))"

lemma probe_upstream_length: "length (d_ups (fst (probe_upstream host r i st))) = length (d_ups (fst st))"
proof -
  obtain u d w where pr: "probe_result host r (d_ups (fst st) ! i) st = (u, d, w)" by (metis prod.exhaust)
  have "d_ups d = d_ups (fst st)"
    using probe_result_intact [OF pr, of UNIV] by simp
  then show ?thesis by (simp add: probe_upstream_def pr)
qed

lemma probe_all_steps:
  "\<forall>(i, r) \<in> set rs. i < length (d_ups (fst st)) \<Longrightarrow> (daemon_step host fwd)\<^sup>*\<^sup>* st (probe_all host rs st)"
proof (induction rs arbitrary: st)
  case (Cons ir rs)
  obtain i r where ir: "ir = (i, r)" by (cases ir)
  with Cons.prems have "daemon_step host fwd st (probe_upstream host r i st)" by (simp add: daemon_step.Probed)
  moreover have "(daemon_step host fwd)\<^sup>*\<^sup>* (probe_upstream host r i st) (probe_all host rs (probe_upstream host r i st))"
    using Cons.prems by (intro Cons.IH) (simp add: probe_upstream_length)
  ultimately show ?case by (simp add: ir converse_rtranclp_into_rtranclp)
qed simp

lemma reconcile_step: "store_stable host st \<Longrightarrow> daemon_step host fwd st (snd (reconcile host st))"
  by (rule daemon_step.Reconciled [where es = "fst (reconcile host st)"]) (simp_all add: store_stable_def)

lemma run_round_steps:
  assumes "\<forall>(i, r) \<in> set rs. i < length (d_ups (fst st))" and "store_stable host (probe_all host rs st)"
  shows "(daemon_step host fwd)\<^sup>*\<^sup>* st (run_round host rs st)"
  unfolding run_round_def
  by (rule rtranclp.rtrancl_into_rtrancl [OF probe_all_steps [OF assms(1)] reconcile_step [OF assms(2)]])

end
