(* ===== verification/Daemon_Down.thy ===== *)
theory Daemon_Down
  imports Daemon_Cycle
begin

text \<open>
  The downstream device is created by \<open>start\<close> and never given up afterwards: no other operation of the daemon changes
  \<open>d_down\<close>, the pointer \<open>down\<close> of \<open>internal/daemon/daemon.go\<close> being nil or not. A reconciliation that would call
  a method through the nil pointer is one before \<open>start\<close>.
\<close>

section \<open>Routes and peers\<close>

lemma unroute_down: "unroute host ip st = (es, st') \<Longrightarrow> d_down (fst st') = d_down (fst st)"
  by (cases st; cases st') (auto elim: unroute_cases)

lemma assign_down: "assign host ip prof st = (es, st') \<Longrightarrow> d_down (fst st') = d_down (fst st)"
  by (cases st; cases st') (auto elim!: assign_cases dest: unroute_down)

lemma route_peer_down: "route_peer host p st = (es, st') \<Longrightarrow> d_down (fst st') = d_down (fst st)"
  by (erule route_peer_via) (auto dest!: unroute_down assign_down)

lemma add_device_peer_down: "add_device_peer host p st = (es, st') \<Longrightarrow> d_down (fst st') = d_down (fst st)"
  by (erule add_device_peer_cases) auto

lemma revoke_loop_down: "revoke_loop host wanted l st = (es, st') \<Longrightarrow> d_down (fst st') = d_down (fst st)"
proof (induction l arbitrary: st es)
  case (Cons kp l)
  obtain k p where kp: "kp = (k, p)" by (cases kp)
  have rm: "fst st1 = fst st" if "remove_peer host k st = (e1, st1)" for e1 st1 using that by (rule remove_peer_frame)
  from Cons.prems [unfolded kp] show ?case
  proof (cases rule: revoke_cases)
    case kept
    from kept(2) show ?thesis by (rule Cons.IH)
  next
    case (stuck e1 st1 e2 st2 es')
    with Cons.IH [OF stuck(5)] unroute_down [OF stuck(3)] rm show ?thesis by simp
  next
    case (gone st1 st2)
    with Cons.IH [OF gone(4)] unroute_down [OF gone(3)] rm show ?thesis by simp
  qed
qed simp

lemma admit_loop_down: "admit_loop host held ps st = (es, st') \<Longrightarrow> d_down (fst st') = d_down (fst st)"
proof (induction ps arbitrary: st es)
  case (Cons p ps)
  from Cons.prems show ?case
    by (cases rule: admit_cases) (auto dest: Cons.IH route_peer_down add_device_peer_down)
qed simp

lemma reconcile_down: "d_down (fst (snd (reconcile host st))) = d_down (fst st)"
  by (auto simp: reconcile_def Let_def split: sum.splits prod.splits dest!: revoke_loop_down admit_loop_down)

section \<open>Probes\<close>

lemma apply_alive_down: "d_down (fst (snd (apply_alive host u st))) = d_down (fst st)"
  by (cases st) (auto simp: apply_alive_def split: prod.splits option.splits)

lemma probe_observed_down: "d_down (fst (snd (probe_observed host r u st))) = d_down (fst st)"
  by (simp add: probe_observed_def countProbe_def apply_alive_down Let_def split: prod.splits)

lemma probe_result_down: "probe_result host r u st = (u', st') \<Longrightarrow> d_down (fst st') = d_down (fst st)"
  using probe_observed_down [of host r u st] by (auto simp: probe_result_def split: prod.splits option.splits if_splits)

lemma probe_upstream_down: "d_down (fst (probe_upstream host r i st)) = d_down (fst st)"
  by (auto simp: probe_upstream_def split: prod.splits dest: probe_result_down)

section \<open>Reload\<close>

lemma unroute_named_down: "d_down (fst (unroute_named host name l st)) = d_down (fst st)"
proof (induction l arbitrary: st)
  case (Cons a l)
  have "d_down (fst (snd (unroute host ip st))) = d_down (fst st)" for ip
    by (cases "unroute host ip st") (auto dest: unroute_down)
  then show ?case by (cases a) (simp add: Cons.IH)
qed simp

lemma dropUpstream_down: "d_down (fst (dropUpstream host u st)) = d_down (fst st)"
proof -
  obtain d w where "unroute_named host (up_name u) (d_assignments (fst st)) st = (d, w)" by fastforce
  with unroute_named_down [of host "up_name u" "d_assignments (fst st)" st] show ?thesis by (simp add: dropUpstream_def)
qed

lemma reload_loop_down:
  "reload_loop host h us current acc errs st = (left, ups, errs', st') \<Longrightarrow> d_down (fst st') = d_down (fst st)"
proof (induction us arbitrary: current acc errs st)
  case (Cons u us)
  then show ?case
    by (auto simp: Let_def dropUpstream_down split: option.splits prod.splits sum.splits if_splits dest!: Cons.IH)
qed simp

lemma drop_all_down: "d_down (fst (drop_all host l st)) = d_down (fst st)"
proof (induction l arbitrary: st)
  case (Cons e l)
  obtain n u where "e = (n, u)" by (cases e)
  with Cons.IH [of "dropUpstream host u st"] show ?case by (simp add: dropUpstream_down)
qed simp

lemma revive_down: "revive host us st = (es, st') \<Longrightarrow> d_down (fst st') = d_down (fst st)"
proof (induction us arbitrary: st es)
  case (Cons u us)
  obtain r w1 where up: "hs_up host (device_name u) (snd st) = (r, w1)" by fastforce
  obtain e1 st1 where al: "apply_alive host u (fst st, w1) = (e1, st1)" by (metis prod.exhaust)
  obtain es2 st2 where rv: "revive host us st1 = (es2, st2)" by (metis prod.exhaust)
  from Cons.prems up al rv have "revive host us st1 = (es2, st')" by simp
  from Cons.IH [OF this] apply_alive_down [of host u "(fst st, w1)"] al show ?case by simp
qed simp

lemma reload_down: "d_down (fst (snd (reload host cfg st))) = d_down (fst st)"
proof -
  obtain d w where st: "st = (d, w)" by (cases st)
  obtain es st' where eq: "reload host cfg (d, w) = (es, st')" by (cases "reload host cfg (d, w)") blast
  have drop: "d_down d2 = d_down (fst st1)" if "drop_all host left st1 = (d2, w2)" for left st1 d2 w2
    using drop_all_down [of host left st1] that by simp
  from eq have "d_down (fst st') = d_down d"
    by (cases rule: reload_cases) (auto dest!: reload_loop_down drop revive_down)
  with st eq show ?thesis by simp
qed

section \<open>Start and stop\<close>

lemma open_all_down: "open_all host us st = (r, st') \<Longrightarrow> d_down (fst st') = d_down (fst st)"
proof (induction us arbitrary: st)
  case (Cons u us)
  then show ?case by (auto split: prod.splits sum.splits dest: Cons.IH)
qed simp

lemma start_down: "start host st = (None, st') \<Longrightarrow> d_down (fst st')"
proof -
  assume eq: "start host st = (None, st')"
  obtain d w where st: "st = (d, w)" by (cases st)
  from eq [unfolded st] show ?thesis
    by (cases rule: start_cases) (auto dest: open_all_down)
qed

lemma stop_frame: "fst (stop host st) = fst st"
  by (simp add: stop_def Let_def split: prod.splits)

end
