(* ===== verification/Cmd_Serve.thy ===== *)
theory Cmd_Serve
  imports Cmd_User Daemon_Down Daemon_World
begin

text \<open>
  \<open>serve_linux.go\<close> of \<open>cmd/lotsman\<close> with \<open>writeStatus\<close> of \<open>status.go\<close>: the service process. Its three goroutines are
  the relations \<open>main_step\<close> (\<open>serve\<close> and \<open>Run\<close>), \<open>hup_step\<close> (\<open>handleHUP\<close>) and \<open>status_step\<close> (\<open>publishStatus\<close>); a step
  is what one of them does while it holds the daemon's mutex, or one call of the system. \<open>serve_step\<close> interleaves them with
  the signals of others. A signal that no goroutine has asked for has its default action: it kills the process. So does a call
  through the nil pointer \<open>down\<close>. The HTTP listener of \<open>serveMetrics\<close> is not modelled: it reads \<open>Metrics\<close> only.
\<close>

section \<open>The process\<close>

datatype 'e serve_error = PidFailed | RunFailed "'e daemon_error"

datatype 'e main_phase =
    Opening
  | Announced
  | Starting
  | Probing nat
  | Waiting
  | Stopping "'e daemon_error option"
  | Stopped "'e daemon_error option"
  | Leaving "'e daemon_error option"
  | Exited "'e serve_error option"
  | Killed
  | Panicked

datatype hup_phase = HupOff | HupSpawned | HupIdle | HupLoaded "cmd_error + config" | HupReconcile | HupGone

datatype status_phase =
    StatusOff
  | StatusWaiting
  | StatusDue
  | StatusTaken daemon_status
  | StatusWritten
  | StatusIdle
  | StatusGone

record ('w, 'e) serving =
  sv_main :: "'e main_phase"
  sv_hup :: hup_phase
  sv_pending :: bool
  sv_status :: status_phase
  sv_cancelled :: bool
  sv_ready :: bool
  sv_files :: "(string \<times> string) list"
  sv_daemon :: "('w, 'e) dstate"

text \<open>What surrounds the process: the daemon's host, \<open>config.Load\<close>, whether an error is \<open>context.Canceled\<close>, the reports of the devices, the order of the
  status, the JSON encoder, the state directory and the process id.\<close>

record ('w, 'e, 'x) serve_env =
  se_host :: "('w, 'e) host"
  se_load :: "'w \<Rightarrow> cmd_error + config"
  se_is_canceled :: "'e daemon_error \<Rightarrow> bool"
  se_reports :: "'w \<Rightarrow> 'x peer_reports"
  se_sort :: "client_status list \<Rightarrow> client_status list"
  se_encode :: "status_file \<Rightarrow> string"
  se_dir :: string
  se_pid :: int

definition alive :: "('w, 'e) serving \<Rightarrow> bool" where
  "alive s \<longleftrightarrow> (case sv_main s of Exited _ \<Rightarrow> False | Killed \<Rightarrow> False | Panicked \<Rightarrow> False | _ \<Rightarrow> True)"

definition exit_error :: "('w, 'e, 'x) serve_env \<Rightarrow> 'e daemon_error option \<Rightarrow> 'e serve_error option" where
  "exit_error env r =
     (case r of None \<Rightarrow> None | Some e \<Rightarrow> if se_is_canceled env e then None else Some (RunFailed e))"

definition pid_text :: "int \<Rightarrow> string" where
  "pid_text pid = show_int pid"

definition status_tmp :: "string \<Rightarrow> string" where
  "status_tmp dir = statusPath dir @ ''.tmp''"

definition status_now :: "gotime \<Rightarrow> daemon_status \<Rightarrow> 'e daemon \<Rightarrow> status_file" where
  "status_now now st d =
     \<lparr>sf_updated = now, sf_mtu = daemon_mtu d, sf_upstreams = st_upstreams st, sf_peers = st_peers st\<rparr>"

section \<open>The main goroutine\<close>

text \<open>From the environment that \<open>openEnv\<close> opened: the pid file, the goroutines, \<open>Run\<close> with its rounds, and the deferred
  calls, of which the first (\<open>stop\<close> of \<open>signal.NotifyContext\<close>) cancels the context and leads to \<open>Leaving\<close>.
  \<open>Announced\<close> lies between the pid file and \<open>signal.NotifyContext\<close>. A round probes as many upstreams as were in
  service when it began; a probe whose upstream a reload has replaced meanwhile is \<open>Late\<close>. The wait ends with the interval, with
  \<open>wake\<close>, or with the context.\<close>

inductive main_step :: "('w, 'e, 'x) serve_env \<Rightarrow> ('w, 'e) serving \<Rightarrow> ('w, 'e) serving \<Rightarrow> bool" for env where
  WritePid: "sv_main s = Opening \<Longrightarrow>
    main_step env s (s\<lparr>sv_main := Announced, sv_files := mput (pidPath (se_dir env)) (pid_text (se_pid env)) (sv_files s)\<rparr>)"
| WritePidFailed: "sv_main s = Opening \<Longrightarrow> main_step env s (s\<lparr>sv_main := Exited (Some PidFailed)\<rparr>)"
| Spawn: "sv_main s = Announced \<Longrightarrow>
    main_step env s (s\<lparr>sv_main := Starting, sv_hup := HupSpawned, sv_status := StatusWaiting\<rparr>)"
| Start: "sv_main s = Starting \<Longrightarrow> start (se_host env) (sv_daemon s) = (None, st) \<Longrightarrow>
    main_step env s (s\<lparr>sv_main := Probing (length (d_ups (fst st))), sv_daemon := st\<rparr>)"
| StartFailed: "sv_main s = Starting \<Longrightarrow> start (se_host env) (sv_daemon s) = (Some e, st) \<Longrightarrow>
    main_step env s (s\<lparr>sv_main := Stopping (Some e), sv_daemon := st\<rparr>)"
| Probe: "sv_main s = Probing (Suc n) \<Longrightarrow> i < length (d_ups (fst (sv_daemon s))) \<Longrightarrow>
    main_step env s (s\<lparr>sv_main := Probing n, sv_daemon := probe_upstream (se_host env) r i (sv_daemon s)\<rparr>)"
| Late: "sv_main s = Probing (Suc n) \<Longrightarrow> probe_result (se_host env) r u (sv_daemon s) = (u', st) \<Longrightarrow>
    main_step env s (s\<lparr>sv_main := Probing n, sv_daemon := st\<rparr>)"
| RoundEnd: "sv_main s = Probing 0 \<Longrightarrow> store_stable (se_host env) (sv_daemon s) \<Longrightarrow>
    main_step env s (s\<lparr>sv_main := Waiting, sv_ready := True, sv_daemon := snd (reconcile (se_host env) (sv_daemon s))\<rparr>)"
| Interval: "sv_main s = Waiting \<Longrightarrow> main_step env s (s\<lparr>sv_main := Probing (length (d_ups (fst (sv_daemon s))))\<rparr>)"
| Wake: "sv_main s = Waiting \<Longrightarrow> sv_daemon s = (d, w) \<Longrightarrow> d_wake d \<Longrightarrow>
    main_step env s (s\<lparr>sv_main := Probing (length (d_ups d)), sv_daemon := (d\<lparr>d_wake := False\<rparr>, w)\<rparr>)"
| Done: "sv_main s = Waiting \<Longrightarrow> sv_cancelled s \<Longrightarrow> main_step env s (s\<lparr>sv_main := Stopping None\<rparr>)"
| Stop: "sv_main s = Stopping e \<Longrightarrow>
    main_step env s (s\<lparr>sv_main := Stopped e, sv_daemon := stop (se_host env) (sv_daemon s)\<rparr>)"
| Cancel: "sv_main s = Stopped e \<Longrightarrow> main_step env s (s\<lparr>sv_main := Leaving e, sv_cancelled := True\<rparr>)"
| Exit: "sv_main s = Leaving e \<Longrightarrow>
    main_step env s (s\<lparr>sv_main := Exited (exit_error env e), sv_files := mdel (pidPath (se_dir env)) (sv_files s)\<rparr>)"

section \<open>The goroutine of the hangups\<close>

text \<open>A reconciliation before \<open>start\<close> has no device to configure, and no peer to revoke either: it panics on the first peer
  of the store.\<close>

definition panics :: "('w, 'e) host \<Rightarrow> ('w, 'e) dstate \<Rightarrow> bool" where
  "panics host st \<longleftrightarrow>
     \<not> d_down (fst st) \<and> (case hs_list_peers host (snd st) of Inl _ \<Rightarrow> False | Inr peers \<Rightarrow> peers \<noteq> [])"

inductive hup_step :: "('w, 'e, 'x) serve_env \<Rightarrow> ('w, 'e) serving \<Rightarrow> ('w, 'e) serving \<Rightarrow> bool" for env where
  Notify: "sv_hup s = HupSpawned \<Longrightarrow> hup_step env s (s\<lparr>sv_hup := HupIdle\<rparr>)"
| Load: "sv_hup s = HupIdle \<Longrightarrow> sv_pending s \<Longrightarrow>
    hup_step env s (s\<lparr>sv_hup := HupLoaded (se_load env (snd (sv_daemon s))), sv_pending := False\<rparr>)"
| NotLoaded: "sv_hup s = HupLoaded (Inl e) \<Longrightarrow> hup_step env s (s\<lparr>sv_hup := HupReconcile\<rparr>)"
| Reload: "sv_hup s = HupLoaded (Inr cfg) \<Longrightarrow>
    hup_step env s (s\<lparr>sv_hup := HupReconcile, sv_daemon := snd (reload (se_host env) cfg (sv_daemon s))\<rparr>)"
| Reconcile: "sv_hup s = HupReconcile \<Longrightarrow> \<not> panics (se_host env) (sv_daemon s) \<Longrightarrow> store_stable (se_host env) (sv_daemon s) \<Longrightarrow>
    hup_step env s (s\<lparr>sv_hup := HupIdle, sv_daemon := snd (reconcile (se_host env) (sv_daemon s))\<rparr>)"
| Panic: "sv_hup s = HupReconcile \<Longrightarrow> panics (se_host env) (sv_daemon s) \<Longrightarrow> hup_step env s (s\<lparr>sv_main := Panicked\<rparr>)"
| Gone: "sv_hup s = HupIdle \<Longrightarrow> sv_cancelled s \<Longrightarrow> hup_step env s (s\<lparr>sv_hup := HupGone\<rparr>)"

section \<open>The goroutine of the status file\<close>

text \<open>\<open>Status\<close> and \<open>ClientMTU\<close> take the mutex one after the other. A failed write leaves what it has written of the
  temporary file.\<close>

inductive status_step :: "('w, 'e, 'x) serve_env \<Rightarrow> ('w, 'e) serving \<Rightarrow> ('w, 'e) serving \<Rightarrow> bool" for env where
  Ready: "sv_status s = StatusWaiting \<Longrightarrow> sv_ready s \<Longrightarrow> status_step env s (s\<lparr>sv_status := StatusDue\<rparr>)"
| NeverReady: "sv_status s = StatusWaiting \<Longrightarrow> sv_cancelled s \<Longrightarrow> status_step env s (s\<lparr>sv_status := StatusGone\<rparr>)"
| Take: "sv_status s = StatusDue \<Longrightarrow> sv_daemon s = (d, w) \<Longrightarrow>
    status_step env s (s\<lparr>sv_status := StatusTaken (daemon_status (se_sort env) now (se_reports env w) d)\<rparr>)"
| Write: "sv_status s = StatusTaken st \<Longrightarrow>
    status_step env s (s\<lparr>sv_status := StatusWritten,
      sv_files := mput (status_tmp (se_dir env)) (se_encode env (status_now now st (fst (sv_daemon s)))) (sv_files s)\<rparr>)"
| WriteFailed: "sv_status s = StatusTaken st \<Longrightarrow>
    files \<in> {sv_files s, mput (status_tmp (se_dir env)) part (sv_files s)} \<Longrightarrow>
    status_step env s (s\<lparr>sv_status := StatusIdle, sv_files := files\<rparr>)"
| Rename: "sv_status s = StatusWritten \<Longrightarrow> map_of (sv_files s) (status_tmp (se_dir env)) = Some text \<Longrightarrow>
    status_step env s (s\<lparr>sv_status := StatusIdle,
      sv_files := mput (statusPath (se_dir env)) text (mdel (status_tmp (se_dir env)) (sv_files s))\<rparr>)"
| RenameFailed: "sv_status s = StatusWritten \<Longrightarrow> status_step env s (s\<lparr>sv_status := StatusIdle\<rparr>)"
| Tick: "sv_status s = StatusIdle \<Longrightarrow> status_step env s (s\<lparr>sv_status := StatusDue\<rparr>)"
| Remove: "sv_status s = StatusIdle \<Longrightarrow> sv_cancelled s \<Longrightarrow>
    status_step env s (s\<lparr>sv_status := StatusGone, sv_files := mdel (statusPath (se_dir env)) (sv_files s)\<rparr>)"

section \<open>The process among others\<close>

text \<open>\<open>sent\<close> is a hangup, \<open>terminated\<close> an interrupt or a termination. The channel of the hangups holds one. \<open>fwd\<close> is what
  the world forwards, as in \<open>daemon_step\<close>: changes of the world by others leave it alone.\<close>

definition sent :: "('w, 'e) serving \<Rightarrow> ('w, 'e) serving" where
  "sent s = (if sv_hup s \<in> {HupOff, HupSpawned, HupGone} then s\<lparr>sv_main := Killed\<rparr> else s\<lparr>sv_pending := True\<rparr>)"

definition terminated :: "('w, 'e) serving \<Rightarrow> ('w, 'e) serving" where
  "terminated s =
     (case sv_main s of
        Opening \<Rightarrow> s\<lparr>sv_main := Killed\<rparr>
      | Announced \<Rightarrow> s\<lparr>sv_main := Killed\<rparr>
      | Leaving _ \<Rightarrow> s\<lparr>sv_main := Killed\<rparr>
      | _ \<Rightarrow> s\<lparr>sv_cancelled := True\<rparr>)"

inductive serve_step ::
  "('w, 'e, 'x) serve_env \<Rightarrow> ('w \<Rightarrow> addr \<Rightarrow> string option) \<Rightarrow> ('w, 'e) serving \<Rightarrow> ('w, 'e) serving \<Rightarrow> bool" for env fwd where
  Main: "alive s \<Longrightarrow> main_step env s s' \<Longrightarrow> serve_step env fwd s s'"
| Hup: "alive s \<Longrightarrow> hup_step env s s' \<Longrightarrow> serve_step env fwd s s'"
| Status: "alive s \<Longrightarrow> status_step env s s' \<Longrightarrow> serve_step env fwd s s'"
| Sent: "alive s \<Longrightarrow> serve_step env fwd s (sent s)"
| Terminated: "alive s \<Longrightarrow> serve_step env fwd s (terminated s)"
| Others: "sv_daemon s = (d, w) \<Longrightarrow> fwd w' = fwd w \<Longrightarrow> serve_step env fwd s (s\<lparr>sv_daemon := (d, w')\<rparr>)"

definition serve_init :: "cmd_env \<Rightarrow> (string \<times> string) list \<Rightarrow> 'w \<Rightarrow> ('w, 'e) serving" where
  "serve_init e files w =
     \<lparr>sv_main = Opening, sv_hup = HupOff, sv_pending = False, sv_status = StatusOff, sv_cancelled = False, sv_ready = False,
      sv_files = files, sv_daemon = (new_daemon (ce_cfg e) (ce_id e), w)\<rparr>"

inductive_cases main_stepE: "main_step env s s'"
inductive_cases hup_stepE: "hup_step env s s'"
inductive_cases status_stepE: "status_step env s s'"
inductive_cases serve_stepE: "serve_step env fwd s s'"

section \<open>The three files are distinct\<close>

lemma join_last: "xs \<noteq> [] \<Longrightarrow> \<exists>a. join sep xs = a @ last xs"
proof (induction sep xs rule: join.induct)
  case (3 sep p q ps)
  then obtain a where "join sep (q # ps) = a @ last (q # ps)" by blast
  then show ?case by (intro exI [of _ "p @ sep @ a"]) simp
qed auto

lemma clean_parts_last:
  "name \<notin> {[], ''.'', ''..''} \<Longrightarrow> \<exists>qs. clean_parts rooted (ps @ [name]) acc = name # qs"
  by (induction ps arbitrary: acc) simp_all

lemma split_on_last:
  assumes "c \<notin> set name"
  shows "\<exists>ps. split_on c (dir @ c # name) = ps @ [name]"
proof (induction dir)
  case Nil
  show ?case using split_on_single [OF assms] by (intro exI [of _ "[[]]"]) simp
next
  case (Cons x dir)
  then obtain ps where ps: "split_on c (dir @ c # name) = ps @ [name]" by blast
  show ?case
  proof (cases "x = c")
    case True
    with ps show ?thesis by (intro exI [of _ "[] # ps"]) simp
  next
    case False
    have "ps \<noteq> []"
    proof
      assume "ps = []"
      with ps have one: "split_on c (dir @ c # name) = [name]" by simp
      have "length (split_on c (a @ c # b)) \<ge> 2" for a b
        using split_on_nonempty [of c b] by (induction a) (auto split: list.split simp: Suc_le_eq)
      from this [of dir name] one show False by simp
    qed
    then obtain q qs where "ps = q # qs" by (cases ps) auto
    with ps False show ?thesis by (intro exI [of _ "(x # q) # qs"]) simp
  qed
qed

lemma path_join_ends:
  assumes "CHR ''/'' \<notin> set name" and "name \<notin> {[], ''.'', ''..''}"
  shows "\<exists>a. path_join dir name = a @ name"
proof -
  have "\<exists>ps. split_on (CHR ''/'') (if dir = [] then name else dir @ ''/'' @ name) = ps @ [name]"
    using split_on_last [OF assms(1), of dir] split_on_single [OF assms(1)] by auto
  then obtain ps where ps: "split_on (CHR ''/'') (if dir = [] then name else dir @ ''/'' @ name) = ps @ [name]" by blast
  let ?s = "if dir = [] then name else dir @ ''/'' @ name"
  let ?r = "has_prefix ?s ''/''"
  obtain qs where qs: "clean_parts ?r (ps @ [name]) [] = name # qs" using clean_parts_last [OF assms(2)] by blast
  then have "rev (clean_parts ?r (ps @ [name]) []) \<noteq> []" "last (rev (clean_parts ?r (ps @ [name]) [])) = name" by simp_all
  then obtain a where a: "join ''/'' (rev (clean_parts ?r (ps @ [name]) [])) = a @ name" using join_last by metis
  have "path_join dir name = (if ?r then (CHR ''/'' # a) @ name else a @ name)"
    unfolding path_join_def path_clean_def Let_def ps a using assms(2) by simp
  then show ?thesis by metis
qed

lemma serve_paths [simp]:
  "pidPath dir \<noteq> statusPath dir" "pidPath dir \<noteq> status_tmp dir" "statusPath dir \<noteq> status_tmp dir"
  "statusPath dir \<noteq> pidPath dir" "status_tmp dir \<noteq> pidPath dir" "status_tmp dir \<noteq> statusPath dir"
proof -
  obtain a where a: "pidPath dir = a @ ''lotsman.pid''" using path_join_ends [of "''lotsman.pid''" dir] by (auto simp: pidPath_def)
  obtain b where b: "statusPath dir = b @ ''status.json''" using path_join_ends [of "''status.json''" dir] by (auto simp: statusPath_def)
  have p: "last (pidPath dir) = CHR ''d''" "last (statusPath dir) = CHR ''n''" "last (status_tmp dir) = CHR ''p''"
    using a b by (simp_all add: status_tmp_def)
  show ne: "pidPath dir \<noteq> statusPath dir" "pidPath dir \<noteq> status_tmp dir" "statusPath dir \<noteq> status_tmp dir"
    by (rule notI, drule arg_cong [where f = last], simp add: p)+
  from ne [symmetric] show "statusPath dir \<noteq> pidPath dir" "status_tmp dir \<noteq> pidPath dir" "status_tmp dir \<noteq> statusPath dir"
    by simp_all
qed

section \<open>The files and the phases\<close>

definition announced :: "'e main_phase \<Rightarrow> bool" where
  "announced m \<longleftrightarrow> (case m of Opening \<Rightarrow> False | Exited _ \<Rightarrow> False | Killed \<Rightarrow> False | Panicked \<Rightarrow> False | _ \<Rightarrow> True)"

definition in_service :: "'e main_phase \<Rightarrow> bool" where
  "in_service m \<longleftrightarrow> (case m of Probing _ \<Rightarrow> True | Waiting \<Rightarrow> True | _ \<Rightarrow> False)"

definition status_due :: "status_phase \<Rightarrow> bool" where
  "status_due p \<longleftrightarrow> (case p of StatusOff \<Rightarrow> False | StatusWaiting \<Rightarrow> False | StatusGone \<Rightarrow> False | _ \<Rightarrow> True)"

text \<open>A whole status, written by \<open>writeStatus\<close>.\<close>

definition is_status :: "('w, 'e, 'x) serve_env \<Rightarrow> string \<Rightarrow> bool" where
  "is_status env text \<longleftrightarrow> (\<exists>now st (d :: 'e daemon). text = se_encode env (status_now now st d))"

definition files_ok :: "('w, 'e, 'x) serve_env \<Rightarrow> ('w, 'e) serving \<Rightarrow> bool" where
  "files_ok env s \<longleftrightarrow>
     (announced (sv_main s) \<longrightarrow> map_of (sv_files s) (pidPath (se_dir env)) = Some (pid_text (se_pid env))) \<and>
     (\<forall>r. sv_main s = Exited r \<longrightarrow> r = Some PidFailed \<or> map_of (sv_files s) (pidPath (se_dir env)) = None) \<and>
     (\<forall>text. map_of (sv_files s) (statusPath (se_dir env)) = Some text \<longrightarrow> sv_ready s \<and> is_status env text) \<and>
     (\<forall>text. sv_status s = StatusWritten \<longrightarrow> map_of (sv_files s) (status_tmp (se_dir env)) = Some text \<longrightarrow> is_status env text) \<and>
     (status_due (sv_status s) \<longrightarrow> sv_ready s)"

definition phases_ok :: "('w, 'e) serving \<Rightarrow> bool" where
  "phases_ok s \<longleftrightarrow>
     (sv_main s \<in> {Opening, Announced} \<longrightarrow> sv_hup s = HupOff \<and> sv_status s = StatusOff) \<and>
     (in_service (sv_main s) \<or> sv_main s = Starting \<longrightarrow> sv_hup s \<noteq> HupOff)"

lemmas phase_defs = announced_def in_service_def alive_def status_due_def

lemma is_status_now [simp]: "is_status env (se_encode env (status_now now st d))"
  for env :: "('w, 'e, 'x) serve_env" and d :: "'e daemon"
  unfolding is_status_def by blast

lemma main_files: "main_step env s s' \<Longrightarrow> alive s \<Longrightarrow> files_ok env s \<and> phases_ok s \<Longrightarrow> files_ok env s' \<and> phases_ok s'"
  by (erule main_stepE) (simp_all add: files_ok_def phases_ok_def phase_defs exit_error_def split: option.split)

lemma hup_files: "hup_step env s s' \<Longrightarrow> files_ok env s \<and> phases_ok s \<Longrightarrow> files_ok env s' \<and> phases_ok s'"
  by (erule hup_stepE) (auto simp: files_ok_def phases_ok_def phase_defs)

lemma status_files: "status_step env s s' \<Longrightarrow> files_ok env s \<and> phases_ok s \<Longrightarrow> files_ok env s' \<and> phases_ok s'"
  by (erule status_stepE) (auto simp: files_ok_def phases_ok_def phase_defs)

lemma serve_files:
  assumes "serve_step env fwd s s'" and ok: "files_ok env s \<and> phases_ok s"
  shows "files_ok env s' \<and> phases_ok s'"
  using assms(1)
proof (cases rule: serve_step.cases)
  case Main
  with main_files ok show ?thesis by blast
next
  case Hup
  with hup_files ok show ?thesis by blast
next
  case Status
  with status_files ok show ?thesis by blast
next
  case Sent
  with ok show ?thesis by (auto simp: sent_def files_ok_def phases_ok_def phase_defs)
next
  case Terminated
  with ok show ?thesis by (auto simp: terminated_def files_ok_def phases_ok_def phase_defs split: main_phase.splits)
next
  case (Others d w w')
  with ok show ?thesis by (simp add: files_ok_def phases_ok_def)
qed

section \<open>The daemon in the process\<close>

text \<open>Before \<open>start\<close> there is no device and no peer; once the service is up the device stays.\<close>

definition serves_ok :: "('w \<Rightarrow> addr \<Rightarrow> string option) \<Rightarrow> ('w, 'e) serving \<Rightarrow> bool" where
  "serves_ok fwd s \<longleftrightarrow>
     (let st = sv_daemon s
      in daemon_ok fwd st \<and> (\<not> d_down (fst st) \<longrightarrow> d_devicePeers (fst st) = []) \<and>
         (sv_main s \<in> {Opening, Announced, Starting} \<longrightarrow> \<not> d_down (fst st)) \<and>
         (in_service (sv_main s) \<longrightarrow> d_down (fst st)))"

lemma daemon_ok_wake [simp]: "daemon_ok fwd (d\<lparr>d_wake := b\<rparr>, w) = daemon_ok fwd (d, w)"
  by (simp add: daemon_ok_def fail_closed_def accounted_def device_addrs_def assigned_live_def live_in_def)

lemma reconcile_idle:
  assumes "\<not> panics host st" and "\<not> d_down (fst st)" and "d_devicePeers (fst st) = []"
  shows "d_devicePeers (fst (snd (reconcile host st))) = []"
  using assms by (auto simp: panics_def reconcile_def Let_def split: sum.splits)

context daemon_host
begin

lemma start_ok:
  assumes eq: "start host (d, w) = (r, st')" and "daemon_ok fwd (d, w)" and "d_devicePeers d = []"
  shows "daemon_ok fwd st' \<and> d_devicePeers (fst st') = []"
proof -
  obtain b ups where st: "fst st' = d\<lparr>d_down := b, d_ups := ups\<rparr>" using start_frame [OF eq] by blast
  have none: "tracked d = {}" using assms(2,3) by (simp add: daemon_ok_def accounted_def device_addrs_def)
  then have "map_of (d_assignments d) a = None" for a unfolding tracked_def by blast
  then have "assigned_live (fst st')" by (simp add: st assigned_live_def live_in_def)
  moreover have "accounted (fst st')" using none assms(3) by (simp add: st accounted_def)
  moreover have "fail_closed fwd st'" by (rule start_closed [OF eq]) (use assms(2) in \<open>simp add: daemon_ok_def\<close>)
  ultimately show ?thesis using assms(3) by (simp add: daemon_ok_def st)
qed

lemma teardown_snd: "fwd w a = None \<Longrightarrow> fwd (snd (dp_teardown (hs_dp host) w)) a = None"
  using teardown_keeps [of w "fst (dp_teardown (hs_dp host) w)" "snd (dp_teardown (hs_dp host) w)" a] by simp

lemma stop_keeps: "fwd (snd st) a = None \<Longrightarrow> fwd (snd (stop host st)) a = None"
proof -
  assume blocked: "fwd (snd st) a = None"
  obtain d w where st: "st = (d, w)" by (cases st)
  obtain r w1 where t: "dp_teardown (hs_dp host) w = (r, w1)" by (cases "dp_teardown (hs_dp host) w")
  have "fwd w1 a = None" using teardown_keeps [OF t] blocked st by simp
  then show ?thesis by (simp add: st t stop_def close_all_fwd close_fwd teardown_snd)
qed

lemma stop_ok: "daemon_ok fwd st \<Longrightarrow> daemon_ok fwd (stop host st)"
proof -
  assume ok: "daemon_ok fwd st"
  have "a \<in> tracked (fst st)" if "fwd (snd (stop host st)) a \<noteq> None" for a
  proof -
    have "fwd (snd st) a \<noteq> None" by (rule notI, drule stop_keeps) (use that in simp)
    with ok show ?thesis by (simp add: daemon_ok_def fail_closed_def)
  qed
  with ok show ?thesis by (simp add: daemon_ok_def fail_closed_def stop_frame)
qed

lemma main_serves:
  assumes "main_step env s s'" and env: "se_host env = host" and ok: "serves_ok fwd s"
  shows "serves_ok fwd s'"
  using assms(1)
proof (cases rule: main_step.cases)
  case (Start st)
  with env start_ok [of "fst (sv_daemon s)" "snd (sv_daemon s)" None st] ok start_down [of host "sv_daemon s" st]
  show ?thesis by (simp add: serves_ok_def Let_def)
next
  case (StartFailed e st)
  with env start_ok [of "fst (sv_daemon s)" "snd (sv_daemon s)" "Some e" st] ok
  show ?thesis by (simp add: serves_ok_def Let_def in_service_def)
next
  case (Probe n i r)
  then have "daemon_ok fwd (probe_upstream host r i (sv_daemon s))"
    using ok daemon_step_ok daemon_step.Probed by (metis serves_ok_def)
  with Probe ok env show ?thesis by (simp add: serves_ok_def Let_def in_service_def probe_upstream_down)
next
  case (Late n r u u' st)
  then have "daemon_ok fwd st" using ok env daemon_step_ok daemon_step.Late by (metis serves_ok_def)
  with Late ok env show ?thesis using probe_result_down [of host r u "sv_daemon s" u' st]
    by (simp add: serves_ok_def Let_def in_service_def)
next
  case RoundEnd
  then have "daemon_ok fwd (snd (reconcile host (sv_daemon s)))"
    using ok env daemon_step_ok reconcile_step by (metis serves_ok_def)
  with RoundEnd ok env show ?thesis by (simp add: serves_ok_def Let_def in_service_def reconcile_down)
next
  case (Stop e)
  with ok env stop_ok show ?thesis by (simp add: serves_ok_def Let_def in_service_def stop_frame)
qed (use ok in \<open>auto simp: serves_ok_def Let_def in_service_def\<close>)

lemma hup_serves:
  assumes "hup_step env s s'" and env: "se_host env = host" and ok: "serves_ok fwd s"
  shows "serves_ok fwd s'"
  using assms(1)
proof (cases rule: hup_step.cases)
  case (Reload cfg)
  obtain d w where st: "sv_daemon s = (d, w)" by (cases "sv_daemon s")
  obtain es st' where eq: "reload host cfg (d, w) = (es, st')" by (cases "reload host cfg (d, w)") blast
  have "daemon_ok fwd st'" using daemon_step_ok [OF daemon_step.Reloaded [OF eq]] ok st by (simp add: serves_ok_def)
  moreover have "d_devicePeers (fst st') = d_devicePeers d"
    using reload_inv [OF eq] ok st by (simp add: serves_ok_def daemon_ok_def)
  moreover have "d_down (fst st') = d_down d" using reload_down [of host cfg "(d, w)"] eq by simp
  ultimately show ?thesis using Reload ok st eq env by (simp add: serves_ok_def Let_def)
next
  case Reconcile
  then have "daemon_ok fwd (snd (reconcile host (sv_daemon s)))"
    using ok env daemon_step_ok reconcile_step by (metis serves_ok_def)
  with Reconcile ok env reconcile_idle [of host "sv_daemon s"] show ?thesis by (simp add: serves_ok_def Let_def reconcile_down)
qed (use ok in \<open>auto simp: serves_ok_def Let_def in_service_def\<close>)

lemma serve_serves:
  assumes "serve_step env fwd s s'" and env: "se_host env = host" and ok: "serves_ok fwd s"
  shows "serves_ok fwd s'"
  using assms(1)
proof (cases rule: serve_step.cases)
  case Main
  with main_serves env ok show ?thesis by blast
next
  case Hup
  with hup_serves env ok show ?thesis by blast
next
  case Status
  from Status(2) ok show ?thesis by (cases rule: status_step.cases) (simp_all add: serves_ok_def)
next
  case Sent
  with ok show ?thesis by (auto simp: sent_def serves_ok_def Let_def in_service_def)
next
  case Terminated
  with ok show ?thesis by (auto simp: terminated_def serves_ok_def Let_def in_service_def split: main_phase.splits)
next
  case (Others d w w')
  have "daemon_ok fwd (d, w')" by (rule daemon_step_ok [OF daemon_step.World [OF Others(3)]]) (use ok Others in \<open>simp add: serves_ok_def\<close>)
  with Others ok show ?thesis by (simp add: serves_ok_def)
qed

lemma serve_run:
  assumes "(serve_step env fwd)\<^sup>*\<^sup>* (serve_init e files w) s" and "se_host env = host" and "\<And>a. fwd w a = None"
    and "map_of files (statusPath (se_dir env)) = None"
  shows "serves_ok fwd s \<and> files_ok env s \<and> phases_ok s"
  using assms(1)
proof (induction rule: rtranclp_induct)
  case base
  have "serves_ok fwd (serve_init e files w)"
    by (simp add: serves_ok_def serve_init_def Let_def in_service_def daemon_ok_def fail_closed_def assms(3) new_daemon_def
        accounted_def assigned_live_def live_in_def tracked_def mget_def)
  with assms(4) show ?case by (simp add: files_ok_def phases_ok_def serve_init_def phase_defs)
next
  case (step s s')
  with serve_serves assms(2) serve_files show ?case by blast
qed

end

end
