(* ===== verification/Cmd_Service.thy ===== *)
theory Cmd_Service
  imports Cmd_Serve
begin

text \<open>
  What the service process guarantees on the in-memory dataplane, however its goroutines, the signals and the world
  interleave, and three executions its author has not planned for: a hangup before the daemon has started, one before its handler is
  installed, and an exit that leaves the status file behind.
\<close>

section \<open>Hangups of user commands\<close>

text \<open>A user command reads the process id and sends the hangup.\<close>

lemma nudge_sends:
  assumes "ch_read_file h = map_of (sv_files s)" and "cf_state_dir (ce_cfg ce) = se_dir env"
    and "map_of (sv_files s) (pidPath (se_dir env)) = Some (pid_text (se_pid env))" and "0 < se_pid env" and "se_pid env < 2 ^ 63"
  shows "cw_signals (nudgeDaemon h ce cw) = cw_signals cw @ [se_pid env]"
  using assms atoi_show_int [of "se_pid env"] by (simp add: nudgeDaemon_def pid_text_def)

text \<open>Left alone, the handler applies what it has loaded and reconciles the database.\<close>

definition hangup_applied :: "('w, 'e, 'x) serve_env \<Rightarrow> ('w, 'e) dstate \<Rightarrow> ('w, 'e) dstate" where
  "hangup_applied env st =
     (case se_load env (snd st) of Inl _ \<Rightarrow> st | Inr cfg \<Rightarrow> snd (reload (se_host env) cfg st))"

definition hangup_result :: "('w, 'e, 'x) serve_env \<Rightarrow> ('w, 'e) dstate \<Rightarrow> ('w, 'e) dstate" where
  "hangup_result env st = snd (reconcile (se_host env) (hangup_applied env st))"

lemma hangup_handled:
  assumes "sv_hup s = HupIdle" and "sv_pending s" and "d_down (fst (sv_daemon s))"
    and "store_stable (se_host env) (hangup_applied env (sv_daemon s))"
  shows "(hup_step env)\<^sup>*\<^sup>* s (s\<lparr>sv_pending := False, sv_daemon := hangup_result env (sv_daemon s)\<rparr>)"
proof -
  let ?st1 = "hangup_applied env (sv_daemon s)"
  let ?s1 = "s\<lparr>sv_hup := HupLoaded (se_load env (snd (sv_daemon s))), sv_pending := False\<rparr>"
  let ?s2 = "?s1\<lparr>sv_hup := HupReconcile, sv_daemon := ?st1\<rparr>"
  have "hup_step env s ?s1" by (rule hup_step.Load [OF assms(1,2)])
  moreover have "hup_step env ?s1 ?s2"
  proof (cases "se_load env (snd (sv_daemon s))")
    case (Inl e)
    then show ?thesis using hup_step.NotLoaded [of ?s1 e env] by (simp add: hangup_applied_def)
  next
    case (Inr cfg)
    then show ?thesis using hup_step.Reload [of ?s1 cfg env] by (simp add: hangup_applied_def)
  qed
  moreover have "hup_step env ?s2 (?s2\<lparr>sv_hup := HupIdle, sv_daemon := snd (reconcile (se_host env) ?st1)\<rparr>)"
  proof -
    have "d_down (fst ?st1)" using assms(3) by (simp add: hangup_applied_def reload_down split: sum.split)
    then have "\<not> panics (se_host env) ?st1" by (simp add: panics_def)
    then show ?thesis using hup_step.Reconcile [of ?s2 env] assms(4) by simp
  qed
  ultimately have "(hup_step env)\<^sup>*\<^sup>* s (?s2\<lparr>sv_hup := HupIdle, sv_daemon := snd (reconcile (se_host env) ?st1)\<rparr>)"
    by (meson converse_rtranclp_into_rtranclp rtranclp.rtrancl_refl)
  moreover have "?s2\<lparr>sv_hup := HupIdle, sv_daemon := snd (reconcile (se_host env) ?st1)\<rparr> =
      s\<lparr>sv_pending := False, sv_daemon := hangup_result env (sv_daemon s)\<rparr>"
    using assms(1) by (simp add: hangup_result_def)
  ultimately show ?thesis by simp
qed

text \<open>In service, with the handler installed, no step of any goroutine and no hangup ends the process.\<close>

lemma in_service_alive: "in_service (sv_main s) \<Longrightarrow> alive s"
  by (simp add: phase_defs split: main_phase.splits)

lemma serving_stays:
  assumes "serves_ok fwd' s" and "phases_ok s" and "in_service (sv_main s)" and "sv_hup s \<notin> {HupSpawned, HupGone}"
    and "serve_step env fwd s s'"
  shows "alive s'"
  using assms(5)
proof (cases rule: serve_step.cases)
  case Main
  from Main(2) assms(3) show ?thesis by (cases rule: main_step.cases) (simp_all add: phase_defs)
next
  case Hup
  have "d_down (fst (sv_daemon s))" using assms(1,3) by (simp add: serves_ok_def Let_def)
  then have "\<not> panics (se_host env) (sv_daemon s)" by (simp add: panics_def)
  from Hup(2) this have "sv_main s' = sv_main s" by (cases rule: hup_step.cases) simp_all
  with assms(3) show ?thesis by (simp add: in_service_alive)
next
  case Status
  from Status(2) have "sv_main s' = sv_main s" by (cases rule: status_step.cases) simp_all
  with assms(3) show ?thesis by (simp add: in_service_alive)
next
  case Sent
  with assms(2-4) have "sv_main s' = sv_main s" by (auto simp: sent_def phases_ok_def)
  with assms(3) show ?thesis by (simp add: in_service_alive)
next
  case Terminated
  with assms(3) show ?thesis by (auto simp: terminated_def phase_defs split: main_phase.splits)
next
  case (Others d w w')
  with assms(3) show ?thesis by (simp add: in_service_alive)
qed

section \<open>A process\<close>

text \<open>A configuration without upstreams, an empty state directory, devices that never fail.\<close>

definition quiet_env :: "(unit world, fake_error + unit, unit) serve_env" where
  "quiet_env = \<lparr>se_host = world_host run_devices, se_load = \<lambda>_. Inl NoCommand, se_is_canceled = \<lambda>_. False,
     se_reports = \<lambda>_ _. Inl (), se_sort = (\<lambda>cs. cs), se_encode = \<lambda>_. ''{}'', se_dir = ''/var/lib/lotsman'', se_pid = 4711\<rparr>"

definition quiet_cmd :: cmd_env where
  "quiet_cmd = \<lparr>ce_cfg = run_settings\<lparr>cf_upstreams := []\<rparr>, ce_id = \<lparr>id_private = zero_key, id_params = zero_params\<rparr>\<rparr>"

abbreviation quiet_init :: "store_db \<Rightarrow> (unit world, fake_error + unit) serving" where
  "quiet_init db \<equiv> serve_init quiet_cmd [] (run_world db)"

abbreviation quiet_reaches :: "store_db \<Rightarrow> (unit world, fake_error + unit) serving \<Rightarrow> bool" where
  "quiet_reaches db s \<equiv> (serve_step quiet_env world_fwd)\<^sup>*\<^sup>* (quiet_init db) s"

lemma quiet_host: "se_host quiet_env = world_host run_devices"
  by (simp add: quiet_env_def)

lemma quiet_fields [simp]:
  "se_load quiet_env = (\<lambda>_. Inl NoCommand)" "se_pid quiet_env = 4711"
  "se_is_canceled quiet_env = (\<lambda>_. False)"
  by (simp_all add: quiet_env_def)

lemma quiet_main:
  "quiet_reaches db s \<Longrightarrow> alive s \<Longrightarrow> main_step quiet_env s s' \<Longrightarrow> quiet_reaches db s'"
  and quiet_hup: "quiet_reaches db s \<Longrightarrow> alive s \<Longrightarrow> hup_step quiet_env s s' \<Longrightarrow> quiet_reaches db s'"
  and quiet_status: "quiet_reaches db s \<Longrightarrow> alive s \<Longrightarrow> status_step quiet_env s s' \<Longrightarrow> quiet_reaches db s'"
  and quiet_sent: "quiet_reaches db s \<Longrightarrow> alive s \<Longrightarrow> quiet_reaches db (sent s)"
  and quiet_terminated: "quiet_reaches db s \<Longrightarrow> alive s \<Longrightarrow> quiet_reaches db (terminated s)"
  by (rule rtranclp.rtrancl_into_rtrancl, assumption, rule serve_step.intros, assumption+)+

lemma quiet_start:
  "\<exists>w. start (se_host quiet_env) (sv_daemon (quiet_init db)) =
      (None, ((fst (sv_daemon (quiet_init db)))\<lparr>d_down := True\<rparr>, w)) \<and> wd_db w = db"
proof -
  have "cf_listen run_settings = ''0.0.0.0:51820''" by (simp add: run_settings_def sample_settings_def default_config_def)
  then show ?thesis
    by (simp add: quiet_host serve_init_def quiet_cmd_def start_def sample_parts new_daemon_def world_host_def world_dp_def on_dev_def on_dp_def
        run_world_def fake_ops_def fake_setup_def fake_log_def interfaces_def fake_new_def Let_def)
qed

text \<open>The process with its handler installed, in service.\<close>

lemma quiet_serving:
  "\<exists>s. quiet_reaches db s \<and> sv_main s = Waiting \<and> sv_hup s = HupIdle \<and> sv_status s = StatusWaiting \<and> sv_ready s \<and>
     \<not> sv_cancelled s \<and> sv_files s = [(pidPath (se_dir quiet_env), pid_text 4711)] \<and> d_ups (fst (sv_daemon s)) = []"
  if "list_peers db = Inr []"
proof -
  let ?s0 = "quiet_init db"
  obtain w where st: "start (se_host quiet_env) (sv_daemon ?s0) = (None, ((fst (sv_daemon ?s0))\<lparr>d_down := True\<rparr>, w))"
    and w: "wd_db w = db" using quiet_start by blast
  let ?s1 = "?s0\<lparr>sv_main := Announced, sv_files := [(pidPath (se_dir quiet_env), pid_text 4711)]\<rparr>"
  let ?s2 = "?s1\<lparr>sv_main := Starting, sv_hup := HupSpawned, sv_status := StatusWaiting\<rparr>"
  let ?s3 = "?s2\<lparr>sv_hup := HupIdle\<rparr>"
  let ?st = "((fst (sv_daemon ?s0))\<lparr>d_down := True\<rparr>, w)"
  let ?s4 = "?s3\<lparr>sv_main := Probing 0, sv_daemon := ?st\<rparr>"
  have "quiet_reaches db ?s1"
    by (rule quiet_main [of db ?s0]) (use main_step.WritePid [of ?s0 quiet_env] in \<open>simp_all add: serve_init_def phase_defs\<close>)
  then have "quiet_reaches db ?s2"
    by (rule quiet_main) (use main_step.Spawn [of ?s1 quiet_env] in \<open>simp_all add: phase_defs\<close>)
  then have "quiet_reaches db ?s3"
    by (rule quiet_hup) (use hup_step.Notify [of ?s2 quiet_env] in \<open>simp_all add: phase_defs\<close>)
  then have s4: "quiet_reaches db ?s4"
    by (rule quiet_main) (use main_step.Start [of ?s3 quiet_env ?st] st in \<open>simp_all add: serve_init_def new_daemon_def phase_defs\<close>)
  have list: "hs_list_peers (se_host quiet_env) w = Inr []" using that w by (simp add: quiet_host world_host_def)
  have rec: "reconcile (se_host quiet_env) ?st = ([], ?st)" "store_stable (se_host quiet_env) ?st"
    using list by (simp_all add: reconcile_def store_stable_def keys_stable_def serve_init_def new_daemon_def)
  let ?s5 = "?s4\<lparr>sv_main := Waiting, sv_ready := True, sv_daemon := ?st\<rparr>"
  have "main_step quiet_env ?s4 ?s5" using main_step.RoundEnd [of ?s4 quiet_env] by (simp add: rec)
  then have "quiet_reaches db ?s5" by (rule quiet_main [OF s4, rotated]) (simp add: phase_defs)
  then show ?thesis by (intro exI [where x = ?s5]) (simp add: serve_init_def new_daemon_def)
qed

section \<open>Three executions\<close>

lemma quiet_spawned:
  "\<exists>s. quiet_reaches db s \<and> sv_main s = Starting \<and> sv_hup s = HupSpawned \<and> sv_daemon s = sv_daemon (quiet_init db)"
proof -
  let ?s0 = "quiet_init db"
  let ?s1 = "?s0\<lparr>sv_main := Announced, sv_files := [(pidPath (se_dir quiet_env), pid_text 4711)]\<rparr>"
  let ?s2 = "?s1\<lparr>sv_main := Starting, sv_hup := HupSpawned, sv_status := StatusWaiting\<rparr>"
  have "quiet_reaches db ?s1"
    by (rule quiet_main [of db ?s0]) (use main_step.WritePid [of ?s0 quiet_env] in \<open>simp_all add: serve_init_def phase_defs\<close>)
  then have "quiet_reaches db ?s2"
    by (rule quiet_main) (use main_step.Spawn [of ?s1 quiet_env] in \<open>simp_all add: phase_defs\<close>)
  then show ?thesis by (intro exI [where x = ?s2]) simp
qed

text \<open>The pid file invites a hangup before the handler is installed: it kills the process, and the file stays.\<close>

lemma early_hangup_kills:
  "\<exists>s. quiet_reaches db s \<and> sv_main s = Killed \<and> map_of (sv_files s) (pidPath (se_dir quiet_env)) = Some (pid_text 4711)"
proof -
  let ?s1 = "(quiet_init db)\<lparr>sv_main := Announced, sv_files := [(pidPath (se_dir quiet_env), pid_text 4711)]\<rparr>"
  have "quiet_reaches db ?s1"
    by (rule quiet_main [of db "quiet_init db"])
      (use main_step.WritePid [of "quiet_init db" quiet_env] in \<open>simp_all add: serve_init_def phase_defs\<close>)
  then have "quiet_reaches db (sent ?s1)" by (rule quiet_sent) (simp add: phase_defs)
  then show ?thesis by (intro exI [where x = "sent ?s1"]) (simp add: sent_def serve_init_def)
qed

text \<open>A hangup handled before \<open>Run\<close> has started the daemon panics when the database has a peer.\<close>

lemma early_hangup_panics:
  assumes "list_peers db = Inr (p # ps)"
  shows "\<exists>s. quiet_reaches db s \<and> sv_main s = Panicked"
proof -
  obtain s where s: "quiet_reaches db s" "sv_main s = Starting" "sv_hup s = HupSpawned" "sv_daemon s = sv_daemon (quiet_init db)"
    using quiet_spawned by blast
  let ?s1 = "s\<lparr>sv_hup := HupIdle\<rparr>"
  let ?s2 = "?s1\<lparr>sv_pending := True\<rparr>"
  let ?s3 = "?s2\<lparr>sv_hup := HupLoaded (Inl NoCommand), sv_pending := False\<rparr>"
  let ?s4 = "?s3\<lparr>sv_hup := HupReconcile\<rparr>"
  have "quiet_reaches db ?s1"
    by (rule quiet_hup [OF s(1)]) (use s hup_step.Notify [of s quiet_env] in \<open>simp_all add: phase_defs\<close>)
  then have "quiet_reaches db (sent ?s1)" by (rule quiet_sent) (simp add: s phase_defs)
  then have "quiet_reaches db ?s2" by (simp add: sent_def)
  then have "quiet_reaches db ?s3"
    by (rule quiet_hup) (use s hup_step.Load [of ?s2 quiet_env] in \<open>simp_all add: phase_defs\<close>)
  then have s4: "quiet_reaches db ?s4"
    by (rule quiet_hup) (use s hup_step.NotLoaded [of ?s3 NoCommand quiet_env] in \<open>simp_all add: phase_defs\<close>)
  have "panics (se_host quiet_env) (sv_daemon ?s4)"
    using assms by (simp add: s panics_def quiet_host world_host_def serve_init_def new_daemon_def run_world_def)
  then have "quiet_reaches db (?s4\<lparr>sv_main := Panicked\<rparr>)"
    by (intro quiet_hup [OF s4] hup_step.Panic) (simp_all add: s phase_defs)
  then show ?thesis by (intro exI [where x = "?s4\<lparr>sv_main := Panicked\<rparr>"]) simp
qed

text \<open>\<open>serve\<close> does not wait for its goroutines: it may return before the status file is removed.\<close>

lemma exit_leaves_status:
  assumes "list_peers db = Inr []"
  shows "\<exists>s. quiet_reaches db s \<and> sv_main s = Exited None \<and> map_of (sv_files s) (statusPath (se_dir quiet_env)) = Some ''{}''"
proof -
  let ?dir = "se_dir quiet_env"
  obtain s where s: "quiet_reaches db s" "sv_main s = Waiting" "sv_status s = StatusWaiting" "sv_ready s"
      "sv_files s = [(pidPath ?dir, pid_text 4711)]" "\<not> sv_cancelled s" "sv_hup s = HupIdle"
    using quiet_serving [OF assms] by blast
  obtain d w where d: "sv_daemon s = (d, w)" by (cases "sv_daemon s")
  let ?taken = "daemon_status (se_sort quiet_env) zero_time (se_reports quiet_env w) d"
  let ?s1 = "s\<lparr>sv_status := StatusDue\<rparr>"
  let ?s2 = "?s1\<lparr>sv_status := StatusTaken ?taken\<rparr>"
  let ?s3 = "?s2\<lparr>sv_status := StatusWritten, sv_files := mput (status_tmp ?dir) ''{}'' (sv_files s)\<rparr>"
  let ?s4 = "?s3\<lparr>sv_status := StatusIdle, sv_files := mput (statusPath ?dir) ''{}'' (mdel (status_tmp ?dir) (sv_files ?s3))\<rparr>"
  let ?s5 = "?s4\<lparr>sv_cancelled := True\<rparr>"
  let ?s6 = "?s5\<lparr>sv_main := Stopping None\<rparr>"
  let ?s7 = "?s6\<lparr>sv_main := Stopped None, sv_daemon := stop (se_host quiet_env) (sv_daemon ?s6)\<rparr>"
  let ?s8 = "?s7\<lparr>sv_main := Leaving None, sv_cancelled := True\<rparr>"
  let ?s9 = "?s8\<lparr>sv_main := Exited (exit_error quiet_env None), sv_files := mdel (pidPath ?dir) (sv_files ?s8)\<rparr>"
  have alive: "alive s" using s(2) by (simp add: phase_defs)
  have "quiet_reaches db ?s1" by (rule quiet_status [OF s(1) alive status_step.Ready [OF s(3,4)]])
  then have "quiet_reaches db ?s2"
    by (rule quiet_status) (use s d status_step.Take [of ?s1 d w quiet_env zero_time] in \<open>simp_all add: phase_defs\<close>)
  then have "quiet_reaches db ?s3"
    by (rule quiet_status) (use s status_step.Write [of ?s2 ?taken quiet_env zero_time] in \<open>simp_all add: phase_defs quiet_env_def\<close>)
  then have "quiet_reaches db ?s4"
    by (rule quiet_status) (use s status_step.Rename [of ?s3 quiet_env "''{}''"] in \<open>simp_all add: phase_defs\<close>)
  then have "quiet_reaches db (terminated ?s4)" by (rule quiet_terminated) (simp add: s phase_defs)
  then have "quiet_reaches db ?s5" by (simp add: terminated_def s)
  then have "quiet_reaches db ?s6" by (rule quiet_main) (use s in \<open>auto simp: phase_defs intro!: main_step.Done\<close>)
  then have "quiet_reaches db ?s7" by (rule quiet_main) (use main_step.Stop [of ?s6 None quiet_env] in \<open>simp_all add: phase_defs\<close>)
  then have "quiet_reaches db ?s8" by (rule quiet_main) (use main_step.Cancel [of ?s7 None quiet_env] in \<open>simp_all add: phase_defs\<close>)
  then have "quiet_reaches db ?s9" by (rule quiet_main) (use main_step.Exit [of ?s8 None quiet_env] in \<open>simp_all add: phase_defs\<close>)
  moreover have "sv_main ?s9 = Exited None" "map_of (sv_files ?s9) (statusPath ?dir) = Some ''{}''"
    by (simp_all add: exit_error_def)
  ultimately show ?thesis by blast
qed

section \<open>Properties\<close>


text \<open>C11. A user command does not disturb a service that is up: its hangup goes to the process of the pid file; with the handler installed
  it waits in the channel, and nothing that any goroutine, signal or other program does next ends the process; and the handler,
  left alone, applies the configuration and reconciles the database.\<close>

theorem hangup_safe:
  assumes "(serve_step env world_fwd)\<^sup>*\<^sup>* (serve_init e files w) s" and "se_host env = world_host dv"
    and "fk_routes (wd_dp w) = []" and "map_of files (statusPath (se_dir env)) = None"
    and "in_service (sv_main s)" and "sv_hup s \<notin> {HupSpawned, HupGone}"
    and "ch_read_file h = map_of (sv_files s)" and "cf_state_dir (ce_cfg ce) = se_dir env" and "0 < se_pid env" and "se_pid env < 2 ^ 63"
  shows "cw_signals (nudgeDaemon h ce cw) = cw_signals cw @ [se_pid env] \<and> sent s = s\<lparr>sv_pending := True\<rparr> \<and>
    (\<forall>s'. serve_step env world_fwd s s' \<longrightarrow> alive s') \<and>
    (sv_hup s = HupIdle \<and> store_stable (se_host env) (hangup_applied env (sv_daemon s)) \<longrightarrow>
     (hup_step env)\<^sup>*\<^sup>* (sent s) (s\<lparr>sv_pending := False, sv_daemon := hangup_result env (sv_daemon s)\<rparr>))"
proof -
  have ok: "serves_ok world_fwd s" "files_ok env s" "phases_ok s"
    using world.serve_run [OF assms(1,2) _ assms(4)] by (simp_all add: world_fwd_def fake_fwd_def assms(3))
  have "announced (sv_main s)" using assms(5) by (simp add: phase_defs split: main_phase.splits)
  then have signal: "cw_signals (nudgeDaemon h ce cw) = cw_signals cw @ [se_pid env]"
    using nudge_sends [OF assms(7,8) _ assms(9,10)] ok(2) by (simp add: files_ok_def)
  have sent: "sent s = s\<lparr>sv_pending := True\<rparr>" using assms(5,6) ok(3) by (simp add: sent_def phases_ok_def)
  have "d_down (fst (sv_daemon s))" using ok(1) assms(5) by (simp add: serves_ok_def Let_def)
  with hangup_handled [of "s\<lparr>sv_pending := True\<rparr>" env] serving_stays [OF ok(1,3) assms(5,6)] signal sent
  show ?thesis by auto
qed


theorem hangup_safe_witness:
  "\<exists>(s :: (unit world, fake_error + unit) serving) h ce cw. sv_main s = Waiting \<and> sv_hup s = HupIdle \<and>
     cw_signals (nudgeDaemon h ce cw) = cw_signals cw @ [4711] \<and> (\<forall>s'. serve_step quiet_env world_fwd s s' \<longrightarrow> alive s')"
proof -
  have none: "list_peers sample_db = Inr []" by (simp add: list_peers_def queryPeers_def joined_def sample_db_def)
  obtain s where s: "quiet_reaches sample_db s" "sv_main s = Waiting" "sv_hup s = HupIdle" using quiet_serving [OF none] by blast
  have routes: "fk_routes (wd_dp (run_world sample_db)) = []" by (simp add: run_world_def fake_new_def)
  let ?h = "\<lparr>ch_getenv = \<lambda>_. [], ch_read_file = map_of (sv_files s), ch_yaml = \<lambda>_ c. Some c, ch_identity = \<lambda>_. Inr (ce_id quiet_cmd),
    ch_open = \<lambda>_. None, ch_lookup = \<lambda>_. None, ch_pick = next_rowid, ch_pub = key_public (\<lambda>k. k), ch_rand = None, ch_created = [],
    ch_now = zero_time, ch_json = \<lambda>_. None, ch_version = []\<rparr>"
  let ?ce = "quiet_cmd\<lparr>ce_cfg := (ce_cfg quiet_cmd)\<lparr>cf_state_dir := se_dir quiet_env\<rparr>\<rparr>"
  have "cw_signals (nudgeDaemon ?h ?ce cw) = cw_signals cw @ [4711] \<and> (\<forall>s'. serve_step quiet_env world_fwd s s' \<longrightarrow> alive s')" for cw
    using hangup_safe [OF s(1) quiet_host routes, where h = ?h and ce = ?ce and cw = cw] s(2,3) by (simp add: phase_defs)
  with s(2,3) show ?thesis by blast
qed

end
