(* ===== verification/Probe.thy ===== *)
theory Probe
  imports Health Netip Go_Time
begin

text \<open>
  \<open>internal/health/probe.go\<close> and \<open>probe_linux.go\<close>: the TCP probe of an upstream. The sockets of the operating system and the
  clock are the fields of \<open>tcp_net\<close>. \<open>dial\<close> is \<open>net.Dialer\<close> as documented: the control function runs on
  the new socket, then the local address is bound, then the connection is made; a failure closes the socket.
\<close>

record ('s, 'w, 'e) tcp_net =
  tn_socket :: "'w \<Rightarrow> ('e + 's) \<times> 'w"
  tn_bind_device :: "'s \<Rightarrow> string \<Rightarrow> 'w \<Rightarrow> 'e option \<times> 'w"
  tn_bind_local :: "'s \<Rightarrow> addr \<Rightarrow> 'w \<Rightarrow> 'e option \<times> 'w"
  tn_connect :: "'s \<Rightarrow> addr_port \<Rightarrow> int \<Rightarrow> 'w \<Rightarrow> 'e option \<times> 'w"
  tn_close :: "'s \<Rightarrow> 'w \<Rightarrow> 'w"
  tn_now :: "'w \<Rightarrow> gotime \<times> 'w"

datatype 'e probe_error = InterfaceRequired | BindInterface string 'e | DialFailed 'e

type_synonym ('s, 'w, 'e) control = "'s \<Rightarrow> 'w \<Rightarrow> 'e probe_error option \<times> 'w"

record ('s, 'w, 'e) dialer =
  dl_timeout :: int
  dl_local :: addr
  dl_control :: "('s, 'w, 'e) control option"

definition dial ::
  "('s, 'w, 'e) tcp_net \<Rightarrow> ('s, 'w, 'e) dialer \<Rightarrow> addr_port \<Rightarrow> 'w \<Rightarrow> ('e probe_error + 's) \<times> 'w" where
  "dial net d target w =
     (case tn_socket net w of
        (Inl e, w1) \<Rightarrow> (Inl (DialFailed e), w1)
      | (Inr s, w1) \<Rightarrow>
     (case (case dl_control d of None \<Rightarrow> (None, w1) | Some f \<Rightarrow> f s w1) of
        (Some e, w2) \<Rightarrow> (Inl e, tn_close net s w2)
      | (None, w2) \<Rightarrow>
     (case tn_bind_local net s (dl_local d) w2 of
        (Some e, w3) \<Rightarrow> (Inl (DialFailed e), tn_close net s w3)
      | (None, w3) \<Rightarrow>
     (case tn_connect net s target (dl_timeout d) w3 of
        (Some e, w4) \<Rightarrow> (Inl (DialFailed e), tn_close net s w4)
      | (None, w4) \<Rightarrow> (Inr s, w4)))))"

definition bindProbe :: "('s, 'w, 'e) tcp_net \<Rightarrow> string \<Rightarrow> ('s, 'w, 'e) dialer \<Rightarrow> ('s, 'w, 'e) dialer" where
  "bindProbe net ifc d =
     d\<lparr>dl_control := Some (\<lambda>s w. let (r, w') = tn_bind_device net s ifc w in (map_option (BindInterface ifc) r, w'))\<rparr>"

definition probe ::
  "('s, 'w, 'e) tcp_net \<Rightarrow> string \<Rightarrow> addr \<Rightarrow> addr_port \<Rightarrow> int \<Rightarrow> 'w \<Rightarrow> ('e probe_error + int) \<times> 'w" where
  "probe net ifc source target timeout w =
     (let d0 = \<lparr>dl_timeout = timeout, dl_local = source, dl_control = None\<rparr>;
          d = (if ifc \<noteq> [] then bindProbe net ifc d0 else d0);
          (started, w1) = tn_now net w
      in case dial net d target w1 of
           (Inl e, w2) \<Rightarrow> (Inl e, w2)
         | (Inr s, w2) \<Rightarrow>
             (let (ended, w3) = tn_now net (tn_close net s w2) in (Inr (sint (time_sub ended started)), w3)))"

definition Probe :: "('s, 'w, 'e) tcp_net \<Rightarrow> addr \<Rightarrow> addr_port \<Rightarrow> int \<Rightarrow> 'w \<Rightarrow> ('e probe_error + int) \<times> 'w" where
  "Probe net source target timeout w = probe net [] source target timeout w"

definition ProbeOnInterface ::
  "('s, 'w, 'e) tcp_net \<Rightarrow> string \<Rightarrow> addr \<Rightarrow> addr_port \<Rightarrow> int \<Rightarrow> 'w \<Rightarrow> ('e probe_error + int) \<times> 'w" where
  "ProbeOnInterface net ifc source target timeout w =
     (if ifc = [] then (Inl InterfaceRequired, w) else probe net ifc source target timeout w)"

section \<open>A probe never leaves its interface\<close>

locale device_binding =
  fixes net :: "('s, 'w, 'e) tcp_net"
    and bound :: "'w \<Rightarrow> 's \<Rightarrow> string option"
  assumes bind_device: "tn_bind_device net s ifc w = (None, w') \<Longrightarrow> bound w' s = Some ifc"
    and bind_local: "tn_bind_local net s a w = (r, w') \<Longrightarrow> bound w' t = bound w t"
begin

text \<open>When a probe succeeds, the connection it timed was made on a socket bound to the interface at that moment.\<close>

lemma probe_bound:
  assumes "ProbeOnInterface net ifc source target timeout w = (Inr l, w')"
  shows "\<exists>s w1 w2. bound w1 s = Some ifc \<and> tn_connect net s target timeout w1 = (None, w2)"
proof -
  obtain started w1 where now: "tn_now net w = (started, w1)" by fastforce
  from assms have ne: "ifc \<noteq> []" by (auto simp: ProbeOnInterface_def split: if_splits)
  let ?d = "bindProbe net ifc \<lparr>dl_timeout = timeout, dl_local = source, dl_control = None\<rparr>"
  from assms ne now obtain s w2 where dl: "dial net ?d target w1 = (Inr s, w2)"
    by (auto simp: ProbeOnInterface_def probe_def Let_def split: prod.splits sum.splits)
  then obtain wa wb wc where "tn_bind_device net s ifc wa = (None, wb)" and "tn_bind_local net s source wb = (None, wc)"
      and "tn_connect net s target timeout wc = (None, w2)"
    by (auto simp: dial_def bindProbe_def Let_def split: prod.splits sum.splits option.splits)
  then show ?thesis using bind_device bind_local by metis
qed

end

text \<open>A host whose sockets are numbered, with the interface each is bound to.\<close>

record tcp_os =
  to_next :: nat
  to_bound :: "(nat \<times> string) list"
  to_links :: "string list"
  to_clock :: nat

definition os_tcp :: "(nat, tcp_os, string) tcp_net" where
  "os_tcp =
     \<lparr>tn_socket = \<lambda>os. (Inr (to_next os), os\<lparr>to_next := to_next os + 1\<rparr>),
      tn_bind_device = \<lambda>s ifc os. if ifc \<in> set (to_links os) then (None, os\<lparr>to_bound := mput s ifc (to_bound os)\<rparr>)
                                  else (Some ''no such device'', os),
      tn_bind_local = \<lambda>s a os. (None, os),
      tn_connect = \<lambda>s target timeout os. (None, os\<lparr>to_clock := to_clock os + 1\<rparr>),
      tn_close = \<lambda>s os. os\<lparr>to_bound := mdel s (to_bound os)\<rparr>,
      tn_now = \<lambda>os. (time_unix (of_nat (to_clock os)) 0, os)\<rparr>"

interpretation os_tcp: device_binding os_tcp "\<lambda>os. map_of (to_bound os)"
  by unfold_locales (auto simp: os_tcp_def split: if_splits)

lemma os_probe_refused: "fst (ProbeOnInterface os_tcp ''lm-up-de1'' (V4 1) (AddrPort (V4 2) 443) t
    \<lparr>to_next = 0, to_bound = [], to_links = [], to_clock = 0\<rparr>) = Inl (BindInterface ''lm-up-de1'' ''no such device'')"
  by (simp add: ProbeOnInterface_def probe_def dial_def bindProbe_def os_tcp_def)

end
