(* ===== verification/Spec2Isabelle.thy ===== *)
theory Spec2Isabelle
  imports Mtu Health Policy Awg_Sizes Client Store_Migrate Dataplane_Fake Daemon_Converge Daemon_Reload Linux_Host Linux_Coexist Linux_Findings
    Cmd_Lifecycle Cmd_Main Cmd_Service Probe
begin

text \<open>
  Lotsman is a self-hosted AmneziaWG gateway. Users connect to one downstream interface (\<open>lm0\<close>); each of their
  peers has a profile, and the daemon sends its traffic into one of several provider tunnels (the upstreams) by policy, moving
  it when an upstream dies and blocking it when none is left. This development models the Go code under \<open>src/cmd\<close> and
  \<open>src/internal\<close>. Each theory opens with the file it models and how its definitions correspond to it; definitions keep
  the names of the code.

  \<^bold>\<open>How the parts interact.\<close> A user command (\<open>cmd/lotsman/user.go\<close>) opens the environment (configuration,
  identity, database), changes the database and signals the running daemon. The daemon (\<open>internal/daemon\<close>) loads the upstreams
  (\<open>internal/awgconf\<close> parses their files), sets up the dataplane, and then repeats a round of health probes
  (\<open>internal/health\<close>) and a reconciliation of the database (\<open>internal/store\<close>) with the peers on the device
  (\<open>internal/tunnel\<close>) and their routes. The policy (\<open>internal/policy\<close>) chooses the upstream of a peer. Routes are calls
  of an interface (\<open>internal/dataplane\<close>) with two implementations: one in memory and one on nftables and policy routing.

  \<^bold>\<open>Conventions.\<close> \<open>Prelude\<close> fixes them: an \<open>error\<close> return is the left of a sum or an option,
  machine integers are words of their width, a Go map is an association list whose order stands for the unspecified order of
  iteration, an operation takes the state and the world and returns both. Code that is not in the repository is a parameter.

  \<^bold>\<open>The Go library.\<close> \<open>Go_Strings\<close> (\<open>strings\<close>, \<open>strconv\<close>, the line scanner of
  \<open>bufio\<close> with its limit), \<open>Go_Encoding\<close> (base64, hex), \<open>Go_Time\<close>, \<open>Go_Float\<close>
  (\<open>float64\<close> as the rational it denotes, rounded after each operation), \<open>Go_Flag\<close>, \<open>Netip\<close> (addresses and
  prefixes with their text forms). They hold what the program calls, with the round trips the components rest on.

  \<^bold>\<open>Configuration files of tunnels\<close> (\<open>internal/awgconf\<close>). \<open>Awg_Key\<close>, \<open>Awg_Params\<close>,
  \<open>Awg_Wire\<close> and \<open>Awg_Config\<close> model the four files; \<open>Awg_Accept\<close> proves what an accepted configuration
  satisfies, \<open>Awg_Roundtrip\<close> and \<open>Awg_Sizes\<close> that \<open>Parse\<close> inverts \<open>String\<close>, including the bound on
  the line length. \<open>Client\<close> models the configuration issued to a user and shows that it parses back to itself.

  \<^bold>\<open>Decisions.\<close> \<open>Config\<close> (the operator's settings and \<open>Validate\<close>, equivalent to a declarative reading),
  \<open>Policy\<close> (\<open>Select\<close>, characterised by tier, stickiness and least latency), \<open>Health\<close> (the hysteresis as a
  function of the probe history), \<open>Probe\<close> (the probe over sockets bound to an interface), \<open>Mtu\<close> (the client's MTU is the
  largest that fits every upstream).

  \<^bold>\<open>State on disk.\<close> \<open>Store\<close> (users and peers as tables with their constraints), \<open>Store_Alloc\<close> (the
  lowest free address), \<open>Store_Migrate\<close> (the schema migrations refine the identity on users and peers, also when one fails),
  \<open>Store_Open\<close> (opening a database and its file modes), \<open>Identity\<close> (the server's key and parameters; any interleaving of
  processes that create the file at once ends, and they agree on one identity).

  \<^bold>\<open>The dataplane.\<close> \<open>Dataplane\<close> is the interface, its promises the locales \<open>dataplane_calls\<close>,
  \<open>dataplane_safety\<close> and \<open>dataplane_contract\<close>. \<open>Dataplane_Fake\<close> is the implementation in memory.
  \<open>internal/dataplane/linux/linux.go\<close> is split into its pure part (\<open>Linux_Rules\<close>), the nftables rules with an evaluator
  (\<open>Linux_Nft\<close>) and the operations over a record \<open>kernel_api\<close> of kernel calls (\<open>Linux_Dataplane\<close>).
  \<open>Linux_Safety\<close> proves from \<open>kernel_laws\<close> what the firewall admits whatever the kernel refuses, \<open>Linux_Refine\<close>
  from \<open>rule_laws\<close> that the policy rules simulate the implementation in memory, \<open>Linux_Coexist\<close> from \<open>host_laws\<close>
  that rules and routes of others survive. \<open>Linux_Kernel\<close> is an executable kernel on which every one of these locales is
  interpreted. \<open>Linux_Findings\<close> holds two executions the comments of the code do not allow for.

  \<^bold>\<open>The daemon.\<close> \<open>Upstream\<close> (\<open>LoadUpstream\<close>, \<open>RefreshEndpoint\<close>) and \<open>Daemon\<close>
  (\<open>daemon.go\<close>, every operation under its mutex). \<open>Daemon_Safety\<close> proves each operation safe over any host that keeps the
  contract (\<open>daemon_calls\<close>, \<open>daemon_host\<close>); \<open>Daemon_Runs\<close> lets the operations interleave (\<open>daemon_step\<close>)
  and lifts the invariants to every run; \<open>Daemon_World\<close> instantiates them with the store and the dataplane in memory, and
  \<open>Linux_Host\<close> with the Linux dataplane (\<open>linux_devices\<close>): only peers on the device are forwarded, in every reachable
  state. \<open>Daemon_Converge\<close>: a reconciliation without errors reaches the wanted state, a host that answers gives none, and
  repeating it changes nothing. \<open>Daemon_Reload\<close>: what a reload keeps. \<open>Daemon_Cycle\<close>: the rounds of \<open>Run\<close>.
  \<open>Daemon_Down\<close>: only \<open>start\<close> creates the downstream device.
  \<open>Metrics\<close> (the text writer, with a reader of the format as its specification) and \<open>Daemon_Status\<close> (\<open>Status\<close>,
  \<open>Metrics\<close> and the families): a scrape yields the snapshot, well typed, and the two reports count alike.

  \<^bold>\<open>Tunnel devices\<close> (\<open>internal/tunnel\<close>). \<open>Bind\<close> is the socket bound to one address, its calls
  interleaved wherever its mutex is free (\<open>bind_step\<close>) over sockets that keep \<open>udp_laws\<close>; \<open>Tunnel\<close> the operations of a
  device and the parser of its report.

  \<^bold>\<open>Commands\<close> (\<open>cmd/lotsman\<close>). \<open>Cmd_User\<close>, \<open>Cmd_Main\<close> (dispatch, checks, status) and
  \<open>Cmd_Lifecycle\<close> (add, show and remove a user's device, one after the other). \<open>Cmd_Serve\<close> is the service process: its
  goroutines (\<open>main_step\<close>, \<open>hup_step\<close>, \<open>status_step\<close>) interleaved with signals and other programs. \<open>Cmd_Service\<close>
  shows its files and its forwarding sound in every reachable state, that a hangup of a user command cannot end a service in operation,
  and three executions around start and exit that go wrong.

  \<^bold>\<open>Parameters and their laws.\<close> Scalar multiplication on Curve25519, the YAML and JSON decoders, random bytes, the clock, the
  resolver and the files are arguments. So are the operating system's sockets (\<open>udp_net\<close> with \<open>udp_laws\<close>,
  \<open>tcp_net\<close> with \<open>device_binding\<close>), amneziawg-go (\<open>awg_lib\<close>), netlink, nftables and \<open>/proc/sys\<close>
  (\<open>kernel_api\<close>), the row id SQLite picks (\<open>store_env\<close>), and the order \<open>slices.SortFunc\<close> gives to equal elements
  (\<open>sorts_by\<close>). Each locale of such laws is interpreted on executable definitions, and each law states documented behaviour
  of the code outside.

  \<^bold>\<open>Bounds and fuel.\<close> The loops of the program are total functions: the recursion is structural or has its measure (tags of a
  signature string, words of a line, addresses left in a subnet, tables left in the range, pattern and text of a glob). Fuel appears only
  in the reader of label sets, which is specification: it is given the length of the text, and every label takes a character. The
  shortest decimal of a \<open>float64\<close> is searched up to 17 digits, enough to tell any two apart.

  \<^bold>\<open>Not modelled.\<close> The HTTP listener of \<open>serveMetrics\<close>, which only reads the metrics; logging; the alignment of \<open>text/tabwriter\<close> (a table is its rows)
  and the drawing of QR codes; failures of the SQLite engine outside the migrations; failures of the writer behind
  \<open>metrics.Write\<close>; the platform variants \<open>probe_other.go\<close> and \<open>serve_other.go\<close>, which only return an error; the
  monotonic reading inside \<open>time.Time\<close>.
\<close>

end
